(* ===== verification/Prelude.thy ===== *)
theory Prelude
  imports Complex_Main "HOL-Library.AList" "HOL-Library.Sublist"
begin

text \<open>
  The values and library functions of Python that the components share: exceptions and
  results, insertion-ordered dictionaries, text, floats and JSON values, with the lemmas
  about them that the component theories use. Text is modelled as lists of 8-bit
  characters; \<open>py_lower\<close>, \<open>py_strip\<close> and \<open>py_isdigit\<close> follow Python on the ASCII range.
\<close>

subsection \<open>Collections of facts\<close>

named_theorems dict_simps \<open>lookups after updates of an insertion-ordered dictionary\<close>
named_theorems text_defs \<open>definitions of the text functions, for evaluation\<close>
named_theorems inv_intros \<open>preservation of the components' invariants\<close>

subsection \<open>Exceptions and results\<close>

text \<open>The exceptions of the language that the code raises or lets escape.\<close>

datatype exn =
    ValueError string
  | KeyError string
  | TypeError string
  | IndexError string
  | RuntimeError string
  | AssertionError string
  | PermissionError string
  | NotImplementedError string
  | ExternalError string

fun rbind :: "'e + 'a \<Rightarrow> ('a \<Rightarrow> 'e + 'b) \<Rightarrow> 'e + 'b" where
  "rbind (Inl e) f = Inl e"
| "rbind (Inr a) f = f a"

fun rmap :: "('a \<Rightarrow> 'b) \<Rightarrow> 'e + 'a \<Rightarrow> 'e + 'b" where
  "rmap f (Inl e) = Inl e"
| "rmap f (Inr a) = Inr (f a)"

fun is_ok :: "'e + 'a \<Rightarrow> bool" where
  "is_ok (Inl e) = False"
| "is_ok (Inr a) = True"

text \<open>A \<open>for\<close> loop that builds a list and stops at the first exception.\<close>

fun rmap_list :: "('a \<Rightarrow> 'e + 'b) \<Rightarrow> 'a list \<Rightarrow> 'e + 'b list" where
  "rmap_list f [] = Inr []"
| "rmap_list f (x # xs) = rbind (f x) (\<lambda>y. rmap (\<lambda>ys. y # ys) (rmap_list f xs))"

lemma rbind_Inr_iff: "rbind r f = Inr b \<longleftrightarrow> (\<exists>a. r = Inr a \<and> f a = Inr b)"
  by (cases r) auto

lemma rbind_Inl_iff: "rbind r f = Inl e \<longleftrightarrow> r = Inl e \<or> (\<exists>a. r = Inr a \<and> f a = Inl e)"
  by (cases r) auto

lemma rmap_Inr_iff: "rmap f r = Inr b \<longleftrightarrow> (\<exists>a. r = Inr a \<and> b = f a)"
  by (cases r) auto

lemma rmap_Inl_iff [simp]: "rmap f r = Inl e \<longleftrightarrow> r = Inl e"
  by (cases r) auto

lemma rmap_list_length: "rmap_list f xs = Inr ys \<Longrightarrow> length ys = length xs"
  by (induction xs arbitrary: ys) (auto simp: rbind_Inr_iff rmap_Inr_iff)

lemma rmap_list_nth: "rmap_list f xs = Inr ys \<Longrightarrow> i < length xs \<Longrightarrow> f (xs ! i) = Inr (ys ! i)"
  by (induction xs arbitrary: ys i)
     (auto simp: rbind_Inr_iff rmap_Inr_iff nth_Cons split: nat.splits)

lemma length_filter_prefix:
  "(\<forall>i < length xs. P (xs ! i) \<longleftrightarrow> i < c) \<Longrightarrow> length (filter P xs) = min (length xs) c"
proof (induction xs arbitrary: c)
  case (Cons x xs)
  have head: "P x \<longleftrightarrow> 0 < c"
    using Cons.prems [rule_format, of 0] by simp
  show ?case
  proof (cases c)
    case 0
    then have "\<forall>y \<in> set (x # xs). \<not> P y"
      using Cons.prems by (metis in_set_conv_nth not_less_zero)
    with 0 show ?thesis by (simp add: filter_False)
  next
    case (Suc d)
    have "\<forall>i < length xs. P (xs ! i) \<longleftrightarrow> i < d"
      using Cons.prems Suc by (metis Suc_less_eq length_Cons nth_Cons_Suc)
    from Cons.IH [OF this] head Suc show ?thesis by simp
  qed
qed simp

subsection \<open>Insertion-ordered dictionaries\<close>

text \<open>
  A Python \<open>dict\<close> is an association list in insertion order: assignment to a present key
  keeps its place, to a new key appends. This is \<^const>\<open>AList.update\<close>; \<open>del\<close> is
  \<^const>\<open>AList.delete\<close>, \<open>get\<close> is \<^const>\<open>map_of\<close>.
\<close>

text \<open>
  A function without arguments under \<open>lru_cache(maxsize=1)\<close>: the first value it returns is kept and returned from
  then on; an exception is not kept.
\<close>

definition cached_call :: "'e + 'a \<Rightarrow> 'a option \<Rightarrow> 'a option \<times> ('e + 'a)" where
  "cached_call result cache =
     (case cache of
        Some a \<Rightarrow> (cache, Inr a)
      | None \<Rightarrow> (case result of Inl e \<Rightarrow> (None, Inl e) | Inr a \<Rightarrow> (Some a, Inr a)))"

lemma cached_call_kept: "cached_call r c = (c', Inr a) \<Longrightarrow> c' = Some a \<and> cached_call r' c' = (c', Inr a)"
  by (auto simp: cached_call_def split: option.splits sum.splits)

lemma cached_call_failed: "cached_call r c = (c', Inl e) \<Longrightarrow> c = None \<and> c' = None \<and> r = Inl e"
  by (auto simp: cached_call_def split: option.splits sum.splits)

type_synonym ('k, 'v) pydict = "('k \<times> 'v) list"

abbreviation dict_keys :: "('k, 'v) pydict \<Rightarrow> 'k list" where
  "dict_keys d \<equiv> map fst d"

definition wf_dict :: "('k, 'v) pydict \<Rightarrow> bool" where
  "wf_dict d \<longleftrightarrow> distinct (dict_keys d)"

lemma wf_dict_Nil [simp, intro]: "wf_dict []"
  by (simp add: wf_dict_def)

lemma wf_dict_update [simp, intro]: "wf_dict d \<Longrightarrow> wf_dict (AList.update k v d)"
  by (simp add: wf_dict_def distinct_update)

lemma wf_dict_delete [simp, intro]: "wf_dict d \<Longrightarrow> wf_dict (AList.delete k d)"
  by (simp add: wf_dict_def distinct_delete)

lemma lookup_update [dict_simps]:
  "map_of (AList.update k v d) k' = (if k' = k then Some v else map_of d k')"
  by (simp add: update_conv')

lemma lookup_delete [dict_simps]:
  "map_of (AList.delete k d) k' = (if k' = k then None else map_of d k')"
  by (simp add: delete_conv')

lemma length_update_new: "map_of d k = None \<Longrightarrow> length (AList.update k v d) = Suc (length d)"
  by (induction d) (auto split: if_splits)

lemma length_update_le: "length (AList.update k v d) \<le> Suc (length d)"
  by (induction d) auto

lemma update_new: "map_of d k = None \<Longrightarrow> AList.update k v d = d @ [(k, v)]"
  by (induction d) (auto split: if_splits)

lemma length_delete_present: "map_of d k \<noteq> None \<Longrightarrow> length (AList.delete k d) < length d"
proof (induction d)
  case (Cons a d)
  then show ?case
    using length_delete_le [of k d] by (cases a) (auto simp: less_Suc_eq_le)
qed simp

lemma map_of_in_keys: "map_of d k = Some v \<Longrightarrow> k \<in> set (dict_keys d)"
  by (metis map_of_eq_None_iff option.distinct(1) list.set_map)

subsection \<open>Text\<close>

text \<open>Truthiness of optional text: \<open>None\<close> and \<open>""\<close> are false.\<close>

definition truthy :: "string option \<Rightarrow> bool" where
  "truthy s = (case s of None \<Rightarrow> False | Some t \<Rightarrow> t \<noteq> '''')"

definition char_code :: "char \<Rightarrow> nat" where
  "char_code c = of_char c"

definition is_upper :: "char \<Rightarrow> bool" where
  "is_upper c \<longleftrightarrow> 65 \<le> char_code c \<and> char_code c \<le> 90"

definition is_lower :: "char \<Rightarrow> bool" where
  "is_lower c \<longleftrightarrow> 97 \<le> char_code c \<and> char_code c \<le> 122"

definition is_digit :: "char \<Rightarrow> bool" where
  "is_digit c \<longleftrightarrow> 48 \<le> char_code c \<and> char_code c \<le> 57"

definition is_space :: "char \<Rightarrow> bool" where
  "is_space c \<longleftrightarrow> (9 \<le> char_code c \<and> char_code c \<le> 13) \<or> (28 \<le> char_code c \<and> char_code c \<le> 32)"

definition lower_char :: "char \<Rightarrow> char" where
  "lower_char c = (if is_upper c then char_of (char_code c + 32) else c)"

definition py_lower :: "string \<Rightarrow> string" where
  "py_lower s = map lower_char s"

definition strip_where :: "(char \<Rightarrow> bool) \<Rightarrow> string \<Rightarrow> string" where
  "strip_where p s = rev (dropWhile p (rev (dropWhile p s)))"

definition rstrip_where :: "(char \<Rightarrow> bool) \<Rightarrow> string \<Rightarrow> string" where
  "rstrip_where p s = rev (dropWhile p (rev s))"

definition py_strip :: "string \<Rightarrow> string" where
  "py_strip s = strip_where is_space s"

definition starts_with :: "string \<Rightarrow> string \<Rightarrow> bool" where
  "starts_with s p \<longleftrightarrow> take (length p) s = p"

definition ends_with :: "string \<Rightarrow> string \<Rightarrow> bool" where
  "ends_with s p \<longleftrightarrow> starts_with (rev s) (rev p)"

text \<open>\<open>s.partition(c)\<close> for a one-character separator, without the separator itself.\<close>

definition py_partition :: "char \<Rightarrow> string \<Rightarrow> string \<times> string" where
  "py_partition c s = (takeWhile (\<lambda>x. x \<noteq> c) s, drop 1 (dropWhile (\<lambda>x. x \<noteq> c) s))"

text \<open>\<open>s.split(c)\<close>: always at least one piece.\<close>

fun py_split :: "char \<Rightarrow> string \<Rightarrow> string list" where
  "py_split c [] = [[]]"
| "py_split c (x # xs) =
     (if x = c then [] # py_split c xs
      else (case py_split c xs of [] \<Rightarrow> [[x]] | p # ps \<Rightarrow> (x # p) # ps))"

fun py_join :: "string \<Rightarrow> string list \<Rightarrow> string" where
  "py_join sep [] = []"
| "py_join sep [s] = s"
| "py_join sep (s # t # ts) = s @ sep @ py_join sep (t # ts)"

definition py_isdigit :: "string \<Rightarrow> bool" where
  "py_isdigit s \<longleftrightarrow> s \<noteq> [] \<and> list_all is_digit s"

definition nat_of_digits :: "string \<Rightarrow> nat" where
  "nat_of_digits s = foldl (\<lambda>n c. 10 * n + (char_code c - 48)) 0 s"

definition digit_char :: "nat \<Rightarrow> char" where
  "digit_char d = char_of (48 + d)"

fun show_nat :: "nat \<Rightarrow> string" where
  "show_nat n = (if n < 10 then [digit_char n] else show_nat (n div 10) @ [digit_char (n mod 10)])"

declare show_nat.simps [simp del]

definition show_int :: "int \<Rightarrow> string" where
  "show_int i = (if i < 0 then ''-'' @ show_nat (nat (- i)) else show_nat (nat i))"

declare char_code_def [text_defs] is_upper_def [text_defs] is_lower_def [text_defs]
  is_digit_def [text_defs] is_space_def [text_defs] lower_char_def [text_defs]
  py_lower_def [text_defs] strip_where_def [text_defs] rstrip_where_def [text_defs]
  py_strip_def [text_defs] starts_with_def [text_defs] ends_with_def [text_defs]
  py_partition_def [text_defs] py_isdigit_def [text_defs] nat_of_digits_def [text_defs]
  digit_char_def [text_defs] show_nat.simps [text_defs] show_int_def [text_defs]
  truthy_def [text_defs]

lemma starts_with_append [simp]: "starts_with (p @ s) p"
  by (simp add: starts_with_def)

lemma starts_with_iff: "starts_with s p \<longleftrightarrow> (\<exists>t. s = p @ t)"
  unfolding starts_with_def by (metis append_eq_conv_conj append_take_drop_id)

lemma ends_with_append [simp]: "ends_with (s @ p) p"
  by (simp add: ends_with_def)

lemma ends_with_iff: "ends_with s p \<longleftrightarrow> (\<exists>t. s = t @ p)"
  unfolding ends_with_def starts_with_iff by (metis rev_append rev_rev_ident)

lemma char_code_of [simp]: "n < 256 \<Longrightarrow> char_code (char_of n) = n"
  by (simp add: char_code_def)

lemma char_code_less [simp]: "char_code c < 256"
  by (simp add: char_code_def)

lemma is_digit_digit_char [simp]: "d < 10 \<Longrightarrow> is_digit (digit_char d)"
  by (simp add: is_digit_def digit_char_def)

lemma show_nat_digits: "py_isdigit (show_nat n)"
proof (induction n rule: show_nat.induct)
  case (1 n)
  then show ?case
    by (subst show_nat.simps) (auto simp: py_isdigit_def)
qed

lemma nat_of_digits_snoc: "nat_of_digits (s @ [c]) = 10 * nat_of_digits s + (char_code c - 48)"
  by (simp add: nat_of_digits_def)

lemma nat_of_digits_show_nat [simp]: "nat_of_digits (show_nat n) = n"
proof (induction n rule: show_nat.induct)
  case (1 n)
  show ?case
  proof (cases "n < 10")
    case True
    then show ?thesis
      by (subst show_nat.simps) (simp add: nat_of_digits_def digit_char_def)
  next
    case False
    with 1 show ?thesis
      by (subst show_nat.simps) (simp add: nat_of_digits_snoc digit_char_def)
  qed
qed

lemma show_nat_inject [simp]: "show_nat m = show_nat n \<longleftrightarrow> m = n"
  by (metis nat_of_digits_show_nat)

lemma dropWhile_none: "list_all (\<lambda>c. \<not> p c) s \<Longrightarrow> dropWhile p s = s"
  by (cases s) auto

lemma strip_where_none: "list_all (\<lambda>c. \<not> p c) s \<Longrightarrow> strip_where p s = s"
  by (simp add: strip_where_def dropWhile_none list_all_iff)

lemma strip_where_append:
  "list_all p s \<Longrightarrow> list_all p u \<Longrightarrow> list_all (\<lambda>c. \<not> p c) t \<Longrightarrow> strip_where p (s @ t @ u) = t"
proof -
  assume p: "list_all p s" "list_all p u" "list_all (\<lambda>c. \<not> p c) t"
  have drop: "dropWhile p (v @ w) = dropWhile p w" if "list_all p v" for v w
    using that by (simp add: list_all_iff dropWhile_append2)
  show ?thesis
  proof (cases t)
    case Nil
    from p(1,2) have "dropWhile p (s @ u) = []"
      by (simp add: list_all_iff)
    then show ?thesis
      by (simp only: strip_where_def Nil append_Nil rev.simps dropWhile.simps)
  next
    case (Cons a t')
    with p(3) have "dropWhile p (t @ u) = t @ u" by simp
    moreover have "dropWhile p (rev u @ rev t) = rev t"
      using p drop [of "rev u"] dropWhile_none [of p "rev t"] by (simp add: list_all_iff)
    ultimately show ?thesis
      using p(1) drop by (simp add: strip_where_def)
  qed
qed

lemma digits_not_space: "list_all is_digit s \<Longrightarrow> list_all (\<lambda>c. \<not> is_space c) s"
  by (auto simp: list_all_iff is_digit_def is_space_def)

lemma py_strip_digits: "py_isdigit s \<Longrightarrow> py_strip s = s"
  by (simp add: py_strip_def py_isdigit_def strip_where_none digits_not_space)

lemma py_partition_fst_no_sep: "c \<notin> set (fst (py_partition c s))"
  by (auto simp: py_partition_def dest: set_takeWhileD)

lemma py_partition_append: "c \<notin> set s \<Longrightarrow> py_partition c (s @ c # t) = (s, t)"
  by (simp add: py_partition_def takeWhile_append2 dropWhile_append2 takeWhile_append)

lemma split_at_sep: "c \<notin> set t \<Longrightarrow> c \<notin> set t' \<Longrightarrow> t @ c # k = t' @ c # k' \<longleftrightarrow> t = t' \<and> k = k'"
proof (induction t arbitrary: t')
  case Nil
  then show ?case by (cases t') auto
next
  case (Cons x t)
  then show ?case by (cases t') auto
qed

lemma py_split_nonempty [simp]: "py_split c s \<noteq> []"
  by (induction s) (auto split: list.splits)

lemma py_split_no_sep: "p \<in> set (py_split c s) \<Longrightarrow> c \<notin> set p"
proof (induction s arbitrary: p)
  case (Cons x xs)
  then show ?case
    by (cases "py_split c xs") (auto split: if_splits)
qed simp

lemma strip_where_ends:
  "strip_where p s \<noteq> [] \<Longrightarrow> \<not> p (hd (strip_where p s)) \<and> \<not> p (last (strip_where p s))"
proof -
  assume ne: "strip_where p s \<noteq> []"
  let ?t = "dropWhile p s"
  have "dropWhile p (rev ?t) \<noteq> []"
    using ne unfolding strip_where_def by (metis rev.simps(1))
  then have last: "\<not> p (last (strip_where p s))"
    unfolding strip_where_def by (metis hd_dropWhile last_rev)
  have "?t \<noteq> []"
    using ne unfolding strip_where_def by (metis dropWhile.simps(1) rev.simps(1))
  then have "\<not> p (hd ?t)"
    by (rule hd_dropWhile)
  moreover obtain u where "?t = strip_where p s @ u"
    by (metis rev_append rev_rev_ident strip_where_def takeWhile_dropWhile_id)
  then have "hd ?t = hd (strip_where p s)"
    using ne by simp
  ultimately show ?thesis
    using last by simp
qed

lemma strip_where_Nil: "strip_where p s = [] \<longleftrightarrow> (\<forall>c \<in> set s. p c)"
proof
  assume "strip_where p s = []"
  then have all: "\<forall>c \<in> set (dropWhile p s). p c" by (simp add: strip_where_def dropWhile_eq_Nil_conv)
  have "dropWhile p s = []"
  proof (rule ccontr)
    assume "dropWhile p s \<noteq> []"
    with all hd_dropWhile [OF this] show False by simp
  qed
  then show "\<forall>c \<in> set s. p c" by (simp add: dropWhile_eq_Nil_conv)
next
  assume "\<forall>c \<in> set s. p c"
  then have "dropWhile p s = []" by (subst dropWhile_eq_Nil_conv)
  then show "strip_where p s = []" by (simp only: strip_where_def rev.simps dropWhile.simps)
qed

lemma set_strip_where: "set (strip_where p s) \<subseteq> set s"
  unfolding strip_where_def by (metis (no_types, lifting) set_dropWhileD set_rev subsetI)

subsection \<open>Floats\<close>

text \<open>
  A Python float is a rational, an infinity or not-a-number. \<open>min\<close> and \<open>max\<close> of the
  language return their first argument unless the second one is strictly better, so a
  not-a-number in the second place is dropped.
\<close>

datatype pyfloat = Fin rat | Nan | PosInf | NegInf

fun fl_less :: "pyfloat \<Rightarrow> pyfloat \<Rightarrow> bool" where
  "fl_less Nan y = False"
| "fl_less x Nan = False"
| "fl_less (Fin a) (Fin b) = (a < b)"
| "fl_less (Fin a) PosInf = True"
| "fl_less (Fin a) NegInf = False"
| "fl_less PosInf y = False"
| "fl_less NegInf NegInf = False"
| "fl_less NegInf y = True"

definition py_min :: "pyfloat \<Rightarrow> pyfloat \<Rightarrow> pyfloat" where
  "py_min a b = (if fl_less b a then b else a)"

definition py_max :: "pyfloat \<Rightarrow> pyfloat \<Rightarrow> pyfloat" where
  "py_max a b = (if fl_less a b then b else a)"

subsection \<open>JSON values\<close>

datatype json =
    JNull
  | JBool bool
  | JInt int
  | JFloat pyfloat
  | JStr string
  | JList "json list"
  | JObj "(string \<times> json) list"

end
