(* ===== verification/Tenant_Store.thy ===== *)
theory Tenant_Store
  imports Prelude
begin

text \<open>
  The tenant store (\<open>app/tenancy/store.py\<close>): the two SQLite tables as lists in row order,
  the CRUD operations and authentication by key. Argon2 and the token generator are
  parameters: \<open>hv h k\<close> is the outcome of \<open>PasswordHasher.verify(h, k)\<close>, \<open>hs k\<close> the hash that
  \<open>PasswordHasher.hash(k)\<close> returned, \<open>token\<close> the result of \<open>secrets.token_urlsafe(32)\<close>.
  A time is a number of microseconds; the JSON columns hold the values they encode.
\<close>

subsection \<open>Tables and records\<close>

type_synonym time = int

record 'h tenant_row =
  tr_id :: string
  tr_api_key_hash :: 'h
  tr_display_name :: string
  tr_allowed_models :: "string list"
  tr_rate_limits :: "(string, string) pydict"
  tr_created_at :: time
  tr_updated_at :: time
  tr_deleted_at :: "time option"

record 'h grace_row =
  gr_tenant_id :: string
  gr_old_api_key_hash :: 'h
  gr_expires_at :: time

record 'h tenant_store =
  st_tenants :: "'h tenant_row list"
  st_grace :: "'h grace_row list"
  st_grace_period :: time

record TenantRecord =
  t_id :: string
  t_display_name :: string
  t_allowed_models :: "string list"
  t_rate_limits :: "(string, string) pydict"
  t_created_at :: time
  t_updated_at :: time
  t_deleted_at :: "time option"

datatype store_exn = TenantExists string | TenantNotFound string

text \<open>\<open>PasswordHasher.verify\<close>: success, \<open>VerifyMismatchError\<close>, or another exception.\<close>

datatype verify_outcome = Verified | Mismatch | VerifyRaises exn

definition default_grace :: time where
  "default_grace = 24 * 3600 * 1000000"

definition empty_store :: "time \<Rightarrow> 'h tenant_store" where
  "empty_store grace_period = \<lparr>st_tenants = [], st_grace = [], st_grace_period = grace_period\<rparr>"

definition generate_api_key :: "string \<Rightarrow> string" where
  "generate_api_key token = ''tnk_live_'' @ token"

definition verify_key :: "('h \<Rightarrow> string \<Rightarrow> verify_outcome) \<Rightarrow> 'h \<Rightarrow> string \<Rightarrow> exn + bool" where
  "verify_key hv stored_hash raw_key =
     (case hv stored_hash raw_key of
        Verified \<Rightarrow> Inr True | Mismatch \<Rightarrow> Inr False | VerifyRaises e \<Rightarrow> Inl e)"

definition row_to_record :: "'h tenant_row \<Rightarrow> TenantRecord" where
  "row_to_record row =
     \<lparr>t_id = tr_id row, t_display_name = tr_display_name row,
      t_allowed_models = tr_allowed_models row, t_rate_limits = tr_rate_limits row,
      t_created_at = tr_created_at row, t_updated_at = tr_updated_at row,
      t_deleted_at = tr_deleted_at row\<rparr>"

abbreviation active_row :: "'h tenant_row \<Rightarrow> bool" where
  "active_row row \<equiv> tr_deleted_at row = None"

subsection \<open>Reads\<close>

definition store_get :: "'h tenant_store \<Rightarrow> string \<Rightarrow> TenantRecord option" where
  "store_get st tenant_id =
     map_option row_to_record (find (\<lambda>r. tr_id r = tenant_id) (st_tenants st))"

definition store_list :: "'h tenant_store \<Rightarrow> bool \<Rightarrow> TenantRecord list" where
  "store_list st include_deleted =
     map row_to_record
       (sort_key tr_created_at
         (if include_deleted then st_tenants st else filter active_row (st_tenants st)))"

text \<open>The first loop of \<open>authenticate\<close>, over the active rows.\<close>

fun auth_active ::
  "('h \<Rightarrow> string \<Rightarrow> verify_outcome) \<Rightarrow> string \<Rightarrow> 'h tenant_row list \<Rightarrow> exn + TenantRecord option"
where
  "auth_active hv key [] = Inr None"
| "auth_active hv key (row # rows) =
     rbind (verify_key hv (tr_api_key_hash row) key)
       (\<lambda>ok. if ok then Inr (Some (row_to_record row)) else auth_active hv key rows)"

text \<open>The second loop, over the grace rows; a match ends the loop whatever \<open>get\<close> returns.\<close>

fun auth_grace ::
  "('h \<Rightarrow> string \<Rightarrow> verify_outcome) \<Rightarrow> time \<Rightarrow> 'h tenant_store \<Rightarrow> string \<Rightarrow> 'h grace_row list
    \<Rightarrow> exn + TenantRecord option"
where
  "auth_grace hv now st key [] = Inr None"
| "auth_grace hv now st key (row # rows) =
     (if gr_expires_at row < now then auth_grace hv now st key rows
      else rbind (verify_key hv (gr_old_api_key_hash row) key)
        (\<lambda>ok. if ok then Inr (store_get st (gr_tenant_id row))
              else auth_grace hv now st key rows))"

definition store_authenticate ::
  "('h \<Rightarrow> string \<Rightarrow> verify_outcome) \<Rightarrow> time \<Rightarrow> 'h tenant_store \<Rightarrow> string \<Rightarrow> exn + TenantRecord option"
where
  "store_authenticate hv now st key =
     rbind (auth_active hv key (filter active_row (st_tenants st)))
       (\<lambda>found. case found of
          Some r \<Rightarrow> Inr (Some r)
        | None \<Rightarrow> auth_grace hv now st key (st_grace st))"

subsection \<open>Writes\<close>

definition store_create ::
  "(string \<Rightarrow> 'h) \<Rightarrow> string \<Rightarrow> time \<Rightarrow> 'h tenant_store \<Rightarrow> string \<Rightarrow> string \<Rightarrow> string list
    \<Rightarrow> (string, string) pydict option
    \<Rightarrow> 'h tenant_store \<times> (store_exn + TenantRecord \<times> string)"
where
  "store_create hs token now st tid display_name allowed_models rate_limits =
     (if store_get st tid \<noteq> None
      then (st, Inl (TenantExists (''tenant already exists: '' @ tid)))
      else let raw_key = generate_api_key token;
               row = \<lparr>tr_id = tid, tr_api_key_hash = hs raw_key, tr_display_name = display_name,
                      tr_allowed_models = allowed_models,
                      tr_rate_limits = (case rate_limits of None \<Rightarrow> [] | Some l \<Rightarrow> l),
                      tr_created_at = now, tr_updated_at = now, tr_deleted_at = None\<rparr>;
               st' = st\<lparr>st_tenants := st_tenants st @ [row]\<rparr>
           in (st', Inr (the (store_get st' tid), raw_key)))"

text \<open>\<open>INSERT OR REPLACE\<close> on the primary key \<open>(tenant_id, old_api_key_hash)\<close>.\<close>

definition grace_replace :: "'h grace_row \<Rightarrow> 'h grace_row list \<Rightarrow> 'h grace_row list" where
  "grace_replace g gs =
     filter (\<lambda>r. \<not> (gr_tenant_id r = gr_tenant_id g \<and>
                    gr_old_api_key_hash r = gr_old_api_key_hash g)) gs @ [g]"

text \<open>\<open>now\<close> is read for the expiry, \<open>now'\<close> for \<open>updated_at\<close>.\<close>

definition store_rotate_key ::
  "(string \<Rightarrow> 'h) \<Rightarrow> string \<Rightarrow> time \<Rightarrow> time \<Rightarrow> 'h tenant_store \<Rightarrow> string
    \<Rightarrow> 'h tenant_store \<times> (store_exn + string)"
where
  "store_rotate_key hs token now now' st tid =
     (case find (\<lambda>r. tr_id r = tid \<and> active_row r) (st_tenants st) of
        None \<Rightarrow> (st, Inl (TenantNotFound (''tenant not found: '' @ tid)))
      | Some row \<Rightarrow>
          let new_key = generate_api_key token;
              g = \<lparr>gr_tenant_id = tid, gr_old_api_key_hash = tr_api_key_hash row,
                   gr_expires_at = now + st_grace_period st\<rparr>;
              upd = (\<lambda>r. if tr_id r = tid
                then r\<lparr>tr_api_key_hash := hs new_key, tr_updated_at := now'\<rparr> else r)
          in (st\<lparr>st_grace := grace_replace g (st_grace st),
                 st_tenants := map upd (st_tenants st)\<rparr>, Inr new_key))"

definition store_soft_delete ::
  "time \<Rightarrow> time \<Rightarrow> 'h tenant_store \<Rightarrow> string \<Rightarrow> 'h tenant_store \<times> (store_exn + unit)"
where
  "store_soft_delete now now' st tid =
     (let hit = (\<lambda>r. tr_id r = tid \<and> active_row r);
          upd = (\<lambda>r. if hit r then r\<lparr>tr_deleted_at := Some now, tr_updated_at := now'\<rparr> else r)
      in if length (filter hit (st_tenants st)) = 0
         then (st, Inl (TenantNotFound (''tenant not found or already deleted: '' @ tid)))
         else (st\<lparr>st_tenants := map upd (st_tenants st)\<rparr>, Inr ()))"

subsection \<open>Reachable stores\<close>

text \<open>Any interleaving of the three writes, each one atomic under the store's lock.\<close>

inductive store_step :: "'h tenant_store \<Rightarrow> 'h tenant_store \<Rightarrow> bool" where
  step_create: "store_step st (fst (store_create hs token now st tid dn models limits))"
| step_rotate: "store_step st (fst (store_rotate_key hs token now now' st tid))"
| step_delete: "store_step st (fst (store_soft_delete now now' st tid))"

inductive store_reachable :: "time \<Rightarrow> 'h tenant_store \<Rightarrow> bool" for period where
  reach_empty: "store_reachable period (empty_store period)"
| reach_step: "store_reachable period st \<Longrightarrow> store_step st st' \<Longrightarrow> store_reachable period st'"

inductive_cases store_stepE: "store_step st st'"

text \<open>
  The primary keys are unique and every rotated key belongs to a tenant that is still in
  the table.
\<close>

definition tenant_ids :: "'h tenant_store \<Rightarrow> string list" where
  "tenant_ids st = map tr_id (st_tenants st)"

definition store_inv :: "'h tenant_store \<Rightarrow> bool" where
  "store_inv st \<longleftrightarrow>
     distinct (tenant_ids st) \<and>
     distinct (map (\<lambda>g. (gr_tenant_id g, gr_old_api_key_hash g)) (st_grace st)) \<and>
     gr_tenant_id ` set (st_grace st) \<subseteq> set (tenant_ids st)"

lemma store_get_None_iff: "store_get st tid = None \<longleftrightarrow> tid \<notin> set (tenant_ids st)"
  by (auto simp: store_get_def tenant_ids_def find_None_iff)

lemma store_get_Some_iff:
  assumes "store_inv st"
  shows "store_get st tid = Some r \<longleftrightarrow>
    (\<exists>row \<in> set (st_tenants st). tr_id row = tid \<and> r = row_to_record row)"
proof -
  have "find (\<lambda>r. tr_id r = tid) rows = Some row \<longleftrightarrow> row \<in> set rows \<and> tr_id row = tid"
    if "distinct (map tr_id rows)" for rows :: "'a tenant_row list" and row
    using that by (induction rows) force+
  with assms show ?thesis
    by (auto simp: store_get_def store_inv_def tenant_ids_def)
qed

lemma store_create_fst:
  "fst (store_create hs token now st tid dn models limits) =
     (if store_get st tid \<noteq> None then st
      else st\<lparr>st_tenants := st_tenants st @
        [\<lparr>tr_id = tid, tr_api_key_hash = hs (generate_api_key token), tr_display_name = dn,
          tr_allowed_models = models,
          tr_rate_limits = (case limits of None \<Rightarrow> [] | Some l \<Rightarrow> l),
          tr_created_at = now, tr_updated_at = now, tr_deleted_at = None\<rparr>]\<rparr>)"
  by (simp add: store_create_def Let_def)

lemma tenant_ids_create:
  "tenant_ids (fst (store_create hs token now st tid dn models limits)) =
     (if tid \<in> set (tenant_ids st) then tenant_ids st else tenant_ids st @ [tid])"
  using store_get_None_iff [of st tid] by (auto simp: store_create_fst tenant_ids_def)

lemma tenant_ids_rotate:
  "tenant_ids (fst (store_rotate_key hs token now now' st tid)) = tenant_ids st"
  by (auto simp: tenant_ids_def store_rotate_key_def Let_def split: option.split)

lemma tenant_ids_delete:
  "tenant_ids (fst (store_soft_delete now now' st tid)) = tenant_ids st"
  by (auto simp: tenant_ids_def store_soft_delete_def Let_def)

lemma st_grace_ops:
  "st_grace (fst (store_create hs token now st tid dn models limits)) = st_grace st"
  "st_grace (fst (store_soft_delete now now' st tid)) = st_grace st"
  by (simp_all add: store_create_fst store_soft_delete_def Let_def)

lemma store_create_inv [inv_intros]:
  "store_inv st \<Longrightarrow> store_inv (fst (store_create hs token now st tid dn models limits))"
  by (auto simp: store_inv_def tenant_ids_create st_grace_ops)

lemma grace_replace_distinct:
  "distinct (map (\<lambda>g. (gr_tenant_id g, gr_old_api_key_hash g)) gs) \<Longrightarrow>
   distinct (map (\<lambda>g. (gr_tenant_id g, gr_old_api_key_hash g)) (grace_replace g gs))"
  by (auto simp: grace_replace_def distinct_map inj_on_def)

lemma set_grace_replace:
  "set (grace_replace g gs) =
     insert g {r \<in> set gs. \<not> (gr_tenant_id r = gr_tenant_id g \<and>
                              gr_old_api_key_hash r = gr_old_api_key_hash g)}"
  by (auto simp: grace_replace_def)

lemma find_SomeD: "find P xs = Some x \<Longrightarrow> P x \<and> x \<in> set xs"
  by (auto simp: find_Some_iff)

lemma store_rotate_inv [inv_intros]:
  assumes "store_inv st"
  shows "store_inv (fst (store_rotate_key hs token now now' st tid))"
proof (cases "find (\<lambda>r. tr_id r = tid \<and> active_row r) (st_tenants st)")
  case None
  with assms show ?thesis by (simp add: store_rotate_key_def)
next
  case (Some row)
  then have tid: "tid \<in> set (tenant_ids st)"
    by (auto simp: tenant_ids_def dest: find_SomeD)
  have grace: "st_grace (fst (store_rotate_key hs token now now' st tid)) =
      grace_replace \<lparr>gr_tenant_id = tid, gr_old_api_key_hash = tr_api_key_hash row,
        gr_expires_at = now + st_grace_period st\<rparr> (st_grace st)"
    using Some by (simp add: store_rotate_key_def Let_def)
  show ?thesis
    using assms tid unfolding store_inv_def grace tenant_ids_rotate set_grace_replace
    by (auto intro: grace_replace_distinct)
qed

lemma store_delete_inv [inv_intros]:
  "store_inv st \<Longrightarrow> store_inv (fst (store_soft_delete now now' st tid))"
  by (simp add: store_inv_def tenant_ids_delete st_grace_ops)

lemma store_step_inv: "store_step st st' \<Longrightarrow> store_inv st \<Longrightarrow> store_inv st'"
  by (erule store_stepE) (auto intro: inv_intros)

lemma empty_store_inv: "store_inv (empty_store period)"
  by (simp add: store_inv_def empty_store_def tenant_ids_def)

lemma reachable_store_inv: "store_reachable period st \<Longrightarrow> store_inv st"
  by (induction rule: store_reachable.induct)
     (auto intro: store_step_inv simp: empty_store_inv)

subsection \<open>Who may authenticate\<close>

text \<open>
  The specification of \<open>authenticate\<close>: the tenants that hold a key at a time, through the
  current key of an active row or through a rotated key that has not expired.
\<close>

definition current_holder :: "('h \<Rightarrow> string \<Rightarrow> verify_outcome) \<Rightarrow> 'h tenant_store \<Rightarrow> string \<Rightarrow> string \<Rightarrow> bool"
where
  "current_holder hv st key tid \<longleftrightarrow>
     (\<exists>row \<in> set (st_tenants st). tr_id row = tid \<and> active_row row \<and>
        hv (tr_api_key_hash row) key = Verified)"

definition grace_holder ::
  "('h \<Rightarrow> string \<Rightarrow> verify_outcome) \<Rightarrow> time \<Rightarrow> 'h tenant_store \<Rightarrow> string \<Rightarrow> string \<Rightarrow> bool"
where
  "grace_holder hv now st key tid \<longleftrightarrow>
     (\<exists>g \<in> set (st_grace st). gr_tenant_id g = tid \<and> now \<le> gr_expires_at g \<and>
        hv (gr_old_api_key_hash g) key = Verified)"

text \<open>Verification never raises anything but a mismatch.\<close>

definition hv_total :: "('h \<Rightarrow> string \<Rightarrow> verify_outcome) \<Rightarrow> bool" where
  "hv_total hv \<longleftrightarrow> (\<forall>h k. hv h k = Verified \<or> hv h k = Mismatch)"

lemma verify_key_total: "hv_total hv \<Longrightarrow> verify_key hv h k = Inr (hv h k = Verified)"
  unfolding hv_total_def verify_key_def
  by (cases "hv h k") (simp_all, metis verify_outcome.distinct(3,5))

lemma verify_key_True: "verify_key hv h k = Inr True \<longleftrightarrow> hv h k = Verified"
  by (auto simp: verify_key_def split: verify_outcome.split)

lemma auth_active_eq:
  "hv_total hv \<Longrightarrow> auth_active hv key rows =
     Inr (map_option row_to_record (find (\<lambda>r. hv (tr_api_key_hash r) key = Verified) rows))"
  by (induction rows) (auto simp: verify_key_total)

lemma auth_grace_eq:
  "hv_total hv \<Longrightarrow> auth_grace hv now st key gs =
     Inr (Option.bind (find (\<lambda>g. now \<le> gr_expires_at g \<and>
        hv (gr_old_api_key_hash g) key = Verified) gs) (\<lambda>g. store_get st (gr_tenant_id g)))"
  by (induction gs) (auto simp: verify_key_total)

lemma store_authenticate_eq:
  "hv_total hv \<Longrightarrow> store_authenticate hv now st key =
     Inr (case find (\<lambda>r. hv (tr_api_key_hash r) key = Verified) (filter active_row (st_tenants st)) of
        Some row \<Rightarrow> Some (row_to_record row)
      | None \<Rightarrow> Option.bind (find (\<lambda>g. now \<le> gr_expires_at g \<and>
          hv (gr_old_api_key_hash g) key = Verified) (st_grace st))
          (\<lambda>g. store_get st (gr_tenant_id g)))"
  by (auto simp: store_authenticate_def auth_active_eq auth_grace_eq split: option.split)

lemma auth_active_Some:
  "auth_active hv key rows = Inr (Some r) \<Longrightarrow>
     \<exists>row \<in> set rows. r = row_to_record row \<and> hv (tr_api_key_hash row) key = Verified"
  by (induction rows) (auto simp: rbind_Inr_iff verify_key_True split: if_splits)

lemma auth_grace_Some:
  "auth_grace hv now st key gs = Inr (Some r) \<Longrightarrow>
     \<exists>g \<in> set gs. now \<le> gr_expires_at g \<and> hv (gr_old_api_key_hash g) key = Verified \<and>
       store_get st (gr_tenant_id g) = Some r"
  by (induction gs) (auto simp: rbind_Inr_iff verify_key_True split: if_splits)

lemma row_to_record_id [simp]: "t_id (row_to_record row) = tr_id row"
  by (simp add: row_to_record_def)

lemma row_to_record_deleted [simp]: "t_deleted_at (row_to_record row) = tr_deleted_at row"
  by (simp add: row_to_record_def)

lemma authenticate_soundD:
  assumes "store_authenticate hv now st key = Inr (Some r)" and "store_inv st"
  shows "current_holder hv st key (t_id r) \<and> t_deleted_at r = None \<or>
         grace_holder hv now st key (t_id r)"
proof -
  from assms(1) consider
      "auth_active hv key (filter active_row (st_tenants st)) = Inr (Some r)"
    | "auth_grace hv now st key (st_grace st) = Inr (Some r)"
    by (auto simp: store_authenticate_def rbind_Inr_iff split: option.splits)
  then show ?thesis
  proof cases
    case 1
    then show ?thesis
      by (auto simp: current_holder_def dest!: auth_active_Some)
  next
    case 2
    from auth_grace_Some [OF this] obtain g where g: "g \<in> set (st_grace st)"
        "now \<le> gr_expires_at g" "hv (gr_old_api_key_hash g) key = Verified"
        "store_get st (gr_tenant_id g) = Some r"
      by blast
    then have "t_id r = gr_tenant_id g"
      by (auto simp: store_get_Some_iff [OF assms(2)])
    with g show ?thesis
      by (auto simp: grace_holder_def)
  qed
qed

lemma find_None_all: "find P xs = None \<longleftrightarrow> (\<forall>x \<in> set xs. \<not> P x)"
  by (auto simp: find_None_iff)

text \<open>After a rotation: the rows and the new grace row.\<close>

lemma find_eq_Some_unique:
  assumes "x \<in> set xs" "P x" "\<forall>y \<in> set xs. P y \<longrightarrow> y = x"
  shows "find P xs = Some x"
proof -
  from assms(1,2) have "find P xs \<noteq> None"
    unfolding find_None_all by blast
  then obtain y where "find P xs = Some y" by blast
  with assms(3) show ?thesis by (metis find_SomeD)
qed

lemma find_filter_eq_Some_unique:
  assumes "x \<in> set xs" "Q x" "P x" "\<forall>y \<in> set xs. P y \<longrightarrow> y = x"
  shows "find P (filter Q xs) = Some x"
proof (rule find_eq_Some_unique)
  show "\<forall>y \<in> set (filter Q xs). P y \<longrightarrow> y = x"
    using assms(4) by (metis filter_is_subset subsetD)
qed (simp_all add: assms(1-3))

lemma tenant_row_unique:
  "store_inv st \<Longrightarrow> r \<in> set (st_tenants st) \<Longrightarrow> r' \<in> set (st_tenants st) \<Longrightarrow>
   tr_id r = tr_id r' \<Longrightarrow> r = r'"
  by (auto simp: store_inv_def tenant_ids_def distinct_map inj_on_def)

lemma find_active_row:
  assumes "store_inv st" "row \<in> set (st_tenants st)" "tr_id row = tid" "active_row row"
  shows "find (\<lambda>r. tr_id r = tid \<and> active_row r) (st_tenants st) = Some row"
proof (rule find_eq_Some_unique)
  show "\<forall>y \<in> set (st_tenants st). tr_id y = tid \<and> active_row y \<longrightarrow> y = row"
    using assms(2,3) tenant_row_unique [OF assms(1)] by metis
qed (use assms in auto)

lemma rotate_result:
  assumes "store_inv st" "row \<in> set (st_tenants st)" "tr_id row = tid" "active_row row"
  shows "store_rotate_key hs token now now' st tid =
    (st\<lparr>st_grace := grace_replace \<lparr>gr_tenant_id = tid, gr_old_api_key_hash = tr_api_key_hash row,
          gr_expires_at = now + st_grace_period st\<rparr> (st_grace st),
        st_tenants := map (\<lambda>r. if tr_id r = tid
          then r\<lparr>tr_api_key_hash := hs (generate_api_key token), tr_updated_at := now'\<rparr> else r)
          (st_tenants st)\<rparr>, Inr (generate_api_key token))"
  using find_active_row [OF assms] by (simp add: store_rotate_key_def Let_def)

text \<open>
  No key of the store but tenant \<open>tid\<close>'s own current one verifies \<open>key\<close>: no other row and
  no rotated key.
\<close>

definition only_current_of ::
  "('h \<Rightarrow> string \<Rightarrow> verify_outcome) \<Rightarrow> 'h tenant_store \<Rightarrow> string \<Rightarrow> string \<Rightarrow> bool"
where
  "only_current_of hv st tid key \<longleftrightarrow>
     (\<forall>r \<in> set (st_tenants st). tr_id r \<noteq> tid \<longrightarrow> hv (tr_api_key_hash r) key \<noteq> Verified) \<and>
     (\<forall>g \<in> set (st_grace st). hv (gr_old_api_key_hash g) key \<noteq> Verified)"

lemma authenticate_current:
  assumes "hv_total hv" "store_inv st" "only_current_of hv st tid key"
    and "row \<in> set (st_tenants st)" "tr_id row = tid" "active_row row"
    and "hv (tr_api_key_hash row) key = Verified"
  shows "store_authenticate hv now st key = Inr (Some (row_to_record row))"
proof -
  have "\<forall>r \<in> set (st_tenants st). hv (tr_api_key_hash r) key = Verified \<longrightarrow> r = row"
    using assms(3-5) tenant_row_unique [OF assms(2)] unfolding only_current_of_def by metis
  with assms(4,6,7) have "find (\<lambda>r. hv (tr_api_key_hash r) key = Verified)
      (filter active_row (st_tenants st)) = Some row"
    by (intro find_filter_eq_Some_unique)
  then show ?thesis
    by (simp add: store_authenticate_eq [OF assms(1)])
qed

lemma authenticate_grace_only:
  assumes "hv_total hv" "g \<in> set (st_grace st)"
    and "\<And>r. r \<in> set (st_tenants st) \<Longrightarrow> active_row r \<Longrightarrow> hv (tr_api_key_hash r) key \<noteq> Verified"
    and "hv (gr_old_api_key_hash g) key = Verified"
    and "\<forall>g' \<in> set (st_grace st). hv (gr_old_api_key_hash g') key = Verified \<longrightarrow> g' = g"
  shows "store_authenticate hv now st key =
    Inr (if now \<le> gr_expires_at g then store_get st (gr_tenant_id g) else None)"
proof -
  have "find (\<lambda>r. hv (tr_api_key_hash r) key = Verified) (filter active_row (st_tenants st)) = None"
    using assms(3) by (auto simp: find_None_all)
  moreover have "find (\<lambda>g. now \<le> gr_expires_at g \<and> hv (gr_old_api_key_hash g) key = Verified)
      (st_grace st) = (if now \<le> gr_expires_at g then Some g else None)"
  proof (cases "now \<le> gr_expires_at g")
    case True
    then have "find (\<lambda>g. now \<le> gr_expires_at g \<and> hv (gr_old_api_key_hash g) key = Verified)
        (st_grace st) = Some g"
      by (intro find_eq_Some_unique) (use assms(2,4,5) in blast)+
    with True show ?thesis by simp
  next
    case False
    then show ?thesis
      unfolding find_None_all using assms(5) by (simp add: find_None_all) metis
  qed
  ultimately show ?thesis
    by (simp add: store_authenticate_eq [OF assms(1)])
qed

subsection \<open>Properties\<close>

text \<open>
  In every store that a sequence of creations, rotations and archivals reaches, tenant
  ids are unique (archived ones included), rotated keys are unique per tenant, each rotated
  key belongs to a tenant whose row is still present, and \<open>get\<close> returns exactly the row with
  that id.
\<close>

theorem reachable_store_wellformed:
  assumes "store_reachable period st"
  shows "distinct (map tr_id (st_tenants st)) \<and>
    distinct (map (\<lambda>g. (gr_tenant_id g, gr_old_api_key_hash g)) (st_grace st)) \<and>
    (\<forall>g \<in> set (st_grace st). store_get st (gr_tenant_id g) \<noteq> None) \<and>
    (\<forall>row \<in> set (st_tenants st). store_get st (tr_id row) = Some (row_to_record row))"
proof -
  have inv: "store_inv st"
    by (rule reachable_store_inv [OF assms])
  then have "store_get st (tr_id row) = Some (row_to_record row)"
    if "row \<in> set (st_tenants st)" for row
    using that store_get_Some_iff by blast
  moreover have "store_get st (gr_tenant_id g) \<noteq> None" if "g \<in> set (st_grace st)" for g
    using inv that by (auto simp: store_get_None_iff store_inv_def simp del: not_None_eq)
  ultimately show ?thesis
    using inv by (simp add: store_inv_def tenant_ids_def)
qed


text \<open>
  Creating a tenant under a new id stores exactly one row, returns the record of that row
  and a key that then authenticates as that record, while a taken id, archived or not, is
  refused and leaves the store as it was.
\<close>

theorem create_then_authenticate:
  assumes "hv_total hv" and "store_inv st"
    and "hv (hs (generate_api_key token)) (generate_api_key token) = Verified"
    and "only_current_of hv st tid (generate_api_key token)"
  shows "(if tid \<in> tr_id ` set (st_tenants st)
     then store_create hs token now st tid dn models limits =
       (st, Inl (TenantExists (''tenant already exists: '' @ tid)))
     else (\<exists>r. snd (store_create hs token now st tid dn models limits) = Inr (r, generate_api_key token) \<and>
       t_id r = tid \<and> t_display_name r = dn \<and> t_allowed_models r = models \<and>
       t_created_at r = now \<and> t_deleted_at r = None \<and>
       (\<forall>t. store_authenticate hv t (fst (store_create hs token now st tid dn models limits))
          (generate_api_key token) = Inr (Some r))))"
proof (cases "tid \<in> tr_id ` set (st_tenants st)")
  case True
  then have "store_get st tid \<noteq> None"
    by (auto simp: store_get_None_iff tenant_ids_def simp del: not_None_eq)
  with True show ?thesis by (simp add: store_create_def)
next
  case False
  then have fresh: "store_get st tid = None"
    by (auto simp: store_get_None_iff tenant_ids_def)
  let ?key = "generate_api_key token"
  let ?row = "\<lparr>tr_id = tid, tr_api_key_hash = hs ?key, tr_display_name = dn,
     tr_allowed_models = models, tr_rate_limits = (case limits of None \<Rightarrow> [] | Some l \<Rightarrow> l),
     tr_created_at = now, tr_updated_at = now, tr_deleted_at = None\<rparr>"
  let ?st' = "fst (store_create hs token now st tid dn models limits)"
  have st': "?st' = st\<lparr>st_tenants := st_tenants st @ [?row]\<rparr>"
    using fresh by (simp add: store_create_fst)
  have inv': "store_inv ?st'"
    using assms(2) by (rule store_create_inv)
  have get': "store_get ?st' tid = Some (row_to_record ?row)"
    using store_get_Some_iff [OF inv'] unfolding st' by auto
  then have res: "snd (store_create hs token now st tid dn models limits) =
      Inr (row_to_record ?row, ?key)"
    using fresh st' by (simp add: store_create_def Let_def)
  have only: "only_current_of hv ?st' tid ?key"
    using assms(4) unfolding st' by (auto simp: only_current_of_def)
  have "store_authenticate hv t ?st' ?key = Inr (Some (row_to_record ?row))" for t
    by (rule authenticate_current [OF assms(1) inv' only]) (simp_all add: st' assms(3))
  with False res show ?thesis
    by (simp add: row_to_record_def)
qed

text \<open>
  Rotating the key of an active tenant: the new key authenticates as the tenant at any
  time, and the old key authenticates as the tenant up to and including the expiry, the
  grace period after the rotation, and not at all after it.
\<close>

theorem rotate_then_authenticate:
  fixes st :: "'h tenant_store"
  assumes "hv_total hv" and "store_inv st"
    and row: "row \<in> set (st_tenants st)" "tr_id row = tid" "active_row row"
    and old: "hv (tr_api_key_hash row) old = Verified" "only_current_of hv st tid old"
    and new: "hv (hs (generate_api_key token)) (generate_api_key token) = Verified"
      "hv (hs (generate_api_key token)) old \<noteq> Verified"
      "only_current_of hv st tid (generate_api_key token)"
      "hv (tr_api_key_hash row) (generate_api_key token) \<noteq> Verified"
  shows "(let (st', res) = store_rotate_key hs token now now' st tid in
     res = Inr (generate_api_key token) \<and>
     (\<exists>r. t_id r = tid \<and>
        (\<forall>t. store_authenticate hv t st' (generate_api_key token) = Inr (Some r)) \<and>
        (\<forall>t. store_authenticate hv t st' old =
           Inr (if t \<le> now + st_grace_period st then Some r else None))))"
proof -
  let ?key = "generate_api_key token"
  let ?upd = "\<lambda>r. if tr_id r = tid then r\<lparr>tr_api_key_hash := hs ?key, tr_updated_at := now'\<rparr> else r"
  let ?g = "\<lparr>gr_tenant_id = tid, gr_old_api_key_hash = tr_api_key_hash row,
     gr_expires_at = now + st_grace_period st\<rparr>"
  define st' where "st' = fst (store_rotate_key hs token now now' st tid)"
  note rr = rotate_result [OF assms(2) row, of hs token now now']
  have inv': "store_inv st'"
    unfolding st'_def using assms(2) by (rule store_rotate_inv)
  have rows': "st_tenants st' = map ?upd (st_tenants st)"
    and grace': "st_grace st' = grace_replace ?g (st_grace st)"
    by (simp_all add: st'_def rr)
  have row': "?upd row \<in> set (st_tenants st')"
    unfolding rows' using row(1) by simp
  have only_new: "only_current_of hv st' tid ?key"
    using new(3,4) unfolding only_current_of_def rows' grace' set_grace_replace by auto
  have auth_new: "store_authenticate hv t st' ?key = Inr (Some (row_to_record (?upd row)))" for t
    by (rule authenticate_current [OF assms(1) inv' only_new row']) (use row new in simp_all)
  have "tr_id (?upd row) = tid"
    using row(2) by simp
  with row' have get': "store_get st' tid = Some (row_to_record (?upd row))"
    using store_get_Some_iff [OF inv'] by blast
  have no_row: "hv (tr_api_key_hash r) old \<noteq> Verified" if "r \<in> set (st_tenants st')" for r
    using that old(2) new(2) by (auto simp: rows' only_current_of_def split: if_splits)
  have g: "?g \<in> set (st_grace st')"
    unfolding grace' set_grace_replace by simp
  have only_g: "\<forall>g' \<in> set (st_grace st'). hv (gr_old_api_key_hash g') old = Verified \<longrightarrow> g' = ?g"
    using old(2) unfolding grace' set_grace_replace only_current_of_def by blast
  have auth_old: "store_authenticate hv t st' old =
      Inr (if t \<le> now + st_grace_period st then Some (row_to_record (?upd row)) else None)" for t
    using authenticate_grace_only [OF assms(1) g no_row _ only_g, of t] old(1) get' by simp
  show ?thesis
    using auth_new auth_old row(2) unfolding st'_def Let_def
    by (auto simp: rr intro!: exI [of _ "row_to_record (?upd row)"])
qed

lemma soft_delete_result:
  assumes "row \<in> set (st_tenants st)" "tr_id row = tid" "active_row row"
  shows "store_soft_delete now now' st tid =
    (st\<lparr>st_tenants := map (\<lambda>r. if tr_id r = tid \<and> active_row r
        then r\<lparr>tr_deleted_at := Some now, tr_updated_at := now'\<rparr> else r) (st_tenants st)\<rparr>, Inr ())"
proof -
  have "filter (\<lambda>r. tr_id r = tid \<and> active_row r) (st_tenants st) \<noteq> []"
    using assms by (auto simp: filter_empty_conv)
  then show ?thesis by (simp add: store_soft_delete_def Let_def)
qed

text \<open>
  Archiving an active tenant stamps its row, which stays readable, and revokes its
  current key and no other tenant's; rotated keys are untouched, so their holders are the
  same before and after; and archiving a second time is refused and changes nothing.
\<close>

theorem archive_revokes_current_key:
  assumes "store_inv st" and "row \<in> set (st_tenants st)" "tr_id row = tid" "active_row row"
  shows "(let (st', res) = store_soft_delete now now' st tid in
     res = Inr () \<and> map_option t_deleted_at (store_get st' tid) = Some (Some now) \<and>
     (\<forall>key tid'. current_holder hv st' key tid' \<longleftrightarrow> current_holder hv st key tid' \<and> tid' \<noteq> tid) \<and>
     (\<forall>t key tid'. grace_holder hv t st' key tid' \<longleftrightarrow> grace_holder hv t st key tid') \<and>
     (\<forall>t t'. store_soft_delete t t' st' tid =
        (st', Inl (TenantNotFound (''tenant not found or already deleted: '' @ tid)))))"
proof -
  let ?upd = "\<lambda>r. if tr_id r = tid \<and> active_row r
     then r\<lparr>tr_deleted_at := Some now, tr_updated_at := now'\<rparr> else r"
  define st' where "st' = fst (store_soft_delete now now' st tid)"
  note sd = soft_delete_result [OF assms(2-4), of now now']
  have inv': "store_inv st'"
    unfolding st'_def using assms(1) by (rule store_delete_inv)
  have rows': "st_tenants st' = map ?upd (st_tenants st)" and grace': "st_grace st' = st_grace st"
    by (simp_all add: st'_def sd)
  have row': "?upd row \<in> set (st_tenants st')"
    unfolding rows' using assms(2) by simp
  have "tr_id (?upd row) = tid"
    using assms(3) by simp
  with row' have "store_get st' tid = Some (row_to_record (?upd row))"
    using store_get_Some_iff [OF inv'] by blast
  then have get': "map_option t_deleted_at (store_get st' tid) = Some (Some now)"
    using assms(3,4) by simp
  have holders: "current_holder hv st' key tid' \<longleftrightarrow> current_holder hv st key tid' \<and> tid' \<noteq> tid" for key tid'
  proof -
    have "current_holder hv st' key tid' \<longleftrightarrow>
        (\<exists>r \<in> set (st_tenants st). tr_id (?upd r) = tid' \<and> active_row (?upd r) \<and>
           hv (tr_api_key_hash (?upd r)) key = Verified)"
      unfolding current_holder_def rows' set_map by blast
    also have "\<dots> \<longleftrightarrow> (\<exists>r \<in> set (st_tenants st). tr_id r = tid' \<and> active_row r \<and>
        hv (tr_api_key_hash r) key = Verified \<and> tid' \<noteq> tid)"
    proof (rule bex_cong [OF refl])
      fix r
      show "tr_id (?upd r) = tid' \<and> active_row (?upd r) \<and> hv (tr_api_key_hash (?upd r)) key = Verified
        \<longleftrightarrow> tr_id r = tid' \<and> active_row r \<and> hv (tr_api_key_hash r) key = Verified \<and> tid' \<noteq> tid"
        by (cases "tr_id r = tid"; cases "tr_deleted_at r") (simp; blast)+
    qed
    finally show ?thesis
      unfolding current_holder_def by blast
  qed
  have "filter (\<lambda>r. tr_id r = tid \<and> active_row r) (st_tenants st') = []"
    unfolding rows' filter_empty_conv set_map ball_simps by simp
  then have "store_soft_delete t t' st' tid =
      (st', Inl (TenantNotFound (''tenant not found or already deleted: '' @ tid)))" for t t'
    by (simp add: store_soft_delete_def Let_def)
  moreover have "store_soft_delete now now' st tid = (st', Inr ())"
    by (simp add: st'_def sd)
  ultimately show ?thesis
    using get' holders grace' by (simp add: grace_holder_def)
qed

text \<open>
  An archived tenant can still authenticate: if a rotated key of the tenant has not
  expired at the time of the call (and no other key of the store verifies it), then after
  archiving the tenant \<open>authenticate\<close> returns the tenant's record, with \<open>deleted_at\<close> set,
  although the method's contract says that archived tenants never authenticate.
\<close>

theorem archived_tenant_authenticates_with_rotated_key:
  assumes "hv_total hv" and "store_inv st"
    and row: "row \<in> set (st_tenants st)" "tr_id row = tid" "active_row row"
    and g: "g \<in> set (st_grace st)" "gr_tenant_id g = tid" "t \<le> gr_expires_at g"
      "hv (gr_old_api_key_hash g) key = Verified"
    and only: "\<forall>r \<in> set (st_tenants st). hv (tr_api_key_hash r) key \<noteq> Verified"
      "\<forall>g' \<in> set (st_grace st). hv (gr_old_api_key_hash g') key = Verified \<longrightarrow> g' = g"
  shows "(\<exists>r. store_authenticate hv t (fst (store_soft_delete now now' st tid)) key = Inr (Some r) \<and>
     t_id r = tid \<and> t_deleted_at r = Some now)"
proof -
  let ?upd = "\<lambda>r. if tr_id r = tid \<and> active_row r
     then r\<lparr>tr_deleted_at := Some now, tr_updated_at := now'\<rparr> else r"
  define st' where "st' = fst (store_soft_delete now now' st tid)"
  note sd = soft_delete_result [OF row, of now now']
  have inv': "store_inv st'"
    unfolding st'_def using assms(2) by (rule store_delete_inv)
  have rows': "st_tenants st' = map ?upd (st_tenants st)" and grace': "st_grace st' = st_grace st"
    by (simp_all add: st'_def sd)
  have row': "?upd row \<in> set (st_tenants st')"
    unfolding rows' using row(1) by simp
  have "tr_id (?upd row) = tid"
    using row(2) by simp
  with row' have get': "store_get st' tid = Some (row_to_record (?upd row))"
    using store_get_Some_iff [OF inv'] by blast
  have no_row: "hv (tr_api_key_hash r) key \<noteq> Verified" if "r \<in> set (st_tenants st')" for r
    using that only(1) unfolding rows' by (auto split: if_splits)
  have "store_authenticate hv t st' key = Inr (store_get st' tid)"
    using authenticate_grace_only [OF assms(1), of g st' key t] g only(2) no_row
    unfolding grace' by presburger
  with get' row(2,3) show ?thesis
    unfolding st'_def [symmetric] by simp
qed

subsection \<open>Witnesses\<close>

text \<open>
  A hasher that stores the key itself satisfies every assumption; the two stores below hold
  a tenant before and after one rotation.
\<close>

definition plain_hv :: "string \<Rightarrow> string \<Rightarrow> verify_outcome" where
  "plain_hv h k = (if h = k then Verified else Mismatch)"

definition sample_row :: "string tenant_row" where
  "sample_row = \<lparr>tr_id = ''telcoss'', tr_api_key_hash = ''tnk_live_a'', tr_display_name = ''Telcoss'',
     tr_allowed_models = [''*''], tr_rate_limits = [], tr_created_at = 10, tr_updated_at = 10,
     tr_deleted_at = None\<rparr>"

definition sample_store :: "string tenant_store" where
  "sample_store = \<lparr>st_tenants = [sample_row], st_grace = [], st_grace_period = default_grace\<rparr>"

definition rotated_store :: "string tenant_store" where
  "rotated_store = fst (store_rotate_key (\<lambda>k. k) ''b'' 20 21 sample_store ''telcoss'')"

lemma plain_hv_total: "hv_total plain_hv"
  by (simp add: hv_total_def plain_hv_def)

lemma sample_store_reachable: "store_reachable default_grace sample_store"
proof -
  have "sample_store = fst (store_create (\<lambda>k. k) ''a'' 10
      (empty_store default_grace) ''telcoss'' ''Telcoss'' [''*''] None)"
    by (simp add: sample_store_def sample_row_def store_create_fst store_get_def empty_store_def
        generate_api_key_def)
  then show ?thesis
    using reach_step [OF reach_empty step_create] by metis
qed

lemma sample_store_inv: "store_inv sample_store"
  by (rule reachable_store_inv [OF sample_store_reachable])

lemma sample_row_in: "sample_row \<in> set (st_tenants sample_store)" "tr_id sample_row = ''telcoss''"
  "active_row sample_row"
  by (simp_all add: sample_store_def sample_row_def)

lemma reachable_store_wellformed_witness:
  "distinct (map tr_id (st_tenants rotated_store)) \<and> st_grace rotated_store \<noteq> []"
proof -
  have "store_reachable default_grace rotated_store"
    unfolding rotated_store_def by (rule reach_step [OF sample_store_reachable step_rotate])
  note reachable_store_wellformed [OF this]
  then show ?thesis
    by (simp add: rotated_store_def rotate_result [OF sample_store_inv sample_row_in] grace_replace_def)
qed


lemma create_then_authenticate_witness:
  "\<exists>r. store_authenticate plain_hv 50
     (fst (store_create (\<lambda>k. k) ''c'' 40 sample_store ''pn'' ''PN'' [''bge-m3''] None))
     ''tnk_live_c'' = Inr (Some r) \<and> t_id r = ''pn''"
  using create_then_authenticate [OF plain_hv_total sample_store_inv, of "\<lambda>k. k" "''c''" "''pn''" 40 "''PN''" "[''bge-m3'']" None]
  by (fastforce simp: only_current_of_def sample_store_def sample_row_def plain_hv_def
      generate_api_key_def)

lemma rotate_then_authenticate_witness:
  "\<exists>r. t_id r = ''telcoss'' \<and> store_authenticate plain_hv 30 rotated_store ''tnk_live_b'' = Inr (Some r) \<and>
     store_authenticate plain_hv 30 rotated_store ''tnk_live_a'' = Inr (Some r) \<and>
     store_authenticate plain_hv (21 + default_grace) rotated_store ''tnk_live_a'' = Inr None"
  using rotate_then_authenticate [OF plain_hv_total sample_store_inv sample_row_in,
      of "''tnk_live_a''" "\<lambda>k. k" "''b''" 20 21]
  by (fastforce simp: only_current_of_def sample_store_def sample_row_def plain_hv_def
      generate_api_key_def rotated_store_def default_grace_def)

lemma archive_revokes_current_key_witness:
  "\<not> current_holder plain_hv (fst (store_soft_delete 60 61 sample_store ''telcoss'')) ''tnk_live_a'' ''telcoss''"
  using archive_revokes_current_key [OF sample_store_inv sample_row_in, of 60 61 plain_hv]
  by (auto simp: Let_def split: prod.splits)

lemma archived_tenant_authenticates_with_rotated_key_witness:
  "\<exists>r. store_authenticate plain_hv 100 (fst (store_soft_delete 60 61 rotated_store ''telcoss''))
     ''tnk_live_a'' = Inr (Some r) \<and> t_deleted_at r = Some 60"
proof -
  have inv: "store_inv rotated_store"
    unfolding rotated_store_def by (rule store_rotate_inv [OF sample_store_inv])
  let ?row = "sample_row\<lparr>tr_api_key_hash := ''tnk_live_b'', tr_updated_at := 21\<rparr>"
  let ?g = "\<lparr>gr_tenant_id = ''telcoss'', gr_old_api_key_hash = ''tnk_live_a'',
     gr_expires_at = 20 + default_grace\<rparr>"
  have st: "st_tenants rotated_store = [?row]" "st_grace rotated_store = [?g]"
    unfolding rotated_store_def rotate_result [OF sample_store_inv sample_row_in]
    by (simp_all add: grace_replace_def sample_store_def sample_row_def generate_api_key_def)
  show ?thesis
    using archived_tenant_authenticates_with_rotated_key [OF plain_hv_total inv,
        of ?row "''telcoss''" ?g 100 "''tnk_live_a''" 60 61]
    by (auto simp: st sample_row_def plain_hv_def default_grace_def)
qed

end
