(* ===== verification/Auth_Cache.thy ===== *)
theory Auth_Cache
  imports Tenant_Store
begin

text \<open>
  The authenticator (\<open>app/tenancy/auth.py\<close>): a bounded dictionary of positive results in
  front of the tenant store. \<open>lookup\<close> is the store's \<open>authenticate\<close> at the moment of the
  call; times are those of the monotonic clock, in microseconds.
\<close>

subsection \<open>The model\<close>

record 'r Authenticator =
  au_cache_ttl :: time
  au_cache_max :: int
  au_cache :: "(string, time \<times> 'r) pydict"

definition cache_ttl_default :: time where
  "cache_ttl_default = 30 * 1000000"

definition cache_max_default :: int where
  "cache_max_default = 256"

definition authenticator :: "time \<Rightarrow> int \<Rightarrow> 'r Authenticator" where
  "authenticator cache_ttl cache_max =
     \<lparr>au_cache_ttl = cache_ttl, au_cache_max = cache_max, au_cache = []\<rparr>"

text \<open>\<open>min(cache, key=...)\<close>: the first key with the least insertion time.\<close>

definition oldest_entry :: "(string, time \<times> 'r) pydict \<Rightarrow> string" where
  "oldest_entry cache = fst (arg_min_list (\<lambda>(k, t, r). t) cache)"

definition remember :: "'r Authenticator \<Rightarrow> string \<Rightarrow> 'r \<Rightarrow> time \<Rightarrow> exn + 'r Authenticator" where
  "remember c key r now =
     (if int (length (au_cache c)) \<ge> au_cache_max c
      then if au_cache c = [] then Inl (ValueError ''min() iterable argument is empty'')
           else Inr (c\<lparr>au_cache :=
             AList.update key (now, r) (AList.delete (oldest_entry (au_cache c)) (au_cache c))\<rparr>)
      else Inr (c\<lparr>au_cache := AList.update key (now, r) (au_cache c)\<rparr>))"

text \<open>A miss: ask the store, remember a positive answer.\<close>

definition auth_miss ::
  "(string \<Rightarrow> exn + 'r option) \<Rightarrow> time \<Rightarrow> 'r Authenticator \<Rightarrow> string
    \<Rightarrow> 'r Authenticator \<times> (exn + 'r option)"
where
  "auth_miss lookup now c key =
     (case lookup key of
        Inl e \<Rightarrow> (c, Inl e)
      | Inr None \<Rightarrow> (c, Inr None)
      | Inr (Some r) \<Rightarrow>
          (case remember c key r now of
             Inl e \<Rightarrow> (c, Inl e)
           | Inr c' \<Rightarrow> (c', Inr (Some r))))"

definition auth_authenticate ::
  "(string \<Rightarrow> exn + 'r option) \<Rightarrow> time \<Rightarrow> 'r Authenticator \<Rightarrow> string
    \<Rightarrow> 'r Authenticator \<times> (exn + 'r option)"
where
  "auth_authenticate lookup now c key =
     (case map_of (au_cache c) key of
        Some (inserted_at, cached_record) \<Rightarrow>
          if now - inserted_at < au_cache_ttl c then (c, Inr (Some cached_record))
          else auth_miss lookup now (c\<lparr>au_cache := AList.delete key (au_cache c)\<rparr>) key
      | None \<Rightarrow> auth_miss lookup now c key)"

definition auth_invalidate :: "'r Authenticator \<Rightarrow> string \<Rightarrow> 'r Authenticator" where
  "auth_invalidate c key = c\<lparr>au_cache := AList.delete key (au_cache c)\<rparr>"

subsection \<open>Invariant\<close>

text \<open>Keys are unique and the dictionary never exceeds its bound.\<close>

definition auth_inv :: "'r Authenticator \<Rightarrow> bool" where
  "auth_inv c \<longleftrightarrow> wf_dict (au_cache c) \<and> 1 \<le> au_cache_max c \<and>
     int (length (au_cache c)) \<le> au_cache_max c"

lemma oldest_entry_present: "d \<noteq> [] \<Longrightarrow> map_of d (oldest_entry d) \<noteq> None"
proof -
  assume "d \<noteq> []"
  then have "arg_min_list (\<lambda>(k, t, r). t) d \<in> set d"
    by (rule arg_min_list_in)
  then show ?thesis
    unfolding oldest_entry_def by (metis map_of_eq_None_iff image_eqI)
qed

lemma oldest_entry_least:
  assumes "wf_dict d" "map_of d k = Some (t, s)"
  shows "\<exists>t0 s0. map_of d (oldest_entry d) = Some (t0, s0) \<and> t0 \<le> t"
proof -
  let ?f = "\<lambda>(k, t, r). t" and ?e = "arg_min_list (\<lambda>(k, t, r). t) d"
  from assms(2) have mem: "(k, t, s) \<in> set d"
    by (rule map_of_SomeD)
  then have ne: "d \<noteq> []" by auto
  have "?f ?e = Min (?f ` set d)"
    by (rule f_arg_min_list_f [OF ne])
  also have "\<dots> \<le> ?f (k, t, s)"
    by (rule Min_le) (use mem in \<open>simp, blast\<close>)
  finally have "?f ?e \<le> t" by simp
  moreover have "?e \<in> set d"
    by (rule arg_min_list_in [OF ne])
  then have "map_of d (fst ?e) = Some (snd ?e)"
    using assms(1) by (simp add: wf_dict_def)
  ultimately show ?thesis
    unfolding oldest_entry_def by (cases ?e) auto
qed

lemma auth_inv_authenticator [inv_intros]: "1 \<le> m \<Longrightarrow> auth_inv (authenticator ttl m)"
  by (simp add: auth_inv_def authenticator_def)

lemma auth_inv_invalidate [inv_intros]: "auth_inv c \<Longrightarrow> auth_inv (auth_invalidate c key)"
  using length_delete_le [of key "au_cache c"] by (auto simp: auth_inv_def auth_invalidate_def)

lemma remember_ok:
  assumes "auth_inv c"
  obtains c' where "remember c key r now = Inr c'" "auth_inv c'"
    "au_cache_ttl c' = au_cache_ttl c" "au_cache_max c' = au_cache_max c"
    "map_of (au_cache c') key = Some (now, r)"
    "\<And>k. k \<noteq> key \<Longrightarrow> map_of (au_cache c') k = None \<or> map_of (au_cache c') k = map_of (au_cache c) k"
proof (cases "int (length (au_cache c)) \<ge> au_cache_max c")
  case True
  with assms have ne: "au_cache c \<noteq> []"
    by (auto simp: auth_inv_def)
  let ?d = "AList.delete (oldest_entry (au_cache c)) (au_cache c)"
  have "length ?d < length (au_cache c)"
    using length_delete_present [OF oldest_entry_present [OF ne]] .
  then have "length (AList.update key (now, r) ?d) \<le> length (au_cache c)"
    using length_update_le [of key "(now, r)" ?d] by linarith
  with assms True ne show ?thesis
    by (intro that [of "c\<lparr>au_cache := AList.update key (now, r) ?d\<rparr>"])
       (auto simp: remember_def auth_inv_def lookup_update lookup_delete)
next
  case False
  then have "int (length (AList.update key (now, r) (au_cache c))) \<le> au_cache_max c"
    using length_update_le [of key "(now, r)" "au_cache c"] by linarith
  with assms False show ?thesis
    by (intro that [of "c\<lparr>au_cache := AList.update key (now, r) (au_cache c)\<rparr>"])
       (auto simp: remember_def auth_inv_def lookup_update)
qed

lemma auth_miss_inv: "auth_inv c \<Longrightarrow> auth_inv (fst (auth_miss lookup now c key))"
proof (cases "\<exists>r. lookup key = Inr (Some r)")
  case True
  assume inv: "auth_inv c"
  from True obtain r where "lookup key = Inr (Some r)" by blast
  moreover obtain c' where "remember c key r now = Inr c'" "auth_inv c'"
    using remember_ok [OF inv] by blast
  ultimately show ?thesis by (simp add: auth_miss_def)
qed (auto simp: auth_miss_def split: sum.split option.split)

lemma auth_authenticate_inv [inv_intros]:
  "auth_inv c \<Longrightarrow> auth_inv (fst (auth_authenticate lookup now c key))"
  using auth_inv_invalidate [of c key]
  by (auto simp: auth_authenticate_def auth_invalidate_def split: option.split
      intro: auth_miss_inv)

lemma remember_ttl: "remember c key r now = Inr c' \<Longrightarrow> au_cache_ttl c' = au_cache_ttl c"
  by (auto simp: remember_def split: if_splits)

lemma remember_max: "remember c key r now = Inr c' \<Longrightarrow> au_cache_max c' = au_cache_max c"
  by (auto simp: remember_def split: if_splits)

lemma auth_authenticate_max [simp]:
  "au_cache_max (fst (auth_authenticate lookup now c key)) = au_cache_max c"
  by (auto simp: auth_authenticate_def auth_miss_def split: option.split sum.split
      dest: remember_max)

lemma auth_authenticate_ttl [simp]:
  "au_cache_ttl (fst (auth_authenticate lookup now c key)) = au_cache_ttl c"
  by (auto simp: auth_authenticate_def auth_miss_def split: option.split sum.split
      dest: remember_ttl)

subsection \<open>What the authenticator relies on\<close>

text \<open>Every cached pair was owned by its key at the time it is stamped with.\<close>

definition fresh_cache :: "(time \<Rightarrow> string \<Rightarrow> 'r \<Rightarrow> bool) \<Rightarrow> time \<Rightarrow> 'r Authenticator \<Rightarrow> bool" where
  "fresh_cache owner now c \<longleftrightarrow>
     (\<forall>k t r. map_of (au_cache c) k = Some (t, r) \<longrightarrow> t \<le> now \<and> owner t k r)"

lemma fresh_cache_mono: "fresh_cache owner now c \<Longrightarrow> now \<le> now' \<Longrightarrow> fresh_cache owner now' c"
  by (force simp: fresh_cache_def)

text \<open>
  The provider's contract: \<open>answer t k\<close> is what the store says about key \<open>k\<close> at time \<open>t\<close>
  and \<open>owner t k r\<close> that \<open>r\<close> may act with \<open>k\<close> then. The authenticator may run at any
  non-decreasing sequence of times, interleaved with invalidations.
\<close>

locale key_source =
  fixes answer :: "time \<Rightarrow> string \<Rightarrow> exn + 'r option"
    and owner :: "time \<Rightarrow> string \<Rightarrow> 'r \<Rightarrow> bool"
  assumes answer_owner: "answer t k = Inr (Some r) \<Longrightarrow> owner t k r"
begin

lemma fresh_cache_empty: "fresh_cache owner now (authenticator ttl m)"
  by (simp add: fresh_cache_def authenticator_def)

lemma fresh_cache_invalidate: "fresh_cache owner now c \<Longrightarrow> fresh_cache owner now (auth_invalidate c key)"
  by (auto simp: fresh_cache_def auth_invalidate_def lookup_delete)

lemma fresh_cache_miss:
  assumes "fresh_cache owner now c" "auth_inv c"
  shows "fresh_cache owner now (fst (auth_miss (answer now) now c key))"
proof (cases "\<exists>r. answer now key = Inr (Some r)")
  case True
  then obtain r where r: "answer now key = Inr (Some r)" by blast
  obtain c' where c': "remember c key r now = Inr c'" "map_of (au_cache c') key = Some (now, r)"
    "\<And>k. k \<noteq> key \<Longrightarrow> map_of (au_cache c') k = None \<or> map_of (au_cache c') k = map_of (au_cache c) k"
    using remember_ok [OF assms(2)] by metis
  have "fresh_cache owner now c'"
    unfolding fresh_cache_def
  proof (intro allI impI)
    fix k t s
    assume "map_of (au_cache c') k = Some (t, s)"
    with c' assms(1) answer_owner [OF r] show "t \<le> now \<and> owner t k s"
      by (cases "k = key") (auto simp: fresh_cache_def dest!: c'(3))
  qed
  with r c'(1) show ?thesis by (simp add: auth_miss_def)
next
  case False
  with assms(1) show ?thesis by (auto simp: auth_miss_def split: sum.split option.split)
qed

lemma fresh_cache_authenticate:
  assumes "fresh_cache owner now c" "auth_inv c"
  shows "fresh_cache owner now (fst (auth_authenticate (answer now) now c key))"
  using assms fresh_cache_miss [OF fresh_cache_invalidate [OF assms(1)] auth_inv_invalidate [OF assms(2)]]
    fresh_cache_miss [OF assms]
  by (auto simp: auth_authenticate_def auth_invalidate_def split: option.split)

lemma auth_miss_result:
  assumes "auth_inv c"
  shows "snd (auth_miss (answer now) now c key) = answer now key"
proof (cases "answer now key")
  case (Inr found)
  obtain c' where "remember c key (the found) now = Inr c'"
    using remember_ok [OF assms] by blast
  with Inr show ?thesis by (cases found) (simp_all add: auth_miss_def)
qed (simp add: auth_miss_def)

text \<open>
  The bounded-staleness law: a positive result was true at a time less than one TTL ago, or
  is the provider's present answer; any other result is the provider's present answer.
\<close>

lemma bounded_staleness:
  assumes "fresh_cache owner now c" "auth_inv c"
    and "snd (auth_authenticate (answer now) now c key) = res"
  shows "res = answer now key \<or>
    (\<exists>t r. res = Inr (Some r) \<and> t \<le> now \<and> now - t < au_cache_ttl c \<and> owner t key r)"
proof (cases "map_of (au_cache c) key")
  case None
  then show ?thesis
    using assms(3) auth_miss_result [OF assms(2)] by (simp add: auth_authenticate_def)
next
  case (Some p)
  obtain t r where p: "p = (t, r)" by (cases p)
  show ?thesis
  proof (cases "now - t < au_cache_ttl c")
    case True
    moreover from True Some p have "res = Inr (Some r)"
      using assms(3) by (simp add: auth_authenticate_def)
    moreover have "t \<le> now \<and> owner t key r"
      using Some p assms(1) by (simp add: fresh_cache_def)
    ultimately show ?thesis by blast
  next
    case False
    with Some p show ?thesis
      using assms(3) auth_miss_result [OF auth_inv_invalidate [OF assms(2)], of now key key]
      by (simp add: auth_authenticate_def auth_invalidate_def)
  qed
qed

end

text \<open>
  The tenant store provides it, whatever sequence of stores \<open>stores t\<close> the writes produce:
  an authenticated record holds the key, through its current or a rotated one. The store reads
  the wall clock, which is \<open>off\<close> ahead of the monotonic one.
\<close>

definition holds_key ::
  "('h \<Rightarrow> string \<Rightarrow> verify_outcome) \<Rightarrow> time \<Rightarrow> (time \<Rightarrow> 'h tenant_store) \<Rightarrow> time \<Rightarrow> string \<Rightarrow> TenantRecord \<Rightarrow> bool"
where
  "holds_key hv off stores t key r \<longleftrightarrow>
     (store_inv (stores t) \<longrightarrow>
        current_holder hv (stores t) key (t_id r) \<or> grace_holder hv (t + off) (stores t) key (t_id r))"

interpretation tenant_keys: key_source
  "\<lambda>t. store_authenticate hv (t + off) (stores t)" "holds_key hv off stores" for hv off stores
  by unfold_locales (auto simp: holds_key_def dest: authenticate_soundD)

subsection \<open>Runs of the gateway's authenticator\<close>

text \<open>
  The authenticator over a store that changes under it: at each call the clock has advanced
  and the store is whatever \<open>stores\<close> says at that time.
\<close>

inductive auth_run ::
  "('h \<Rightarrow> string \<Rightarrow> verify_outcome) \<Rightarrow> time \<Rightarrow> (time \<Rightarrow> 'h tenant_store) \<Rightarrow> time \<Rightarrow> int
    \<Rightarrow> time \<Rightarrow> TenantRecord Authenticator \<Rightarrow> bool"
  for hv off stores ttl m
where
  run_start: "auth_run hv off stores ttl m now (authenticator ttl m)"
| run_authenticate: "auth_run hv off stores ttl m now c \<Longrightarrow> now \<le> now' \<Longrightarrow>
    auth_run hv off stores ttl m now'
      (fst (auth_authenticate (store_authenticate hv (now' + off) (stores now')) now' c key))"
| run_invalidate: "auth_run hv off stores ttl m now c \<Longrightarrow>
    auth_run hv off stores ttl m now (auth_invalidate c key)"

lemma auth_run_invs:
  assumes "auth_run hv off stores ttl m now c" "1 \<le> m"
  shows "auth_inv c \<and> au_cache_ttl c = ttl \<and> fresh_cache (holds_key hv off stores) now c"
  using assms
proof (induction rule: auth_run.induct)
  case (run_start now)
  then show ?case
    by (auto intro: inv_intros tenant_keys.fresh_cache_empty) (simp add: authenticator_def)
next
  case (run_authenticate now c now' key)
  then have "fresh_cache (holds_key hv off stores) now' c"
    by (blast intro: fresh_cache_mono)
  with run_authenticate show ?case
    by (auto intro: inv_intros tenant_keys.fresh_cache_authenticate)
next
  case (run_invalidate now c key)
  then show ?case
    by (auto intro: inv_intros tenant_keys.fresh_cache_invalidate) (simp add: auth_invalidate_def)
qed

subsection \<open>Properties\<close>

text \<open>
  In every run the cache holds each key once and never more than \<open>cache_max\<close> entries, and
  remembering an answer always succeeds and stores it; when the cache is full, the one entry
  that goes has the least insertion time of all, and every other entry stays.
\<close>

theorem auth_cache_bounded:
  assumes "auth_run hv off stores ttl m now c" and "1 \<le> m"
  shows "distinct (map fst (au_cache c)) \<and> int (length (au_cache c)) \<le> m \<and>
    (\<exists>c'. remember c key r now = Inr c' \<and> map_of (au_cache c') key = Some (now, r) \<and>
       (\<forall>k. k \<noteq> key \<longrightarrow> map_of (au_cache c') k =
          (if int (length (au_cache c)) = m \<and> k = oldest_entry (au_cache c) then None
           else map_of (au_cache c) k))) \<and>
    (\<forall>k t s. map_of (au_cache c) k = Some (t, s) \<longrightarrow>
       (\<exists>t0 s0. map_of (au_cache c) (oldest_entry (au_cache c)) = Some (t0, s0) \<and> t0 \<le> t))"
proof -
  from auth_run_invs [OF assms] have inv: "auth_inv c" by simp
  from assms have max: "au_cache_max c = m"
    by (induction rule: auth_run.induct)
       (auto simp: authenticator_def auth_invalidate_def)
  have "\<exists>c'. remember c key r now = Inr c' \<and> map_of (au_cache c') key = Some (now, r) \<and>
       (\<forall>k. k \<noteq> key \<longrightarrow> map_of (au_cache c') k =
          (if int (length (au_cache c)) = m \<and> k = oldest_entry (au_cache c) then None
           else map_of (au_cache c) k))"
  proof (cases "int (length (au_cache c)) = m")
    case True
    with assms(2) have "au_cache c \<noteq> []" by auto
    with True max have "remember c key r now = Inr (c\<lparr>au_cache := AList.update key (now, r)
        (AList.delete (oldest_entry (au_cache c)) (au_cache c))\<rparr>)"
      by (simp add: remember_def)
    with True show ?thesis by (simp add: dict_simps)
  next
    case False
    with inv max have "remember c key r now =
        Inr (c\<lparr>au_cache := AList.update key (now, r) (au_cache c)\<rparr>)"
      by (simp add: remember_def auth_inv_def)
    with False show ?thesis by (simp add: dict_simps)
  qed
  moreover have "\<forall>k t s. map_of (au_cache c) k = Some (t, s) \<longrightarrow>
       (\<exists>t0 s0. map_of (au_cache c) (oldest_entry (au_cache c)) = Some (t0, s0) \<and> t0 \<le> t)"
    using oldest_entry_least [of "au_cache c"] inv by (simp add: auth_inv_def)
  moreover have "distinct (map fst (au_cache c)) \<and> int (length (au_cache c)) \<le> m"
    using inv max by (simp add: auth_inv_def wf_dict_def)
  ultimately show ?thesis by blast
qed

lemma auth_run_staleness:
  assumes "auth_run hv off stores ttl m now c" and "1 \<le> m" and "now \<le> now'"
    and "\<forall>t. store_inv (stores t)"
    and "snd (auth_authenticate (store_authenticate hv (now' + off) (stores now')) now' c key) = res"
  shows "res = store_authenticate hv (now' + off) (stores now') key \<or>
    (\<exists>t r. res = Inr (Some r) \<and> t \<le> now' \<and> now' - t < ttl \<and>
       (current_holder hv (stores t) key (t_id r) \<or> grace_holder hv (t + off) (stores t) key (t_id r)))"
proof -
  from auth_run_invs [OF assms(1,2)] have "auth_inv c" "au_cache_ttl c = ttl"
    "fresh_cache (holds_key hv off stores) now' c"
    using assms(3) by (auto intro: fresh_cache_mono)
  from tenant_keys.bounded_staleness [OF this(3,1) assms(5)] this(2) assms(4) show ?thesis
    by (auto simp: holds_key_def)
qed

text \<open>
  C8. The authenticator's answer is never staler than one TTL: over any history of store
  writes and cache operations, either the answer is the store's answer of this moment, or it
  is a tenant that held the key in the store less than \<open>cache_ttl\<close> ago; and a refusal is
  always the store's answer of this moment.
\<close>

theorem authenticate_bounded_staleness:
  assumes "auth_run hv off stores ttl m now c" and "1 \<le> m" and "now \<le> now'"
    and "\<forall>t. store_inv (stores t)"
    and "snd (auth_authenticate (store_authenticate hv (now' + off) (stores now')) now' c key) = res"
  shows "res = store_authenticate hv (now' + off) (stores now') key \<or>
    (\<exists>t r. res = Inr (Some r) \<and> t \<le> now' \<and> now' - t < ttl \<and>
       (current_holder hv (stores t) key (t_id r) \<or> grace_holder hv (t + off) (stores t) key (t_id r)))"
  using assms by (rule auth_run_staleness)

subsection \<open>Witnesses\<close>

definition sample_run_cache :: "TenantRecord Authenticator" where
  "sample_run_cache = fst (auth_authenticate (store_authenticate plain_hv 5 sample_store) 5
     (authenticator 100 1) ''tnk_live_a'')"

lemma sample_run: "auth_run plain_hv 0 (\<lambda>_. sample_store) 100 1 5 sample_run_cache"
  unfolding sample_run_cache_def
  using run_authenticate [OF run_start order_refl, where stores = "\<lambda>_. sample_store" and off = 0] by simp

lemma auth_cache_bounded_witness:
  "length (au_cache sample_run_cache) \<le> 1 \<and>
   (\<exists>c'. remember sample_run_cache ''k'' (row_to_record sample_row) 5 = Inr c' \<and>
      map_of (au_cache c') ''k'' \<noteq> None)"
  using auth_cache_bounded [OF sample_run, of "''k''" "row_to_record sample_row"] by auto

lemma authenticate_bounded_staleness_witness:
  "\<exists>res. snd (auth_authenticate (store_authenticate plain_hv 9 sample_store) 9 sample_run_cache
      ''tnk_live_a'') = res \<and>
   (res = store_authenticate plain_hv 9 sample_store ''tnk_live_a'' \<or>
    (\<exists>t r. res = Inr (Some r) \<and> t \<le> 9 \<and> 9 - t < (100::int)))"
  using authenticate_bounded_staleness [OF sample_run, of 9] sample_store_inv by fastforce

end
