(* ===== verification/Gateway_Errors.thy ===== *)
theory Gateway_Errors
  imports Prelude
begin

text \<open>
  The gateway's exception hierarchy (\<open>app/exceptions.py\<close>), the error envelope
  (\<open>app/schemas/errors.py\<close>) and the two handlers of \<open>app/main.py\<close> that turn an exception
  into an HTTP response.
\<close>

subsection \<open>The hierarchy\<close>

datatype ErrorType =
    invalid_request_error
  | authentication_error
  | permission_error
  | not_found_error
  | rate_limit_error
  | api_error
  | backend_error

text \<open>One constructor per class; \<open>RateLimitError\<close> carries \<open>retry_after\<close>.\<close>

datatype gw_class =
    GatewayError
  | InvalidRequestError
  | AuthenticationError
  | ForbiddenError
  | ModelNotFoundError
  | RateLimitError int
  | BackendUnavailableError
  | BackendTimeoutError

record gw_error =
  ge_class :: gw_class
  ge_message :: string
  ge_code :: "string option"
  ge_param :: "string option"

fun status_code :: "gw_class \<Rightarrow> int" where
  "status_code GatewayError = 500"
| "status_code InvalidRequestError = 400"
| "status_code AuthenticationError = 401"
| "status_code ForbiddenError = 403"
| "status_code ModelNotFoundError = 404"
| "status_code (RateLimitError _) = 429"
| "status_code BackendUnavailableError = 503"
| "status_code BackendTimeoutError = 504"

fun error_type :: "gw_class \<Rightarrow> ErrorType" where
  "error_type GatewayError = api_error"
| "error_type InvalidRequestError = invalid_request_error"
| "error_type AuthenticationError = authentication_error"
| "error_type ForbiddenError = permission_error"
| "error_type ModelNotFoundError = not_found_error"
| "error_type (RateLimitError _) = rate_limit_error"
| "error_type BackendUnavailableError = backend_error"
| "error_type BackendTimeoutError = backend_error"

text \<open>The constructors, with the defaults of each \<open>__init__\<close>.\<close>

definition gateway_error :: "gw_class \<Rightarrow> string \<Rightarrow> string option \<Rightarrow> string option \<Rightarrow> gw_error" where
  "gateway_error c message code param =
     \<lparr>ge_class = c, ge_message = message, ge_code = code, ge_param = param\<rparr>"

definition model_not_found :: "string \<Rightarrow> gw_error" where
  "model_not_found message =
     gateway_error ModelNotFoundError message (Some ''model_not_found'') (Some ''model'')"

definition rate_limit_exceeded :: "string \<Rightarrow> int \<Rightarrow> gw_error" where
  "rate_limit_exceeded message retry_after =
     gateway_error (RateLimitError retry_after) message (Some ''rate_limit_exceeded'') None"

definition backend_unavailable :: "string \<Rightarrow> string option \<Rightarrow> gw_error" where
  "backend_unavailable message code = gateway_error BackendUnavailableError message code None"

definition backend_timeout :: "string \<Rightarrow> gw_error" where
  "backend_timeout message =
     gateway_error BackendTimeoutError message (Some ''backend_timeout'') None"

text \<open>
  What a gateway operation can raise: a deliberate gateway error, which the handler below
  renders, or any other exception, which no handler of the application catches.
\<close>

datatype gw_exn = Gw gw_error | Py exn

subsection \<open>The error envelope\<close>

record ErrorDetail =
  ed_message :: string
  ed_type :: ErrorType
  ed_code :: "string option"
  ed_param :: "string option"

record ErrorEnvelope =
  env_error :: ErrorDetail

record error_reply =
  er_status :: int
  er_content :: ErrorEnvelope
  er_headers :: "(string, string) pydict"

definition error_response :: "gw_error \<Rightarrow> error_reply" where
  "error_response e =
     (let envelope = \<lparr>env_error =
            \<lparr>ed_message = ge_message e, ed_type = error_type (ge_class e),
             ed_code = ge_code e, ed_param = ge_param e\<rparr>\<rparr>;
          headers = (case ge_class e of
              RateLimitError retry_after \<Rightarrow> [(''Retry-After'', show_int retry_after)]
            | _ \<Rightarrow> [])
      in \<lparr>er_status = status_code (ge_class e), er_content = envelope, er_headers = headers\<rparr>)"

subsection \<open>Request validation errors\<close>

text \<open>
  One entry of \<open>RequestValidationError.errors()\<close>: the location, a tuple of texts and
  indices, and the message; both keys may be absent.
\<close>

datatype loc_part = LocName string | LocIndex int

record validation_entry =
  ve_loc :: "loc_part list option"
  ve_msg :: "string option"

fun loc_str :: "loc_part \<Rightarrow> string" where
  "loc_str (LocName s) = s"
| "loc_str (LocIndex i) = show_int i"

definition on_validation_error :: "validation_entry list \<Rightarrow> error_reply" where
  "on_validation_error errors =
     (let first = (case errors of
            [] \<Rightarrow> \<lparr>ve_loc = None, ve_msg = None\<rparr> | e # _ \<Rightarrow> e);
          loc = map loc_str (filter (\<lambda>p. p \<noteq> LocName ''body'')
            (case ve_loc first of None \<Rightarrow> [] | Some l \<Rightarrow> l));
          message = (case ve_msg first of None \<Rightarrow> ''Invalid request'' | Some m \<Rightarrow> m);
          joined = py_join ''.'' loc
      in error_response (gateway_error InvalidRequestError message None
           (if joined = '''' then None else Some joined)))"

subsection \<open>Lemmas\<close>

lemma error_response_status [simp]: "er_status (error_response e) = status_code (ge_class e)"
  by (simp add: error_response_def Let_def)

lemma ge_class_simps [simp]:
  "ge_class (gateway_error c m co p) = c"
  "ge_class (model_not_found m) = ModelNotFoundError"
  "ge_class (rate_limit_exceeded m r) = RateLimitError r"
  "ge_class (backend_unavailable m co) = BackendUnavailableError"
  "ge_class (backend_timeout m) = BackendTimeoutError"
  by (simp_all add: gateway_error_def model_not_found_def rate_limit_exceeded_def
      backend_unavailable_def backend_timeout_def)

lemma status_code_range: "400 \<le> status_code c \<and> status_code c < 600"
  by (cases c) auto

lemma client_error_iff:
  "status_code c < 500 \<longleftrightarrow> error_type c \<notin> {api_error, backend_error}"
  by (cases c) auto

text \<open>
  The response to a gateway error: the status is a client or server error code and is
  429 exactly for a rate-limit error; the \<open>Retry-After\<close> header is present exactly then and
  holds \<open>retry_after\<close>; the envelope carries the exception's own message, code and parameter;
  and the envelope's type says \<open>api_error\<close> or \<open>backend_error\<close> exactly for the 5xx statuses.
\<close>

theorem error_response_contract:
  "(let r = error_response e; d = env_error (er_content r) in
      400 \<le> er_status r \<and> er_status r < 600 \<and>
      (er_status r = 429 \<longleftrightarrow> (\<exists>n. ge_class e = RateLimitError n)) \<and>
      map_of (er_headers r) ''Retry-After'' =
        (case ge_class e of RateLimitError n \<Rightarrow> Some (show_int n) | _ \<Rightarrow> None) \<and>
      ed_message d = ge_message e \<and> ed_code d = ge_code e \<and> ed_param d = ge_param e \<and>
      (500 \<le> er_status r \<longleftrightarrow> ed_type d = api_error \<or> ed_type d = backend_error))"
  unfolding error_response_def Let_def by (cases "ge_class e") auto

end
