(* ===== verification/Rate_Limit.thy ===== *)
theory Rate_Limit
  imports Gateway_Errors Tenant_Store
begin

text \<open>
  The per-tenant rate limiter (\<open>app/tenancy/ratelimit.py\<close>): a fixed-window counter in Redis.
  Redis is a parameter: \<open>incr\<close> and \<open>expire\<close> act on a state of any type and may fail.
\<close>

subsection \<open>Limits\<close>

definition default_limits :: "(string, string option) pydict" where
  "default_limits =
     [(''chat.completions'', Some ''60/min''), (''completions'', Some ''60/min''),
      (''embeddings'', Some ''1000/min''), (''rerank'', Some ''200/min''), (''models'', None)]"

definition window_seconds :: "(string, int) pydict" where
  "window_seconds =
     [(''sec'', 1), (''s'', 1), (''min'', 60), (''m'', 60), (''hour'', 3600), (''h'', 3600)]"

definition parse_limit :: "string \<Rightarrow> exn + int \<times> int" where
  "parse_limit spec =
     (let (count_str, unit) = py_partition CHR ''/'' spec;
          window = map_of window_seconds (py_lower (py_strip unit))
      in case window of
           None \<Rightarrow> Inl (ValueError (''invalid rate-limit spec: '' @ spec))
         | Some w \<Rightarrow>
             if \<not> py_isdigit (py_strip count_str)
             then Inl (ValueError (''invalid rate-limit spec: '' @ spec))
             else Inr (int (nat_of_digits (py_strip count_str)), w))"

definition limit_for :: "TenantRecord \<Rightarrow> string \<Rightarrow> string option" where
  "limit_for tenant endpoint =
     (case map_of (t_rate_limits tenant) endpoint of
        Some spec \<Rightarrow> Some spec
      | None \<Rightarrow> (case map_of default_limits endpoint of Some d \<Rightarrow> d | None \<Rightarrow> None))"

subsection \<open>Enforcement\<close>

text \<open>
  A Redis call fails with an error the limiter catches (\<open>RedisError\<close>, \<open>OSError\<close>) or with
  another exception.
\<close>

datatype redis_failure = RedisDown string | RedisOther exn

record 'r redis_ops =
  ro_incr :: "'r \<Rightarrow> string \<Rightarrow> 'r \<times> (redis_failure + int)"
  ro_expire :: "'r \<Rightarrow> string \<Rightarrow> int \<Rightarrow> 'r \<times> (redis_failure + unit)"

definition rl_key :: "string \<Rightarrow> string \<Rightarrow> int \<Rightarrow> string" where
  "rl_key tenant_id endpoint bucket =
     ''rl:'' @ tenant_id @ '':'' @ endpoint @ '':'' @ show_int bucket"

text \<open>The \<open>try\<close> block: count the request and give a new counter its lifetime.\<close>

definition rl_count :: "'r redis_ops \<Rightarrow> 'r \<Rightarrow> string \<Rightarrow> int \<Rightarrow> 'r \<times> (redis_failure + int)" where
  "rl_count ops r key window =
     (case ro_incr ops r key of
        (r', Inl e) \<Rightarrow> (r', Inl e)
      | (r', Inr current) \<Rightarrow>
          if current = 1
          then (case ro_expire ops r' key window of
              (r'', Inl e) \<Rightarrow> (r'', Inl e)
            | (r'', Inr _) \<Rightarrow> (r'', Inr current))
          else (r', Inr current))"

text \<open>\<open>now\<close> is \<open>int(time.time())\<close>.\<close>

definition rl_enforce ::
  "'r redis_ops \<Rightarrow> bool \<Rightarrow> int \<Rightarrow> 'r \<Rightarrow> TenantRecord \<Rightarrow> string \<Rightarrow> 'r \<times> (gw_exn + unit)"
where
  "rl_enforce ops fail_open now r tenant endpoint =
     (case limit_for tenant endpoint of
        None \<Rightarrow> (r, Inr ())
      | Some spec \<Rightarrow>
          (case parse_limit spec of
             Inl e \<Rightarrow> (r, Inl (Py e))
           | Inr (count, window) \<Rightarrow>
               (let bucket = now div window;
                    key = rl_key (t_id tenant) endpoint bucket
                in case rl_count ops r key window of
                     (r', Inl (RedisDown _)) \<Rightarrow>
                       if fail_open then (r', Inr ())
                       else (r', Inl (Gw (backend_unavailable ''rate limiter unavailable''
                              (Some ''ratelimit_unavailable''))))
                   | (r', Inl (RedisOther e)) \<Rightarrow> (r', Inl (Py e))
                   | (r', Inr current) \<Rightarrow>
                       if current > count
                       then let retry_after = window - now mod window
                            in (r', Inl (Gw (rate_limit_exceeded
                                 (''rate limit exceeded for '' @ endpoint @ '': '' @ spec)
                                 (max retry_after 1))))
                       else (r', Inr ()))))"

text \<open>A sequence of requests of one tenant to one endpoint, at the given times.\<close>

fun rl_enforce_seq ::
  "'r redis_ops \<Rightarrow> bool \<Rightarrow> 'r \<Rightarrow> TenantRecord \<Rightarrow> string \<Rightarrow> int list \<Rightarrow> 'r \<times> (gw_exn + unit) list"
where
  "rl_enforce_seq ops fail_open r tenant endpoint [] = (r, [])"
| "rl_enforce_seq ops fail_open r tenant endpoint (now # ts) =
     (let (r', res) = rl_enforce ops fail_open now r tenant endpoint;
          (r'', rs) = rl_enforce_seq ops fail_open r' tenant endpoint ts
      in (r'', res # rs))"

subsection \<open>Lemmas\<close>

lemma window_seconds_pos: "map_of window_seconds u = Some w \<Longrightarrow> 1 \<le> w"
  by (auto simp: window_seconds_def split: if_splits)

lemma parse_limit_Inr:
  assumes "parse_limit spec = Inr (count, window)"
  shows "0 \<le> count" "window \<in> {1, 60, 3600}"
  using assms by (auto simp: parse_limit_def Let_def window_seconds_def
      split: prod.splits option.splits if_splits)

lemma slash_not_digit: "py_isdigit s \<Longrightarrow> CHR ''/'' \<notin> set s"
  by (auto simp: py_isdigit_def list_all_iff is_digit_def char_code_def)

lemma char_set_show_nat: "c \<in> set (show_nat n) \<Longrightarrow> is_digit c"
  using show_nat_digits [of n] by (auto simp: py_isdigit_def list_all_iff)

lemma show_int_no_colon: "CHR '':'' \<notin> set (show_int i)"
  by (auto simp: show_int_def is_digit_def char_code_def dest!: char_set_show_nat)

lemma show_int_inject: "0 \<le> i \<Longrightarrow> 0 \<le> j \<Longrightarrow> show_int i = show_int j \<longleftrightarrow> i = j"
  using show_nat_inject [of "nat i" "nat j"] by (auto simp: show_int_def)

lemma append_sep_inject:
  "c \<notin> set t \<Longrightarrow> c \<notin> set t' \<Longrightarrow> s @ c # t = s' @ c # t' \<longleftrightarrow> s = s' \<and> t = t'"
proof
  assume c: "c \<notin> set t" "c \<notin> set t'" and eq: "s @ c # t = s' @ c # t'"
  have "rev t @ c # rev s = rev t' @ c # rev s'"
    using arg_cong [OF eq, of rev] by simp
  moreover have "takeWhile (\<lambda>x. x \<noteq> c) (rev t @ c # rev s) = rev t"
    "takeWhile (\<lambda>x. x \<noteq> c) (rev t' @ c # rev s') = rev t'"
    using c by (auto simp: takeWhile_append2 takeWhile_append)
  ultimately have "rev t = rev t'" by metis
  with eq show "s = s' \<and> t = t'" by simp
qed simp

lemma rl_key_inject:
  assumes "CHR '':'' \<notin> set e" "CHR '':'' \<notin> set e'" "0 \<le> b" "0 \<le> b'"
  shows "rl_key t e b = rl_key t' e' b' \<longleftrightarrow> t = t' \<and> e = e' \<and> b = b'"
proof -
  have "rl_key t e b = rl_key t' e' b' \<longleftrightarrow>
      (t @ CHR '':'' # e) @ CHR '':'' # show_int b = (t' @ CHR '':'' # e') @ CHR '':'' # show_int b'"
    by (simp add: rl_key_def)
  also have "\<dots> \<longleftrightarrow> t @ CHR '':'' # e = t' @ CHR '':'' # e' \<and> show_int b = show_int b'"
    by (rule append_sep_inject) (rule show_int_no_colon)+
  also have "\<dots> \<longleftrightarrow> (t = t' \<and> e = e') \<and> b = b'"
    using append_sep_inject [OF assms(1,2), of t t'] show_int_inject [OF assms(3,4)] by blast
  finally show ?thesis by blast
qed

subsection \<open>A Redis that answers\<close>

text \<open>
  Documented behaviour of the two commands: \<open>INCR\<close> adds one to the key's counter (0 when
  absent), returns the new value and touches no other key; \<open>EXPIRE\<close> leaves the counters
  alone, as long as the lifetime it set has not run out.
\<close>

definition redis_counts :: "'r redis_ops \<Rightarrow> ('r \<Rightarrow> string \<Rightarrow> int) \<Rightarrow> bool" where
  "redis_counts ops cnt \<longleftrightarrow>
     (\<forall>r k. \<exists>r'. ro_incr ops r k = (r', Inr (cnt r k + 1)) \<and> cnt r' = (cnt r)(k := cnt r k + 1)) \<and>
     (\<forall>r k w. \<exists>r'. ro_expire ops r k w = (r', Inr ()) \<and> cnt r' = cnt r)"

lemma rl_count_counts:
  assumes "redis_counts ops cnt"
  shows "\<exists>r'. rl_count ops r k w = (r', Inr (cnt r k + 1)) \<and> cnt r' = (cnt r)(k := cnt r k + 1)"
proof -
  obtain r1 where r1: "ro_incr ops r k = (r1, Inr (cnt r k + 1))" "cnt r1 = (cnt r)(k := cnt r k + 1)"
    using assms unfolding redis_counts_def by blast
  obtain r2 where r2: "ro_expire ops r1 k w = (r2, Inr ())" "cnt r2 = cnt r1"
    using assms unfolding redis_counts_def by blast
  show ?thesis
    using r1 r2 by (simp add: rl_count_def)
qed

lemma rl_enforce_counts:
  assumes "redis_counts ops cnt"
    and "limit_for tenant endpoint = Some spec" and "parse_limit spec = Inr (count, window)"
    and "key = rl_key (t_id tenant) endpoint (now div window)"
  shows "\<exists>r'. cnt r' = (cnt r)(key := cnt r key + 1) \<and>
     rl_enforce ops fail_open now r tenant endpoint = (r',
       if cnt r key < count then Inr ()
       else Inl (Gw (rate_limit_exceeded (''rate limit exceeded for '' @ endpoint @ '': '' @ spec)
              (window - now mod window))))"
proof -
  obtain r' where r': "rl_count ops r key window = (r', Inr (cnt r key + 1))"
    "cnt r' = (cnt r)(key := cnt r key + 1)"
    using rl_count_counts [OF assms(1)] by blast
  have "0 < window"
    using parse_limit_Inr(2) [OF assms(3)] by auto
  then have "now mod window < window"
    by (rule pos_mod_bound)
  then have "max (window - now mod window) 1 = window - now mod window"
    by linarith
  with r' assms(2-4) show ?thesis
    by (auto simp: rl_enforce_def Let_def)
qed

text \<open>The requests of one window: the first ones are admitted, the others refused.\<close>

lemma rl_enforce_seq_counts:
  assumes "redis_counts ops cnt"
    and "limit_for tenant endpoint = Some spec" and "parse_limit spec = Inr (count, window)"
    and "\<forall>t \<in> set ts. t div window = bucket"
    and "0 \<le> cnt r (rl_key (t_id tenant) endpoint bucket)"
  shows "length (snd (rl_enforce_seq ops fail_open r tenant endpoint ts)) = length ts \<and>
    (\<forall>i < length ts. is_ok (snd (rl_enforce_seq ops fail_open r tenant endpoint ts) ! i) \<longleftrightarrow>
       cnt r (rl_key (t_id tenant) endpoint bucket) + int i < count) \<and>
    (\<forall>k. cnt (fst (rl_enforce_seq ops fail_open r tenant endpoint ts)) k = cnt r k +
       (if k = rl_key (t_id tenant) endpoint bucket then int (length ts) else 0))"
  using assms(4,5)
proof (induction ts arbitrary: r)
  case Nil
  then show ?case by simp
next
  case (Cons t ts)
  let ?key = "rl_key (t_id tenant) endpoint bucket"
  from Cons.prems(1) have "t div window = bucket" by simp
  then obtain r' where r': "cnt r' = (cnt r)(?key := cnt r ?key + 1)"
    "rl_enforce ops fail_open t r tenant endpoint = (r',
       if cnt r ?key < count then Inr ()
       else Inl (Gw (rate_limit_exceeded (''rate limit exceeded for '' @ endpoint @ '': '' @ spec)
              (window - t mod window))))"
    using rl_enforce_counts [OF assms(1-3), of ?key t r fail_open] by auto
  obtain r'' rs where rec: "rl_enforce_seq ops fail_open r' tenant endpoint ts = (r'', rs)"
    by (cases "rl_enforce_seq ops fail_open r' tenant endpoint ts")
  have IH: "length rs = length ts"
    "\<forall>i < length ts. is_ok (rs ! i) \<longleftrightarrow> cnt r ?key + 1 + int i < count"
    "\<forall>k. cnt r'' k = cnt r' k + (if k = ?key then int (length ts) else 0)"
    using Cons.IH [of r'] Cons.prems r'(1) rec by auto
  show ?case
    using r' rec IH by (auto simp: nth_Cons split: nat.split)
qed

subsection \<open>Properties\<close>

lemma parse_limit_spaced:
  assumes "map_of window_seconds unit = Some w" "list_all is_space u" "list_all is_space v"
  shows "parse_limit ((show_nat n @ u) @ CHR ''/'' # v @ unit) = Inr (int n, w)"
proof -
  have digits: "py_isdigit (show_nat n)"
    by (rule show_nat_digits)
  then have "CHR ''/'' \<notin> set (show_nat n)"
    by (rule slash_not_digit)
  moreover have "CHR ''/'' \<notin> set u"
    using assms(2) by (auto simp: list_all_iff is_space_def char_code_def)
  ultimately have part: "py_partition CHR ''/'' ((show_nat n @ u) @ CHR ''/'' # v @ unit) =
      (show_nat n @ u, v @ unit)"
    by (intro py_partition_append) simp
  have unit: "list_all (\<lambda>c. \<not> is_space c) unit" "py_lower unit = unit"
    using assms(1) by (auto simp: window_seconds_def text_defs split: if_splits)
  have "list_all (\<lambda>c. \<not> is_space c) (show_nat n)"
    using digits by (simp add: py_isdigit_def digits_not_space)
  then have "py_strip (show_nat n @ u) = show_nat n"
    using strip_where_append [of is_space "[]" u "show_nat n"] assms(2) by (simp add: py_strip_def)
  moreover have "py_strip (v @ unit) = unit"
    using strip_where_append [of is_space v "[]" unit] assms(3) unit(1) by (simp add: py_strip_def)
  ultimately show ?thesis
    unfolding parse_limit_def part using assms(1) unit(2) digits by simp
qed

text \<open>
  \<open>parse_limit\<close> reads back what a limit of the documented form says, for each of the six
  unit names and with any blanks around the slash, and every limit it accepts has a
  non-negative count and a window of one second, one minute or one hour.
\<close>

theorem parse_limit_roundtrip:
  assumes "map_of window_seconds unit = Some w"
    and "list_all is_space u" and "list_all is_space v"
  shows "parse_limit (show_nat n @ u @ ''/'' @ v @ unit) = Inr (int n, w) \<and>
    (\<forall>spec count window. parse_limit spec = Inr (count, window) \<longrightarrow>
       0 \<le> count \<and> window \<in> {1, 60, 3600})"
  using parse_limit_spaced [OF assms] parse_limit_Inr by simp

text \<open>
  Within one window and with a Redis that answers, exactly the first requests up to the
  limit are admitted: request \<open>i\<close> passes if and only if the counter before the sequence plus
  \<open>i\<close> is below the limit, so \<open>count\<close> requests pass from a fresh window and every later one is
  refused; and no counter but that of this tenant, endpoint and window changes.
\<close>

theorem window_admits_exactly_count:
  assumes "redis_counts ops cnt"
    and "limit_for tenant endpoint = Some spec" and "parse_limit spec = Inr (count, window)"
    and "\<forall>t \<in> set ts. t div window = bucket"
    and "cnt r (rl_key (t_id tenant) endpoint bucket) = 0"
  shows "length (filter is_ok (snd (rl_enforce_seq ops fail_open r tenant endpoint ts))) =
      min (length ts) (nat count) \<and>
    (\<forall>i < length ts. is_ok (snd (rl_enforce_seq ops fail_open r tenant endpoint ts) ! i) \<longleftrightarrow>
       int i < count) \<and>
    (\<forall>k. k \<noteq> rl_key (t_id tenant) endpoint bucket \<longrightarrow>
       cnt (fst (rl_enforce_seq ops fail_open r tenant endpoint ts)) k = cnt r k)"
proof -
  let ?rs = "snd (rl_enforce_seq ops fail_open r tenant endpoint ts)"
  note counts = rl_enforce_seq_counts [OF assms(1-4), of r fail_open, unfolded assms(5), simplified]
  have "\<forall>i < length ?rs. is_ok (?rs ! i) \<longleftrightarrow> i < nat count"
    using counts by (simp add: zless_nat_eq_int_zless)
  from length_filter_prefix [OF this] show ?thesis
    using counts by simp
qed

text \<open>
  Counters of different tenants, endpoints or windows never share a Redis key, whatever
  characters the tenant ids contain (the endpoints of the gateway contain no colon).
\<close>

theorem rate_limit_keys_disjoint:
  assumes "e \<in> set (dict_keys default_limits)" and "e' \<in> set (dict_keys default_limits)"
    and "0 \<le> now" and "0 \<le> now'" and "0 < w" and "0 < w'"
  shows "rl_key t e (now div w) = rl_key t' e' (now' div w') \<longleftrightarrow>
    t = t' \<and> e = e' \<and> now div w = now' div w'"
proof (rule rl_key_inject)
  show "CHR '':'' \<notin> set e" "CHR '':'' \<notin> set e'"
    using assms(1,2) by (auto simp: default_limits_def)
qed (use assms in \<open>simp_all add: pos_imp_zdiv_nonneg_iff\<close>)

text \<open>
  When Redis fails with an error the limiter knows, the request passes if and only if the
  limiter fails open, and otherwise it is answered with status 503; an endpoint without a
  limit passes without touching Redis; and a refusal for exceeding the limit has status 429
  and a \<open>retry_after\<close> that lies between one second and the window and ends in the next window.
\<close>

theorem enforce_outcomes:
  assumes "limit_for tenant endpoint = Some spec" and "parse_limit spec = Inr (count, window)"
  shows "(\<forall>r' e. rl_count ops r (rl_key (t_id tenant) endpoint (now div window)) window = (r', Inl (RedisDown e)) \<longrightarrow>
      rl_enforce ops True now r tenant endpoint = (r', Inr ()) \<and>
      (\<exists>g. rl_enforce ops False now r tenant endpoint = (r', Inl (Gw g)) \<and> status_code (ge_class g) = 503)) \<and>
    (\<forall>tenant' endpoint'. limit_for tenant' endpoint' = None \<longrightarrow>
      rl_enforce ops fail_open now r tenant' endpoint' = (r, Inr ())) \<and>
    (\<forall>r' g. rl_enforce ops fail_open now r tenant endpoint = (r', Inl (Gw g)) \<longrightarrow>
      status_code (ge_class g) = 429 \<longrightarrow>
      (\<exists>retry. ge_class g = RateLimitError retry \<and> 1 \<le> retry \<and> retry \<le> window \<and>
         (now + retry) div window = now div window + 1 \<and> (now + retry) mod window = 0))"
proof -
  have w: "0 < window"
    using parse_limit_Inr(2) [OF assms(2)] by auto
  have m: "0 \<le> now mod window" "now mod window < window"
    using w by simp_all
  have next_window: "now + (window - now mod window) = (now div window + 1) * window"
    using div_mult_mod_eq [of now window] by (simp add: algebra_simps)
  have retry: "max (window - now mod window) 1 = window - now mod window"
    using m by linarith
  have "(now + (window - now mod window)) div window = now div window + 1"
    "(now + (window - now mod window)) mod window = 0"
    unfolding next_window using w by simp_all
  then have refused: "\<exists>retry. ge_class g = RateLimitError retry \<and> 1 \<le> retry \<and> retry \<le> window \<and>
      (now + retry) div window = now div window + 1 \<and> (now + retry) mod window = 0"
    if "g = rate_limit_exceeded msg (max (window - now mod window) 1)" for g msg
    using that m by (auto simp: retry)
  show ?thesis
    using assms refused
    by (auto simp: rl_enforce_def Let_def split: sum.splits prod.splits redis_failure.splits if_splits)
qed

subsection \<open>Witnesses\<close>

text \<open>A Redis that is a map from keys to counters.\<close>

definition map_redis :: "(string \<Rightarrow> int) redis_ops" where
  "map_redis = \<lparr>ro_incr = (\<lambda>m k. (m(k := m k + 1), Inr (m k + 1))),
     ro_expire = (\<lambda>m k w. (m, Inr ()))\<rparr>"

definition sample_tenant :: TenantRecord where
  "sample_tenant = \<lparr>t_id = ''telcoss'', t_display_name = ''Telcoss'', t_allowed_models = [''*''],
     t_rate_limits = [(''rerank'', ''2/sec'')], t_created_at = 0, t_updated_at = 0,
     t_deleted_at = None\<rparr>"

lemma map_redis_counts: "redis_counts map_redis (\<lambda>m. m)"
  by (simp add: redis_counts_def map_redis_def)

lemma sample_limit:
  "limit_for sample_tenant ''rerank'' = Some ''2/sec''" "parse_limit ''2/sec'' = Inr (2, 1)"
  by (simp_all add: limit_for_def sample_tenant_def parse_limit_def window_seconds_def text_defs)

lemma parse_limit_roundtrip_witness: "parse_limit (show_nat 60 @ '' '' @ ''/'' @ [] @ ''min'') = Inr (60, 60)"
  using parse_limit_roundtrip [of "''min''" 60 "'' ''" "[]" 60]
  by (simp add: window_seconds_def is_space_def char_code_def)

lemma window_admits_exactly_count_witness:
  "length (filter is_ok (snd (rl_enforce_seq map_redis True (\<lambda>_. 0) sample_tenant ''rerank'' [7, 7, 7]))) = 2"
  using window_admits_exactly_count [OF map_redis_counts sample_limit, of "[7, 7, 7]" 7 "\<lambda>_. 0" True]
  by simp

lemma rate_limit_keys_disjoint_witness:
  "rl_key ''a'' ''rerank'' (120 div 60) \<noteq> rl_key ''a:rerank'' ''rerank'' (120 div 60)"
  using rate_limit_keys_disjoint [of "''rerank''" "''rerank''" 120 120 60 60 "''a''" "''a:rerank''"]
  by (simp add: default_limits_def)

lemma enforce_outcomes_witness:
  "\<exists>r' g retry. rl_enforce map_redis True 7 (\<lambda>_. 2) sample_tenant ''rerank'' = (r', Inl (Gw g)) \<and>
     ge_class g = RateLimitError retry \<and> 1 \<le> retry \<and> retry \<le> 1"
proof -
  obtain r' where "rl_enforce map_redis True 7 (\<lambda>_. 2) sample_tenant ''rerank'' = (r',
      Inl (Gw (rate_limit_exceeded (''rate limit exceeded for '' @ ''rerank'' @ '': '' @ ''2/sec'') 1)))"
    using rl_enforce_counts [OF map_redis_counts sample_limit refl, where now = 7 and r = "\<lambda>_. 2" and fail_open = True] by auto
  with enforce_outcomes [OF sample_limit, where ops = map_redis and r = "\<lambda>_. 2" and now = 7 and fail_open = True] show ?thesis
    by fastforce
qed

end
