(* ===== verification/Schemas.thy ===== *)
theory Schemas
  imports Prelude
begin

text \<open>
  The wire types of the gateway (\<open>app/schemas/\<close>): requests and responses as records, their
  field constraints as predicates, and the JSON object that
  \<open>model_dump(by_alias=True, exclude_none=True)\<close> makes of a chat or completion request.
\<close>

subsection \<open>Models and tenants\<close>

datatype Capability = Chat | Completions | Embeddings | Rerank | Structured

record Model =
  m_id :: string
  m_owned_by :: string
  m_capabilities :: "Capability list"

record TenantIdentity =
  ti_tenant_id :: string
  ti_display_name :: string
  ti_allowed_models :: "string list"
  ti_rate_limits :: "(string, string) pydict"

subsection \<open>Chat\<close>

datatype Role = System | User | Assistant

record ChatMessage =
  cm_role :: Role
  cm_content :: string
  cm_name :: "string option"

record JsonSchemaSpec =
  js_name :: string
  js_json_schema_def :: "(string, json) pydict"
  js_strict :: bool
  js_description :: "string option"

datatype ResponseFormat = JsonObjectFormat | JsonSchemaFormat JsonSchemaSpec | TextFormat

datatype one_or_many = One string | Many "string list"

record ChatCompletionRequest =
  cr_model :: string
  cr_messages :: "ChatMessage list"
  cr_temperature :: pyfloat
  cr_top_p :: pyfloat
  cr_max_tokens :: "int option"
  cr_stop :: "one_or_many option"
  cr_seed :: "int option"
  cr_n :: int
  cr_response_format :: "ResponseFormat option"

record ChatCompletionUsage =
  us_prompt_tokens :: int
  us_completion_tokens :: int
  us_total_tokens :: int

datatype FinishReason = Stop | Length | ContentFilter | ToolCalls

record ChatCompletionChoice =
  cc_index :: int
  cc_message :: ChatMessage
  cc_finish_reason :: "FinishReason option"

record GatewayMetadata =
  gm_backend :: string
  gm_response_format_fallback :: bool
  gm_tenant_id :: "string option"

record ChatCompletionResponse =
  cp_id :: string
  cp_created :: int
  cp_model :: string
  cp_choices :: "ChatCompletionChoice list"
  cp_usage :: ChatCompletionUsage
  cp_metadata :: GatewayMetadata

subsection \<open>Legacy completions\<close>

record CompletionRequest =
  lr_model :: string
  lr_prompt :: one_or_many
  lr_temperature :: pyfloat
  lr_top_p :: pyfloat
  lr_max_tokens :: "int option"
  lr_stop :: "one_or_many option"
  lr_seed :: "int option"
  lr_n :: int

record CompletionChoice =
  lc_index :: int
  lc_text :: string
  lc_finish_reason :: "FinishReason option"

record CompletionResponse =
  lp_id :: string
  lp_created :: int
  lp_model :: string
  lp_choices :: "CompletionChoice list"
  lp_usage :: ChatCompletionUsage
  lp_metadata :: GatewayMetadata

subsection \<open>Embeddings and rerank\<close>

record EmbeddingRequest =
  er_model :: string
  er_input :: one_or_many
  er_dimensions :: "int option"

record EmbeddingData =
  edt_index :: int
  edt_embedding :: "pyfloat list"

record EmbeddingUsage =
  eu_prompt_tokens :: int
  eu_total_tokens :: int

record EmbeddingResponse =
  ep_data :: "EmbeddingData list"
  ep_model :: string
  ep_usage :: EmbeddingUsage

record RerankRequest =
  rr_model :: string
  rr_query :: string
  rr_documents :: "string list"
  rr_top_n :: "int option"
  rr_return_documents :: bool

record RerankResult =
  rs_index :: int
  rs_relevance_score :: pyfloat
  rs_document :: "string option"

record RerankResponse =
  rp_id :: string
  rp_model :: string
  rp_results :: "RerankResult list"

subsection \<open>Field constraints\<close>

fun fl_le :: "pyfloat \<Rightarrow> pyfloat \<Rightarrow> bool" where
  "fl_le Nan y = False"
| "fl_le x Nan = False"
| "fl_le x y = (\<not> fl_less y x)"

definition fl_between :: "rat \<Rightarrow> rat \<Rightarrow> pyfloat \<Rightarrow> bool" where
  "fl_between lo hi x \<longleftrightarrow> fl_le (Fin lo) x \<and> fl_le x (Fin hi)"

definition at_least_1 :: "int option \<Rightarrow> bool" where
  "at_least_1 x = (case x of None \<Rightarrow> True | Some n \<Rightarrow> 1 \<le> n)"

definition valid_chat_request :: "ChatCompletionRequest \<Rightarrow> bool" where
  "valid_chat_request r \<longleftrightarrow>
     fl_between 0 2 (cr_temperature r) \<and> fl_between 0 1 (cr_top_p r) \<and>
     at_least_1 (cr_max_tokens r) \<and> 1 \<le> cr_n r \<and> cr_n r \<le> 1"

definition valid_completion_request :: "CompletionRequest \<Rightarrow> bool" where
  "valid_completion_request r \<longleftrightarrow>
     fl_between 0 2 (lr_temperature r) \<and> fl_between 0 1 (lr_top_p r) \<and>
     at_least_1 (lr_max_tokens r) \<and> 1 \<le> lr_n r \<and> lr_n r \<le> 1"

definition reject_empty :: "one_or_many \<Rightarrow> bool" where
  "reject_empty v = (case v of One s \<Rightarrow> True | Many xs \<Rightarrow> length xs \<noteq> 0)"

definition valid_embedding_request :: "EmbeddingRequest \<Rightarrow> bool" where
  "valid_embedding_request r \<longleftrightarrow> reject_empty (er_input r) \<and> at_least_1 (er_dimensions r)"

definition valid_rerank_request :: "RerankRequest \<Rightarrow> bool" where
  "valid_rerank_request r \<longleftrightarrow>
     1 \<le> length (rr_documents r) \<and> length (rr_documents r) \<le> 1000 \<and> at_least_1 (rr_top_n r)"

definition valid_rerank_result :: "RerankResult \<Rightarrow> bool" where
  "valid_rerank_result r \<longleftrightarrow> fl_between 0 1 (rs_relevance_score r)"

subsection \<open>Serialization\<close>

fun role_str :: "Role \<Rightarrow> string" where
  "role_str System = ''system''"
| "role_str User = ''user''"
| "role_str Assistant = ''assistant''"

text \<open>A field that \<open>exclude_none\<close> drops when it is \<open>None\<close>.\<close>

definition opt_field :: "string \<Rightarrow> ('a \<Rightarrow> json) \<Rightarrow> 'a option \<Rightarrow> (string, json) pydict" where
  "opt_field name f x = (case x of None \<Rightarrow> [] | Some v \<Rightarrow> [(name, f v)])"

definition dump_message :: "ChatMessage \<Rightarrow> json" where
  "dump_message m = JObj ([(''role'', JStr (role_str (cm_role m))), (''content'', JStr (cm_content m))]
     @ opt_field ''name'' JStr (cm_name m))"

definition dump_one_or_many :: "one_or_many \<Rightarrow> json" where
  "dump_one_or_many v = (case v of One s \<Rightarrow> JStr s | Many xs \<Rightarrow> JList (map JStr xs))"

definition dump_schema_spec :: "JsonSchemaSpec \<Rightarrow> json" where
  "dump_schema_spec s = JObj ([(''name'', JStr (js_name s)), (''schema'', JObj (js_json_schema_def s)),
     (''strict'', JBool (js_strict s))] @ opt_field ''description'' JStr (js_description s))"

definition dump_response_format :: "ResponseFormat \<Rightarrow> json" where
  "dump_response_format f = (case f of
       JsonObjectFormat \<Rightarrow> JObj [(''type'', JStr ''json_object'')]
     | JsonSchemaFormat s \<Rightarrow> JObj [(''type'', JStr ''json_schema''), (''json_schema'', dump_schema_spec s)]
     | TextFormat \<Rightarrow> JObj [(''type'', JStr ''text'')])"

definition dump_chat_request :: "ChatCompletionRequest \<Rightarrow> (string, json) pydict" where
  "dump_chat_request r =
     [(''model'', JStr (cr_model r)), (''messages'', JList (map dump_message (cr_messages r))),
      (''temperature'', JFloat (cr_temperature r)), (''top_p'', JFloat (cr_top_p r))]
     @ opt_field ''max_tokens'' JInt (cr_max_tokens r)
     @ opt_field ''stop'' dump_one_or_many (cr_stop r)
     @ opt_field ''seed'' JInt (cr_seed r)
     @ [(''n'', JInt (cr_n r))]
     @ opt_field ''response_format'' dump_response_format (cr_response_format r)"

definition dump_completion_request :: "CompletionRequest \<Rightarrow> (string, json) pydict" where
  "dump_completion_request r =
     [(''model'', JStr (lr_model r)), (''prompt'', dump_one_or_many (lr_prompt r)),
      (''temperature'', JFloat (lr_temperature r)), (''top_p'', JFloat (lr_top_p r))]
     @ opt_field ''max_tokens'' JInt (lr_max_tokens r)
     @ opt_field ''stop'' dump_one_or_many (lr_stop r)
     @ opt_field ''seed'' JInt (lr_seed r)
     @ [(''n'', JInt (lr_n r))]"

lemma map_of_opt_field [simp]:
  "map_of (opt_field k f x) k' = (if k' = k then map_option f x else None)"
  by (auto simp: opt_field_def split: option.split)

lemma map_of_append_opt [simp]:
  "map_of (opt_field k f x @ d) k' =
     (if k' = k \<and> x \<noteq> None then map_option f x else map_of d k')"
  by (auto simp: opt_field_def split: option.split)

end
