(* ===== verification/Backend.thy ===== *)
theory Backend
  imports Gateway_Errors Schemas "HOL-Library.Multiset"
begin

text \<open>
  The backend adapters (\<open>app/backends/\<close>): one record for every kind, with the health state and
  the HTTP client's life cycle of \<open>BackendAdapter\<close>, and the operations of each kind. The
  network is a parameter \<open>send\<close>; response validation by Pydantic is a parameter \<open>validate\<close>.
\<close>

subsection \<open>The adapter\<close>

datatype adapter_kind = OpenAICompat | Vllm | Tei | TeiRerank | Anthropic

record BackendModel =
  bm_id :: string
  bm_backend_model_name :: string
  bm_capabilities :: "Capability list"

text \<open>An HTTP client: its generation (0 for the first one) and its budgets in seconds.\<close>

record http_client =
  hc_generation :: nat
  hc_connect :: rat
  hc_read :: rat
  hc_write :: rat
  hc_pool :: rat
  hc_max_keepalive :: nat
  hc_max_connections :: nat
  hc_keepalive_expiry :: rat

text \<open>
  \<open>ad_closing\<close> holds the clients a scheduled \<open>_deferred_close\<close> will close, with its grace;
  \<open>ad_closed\<close> the clients already closed.
\<close>

record BackendAdapter =
  ad_kind :: adapter_kind
  ad_name :: string
  ad_base_url :: string
  ad_read_timeout :: rat
  ad_api_key :: "string option"
  ad_client :: http_client
  ad_healthy :: bool
  ad_failures :: int
  ad_last_checked :: "int option"
  ad_closing :: "(http_client \<times> rat) list"
  ad_closed :: "http_client list"

fun kind_str :: "adapter_kind \<Rightarrow> string" where
  "kind_str OpenAICompat = ''openai_compat''"
| "kind_str Vllm = ''vllm''"
| "kind_str Tei = ''tei''"
| "kind_str TeiRerank = ''tei_rerank''"
| "kind_str Anthropic = ''anthropic''"

fun kind_capabilities :: "adapter_kind \<Rightarrow> Capability list" where
  "kind_capabilities OpenAICompat = [Chat, Completions, Structured]"
| "kind_capabilities Vllm = [Chat, Completions, Structured]"
| "kind_capabilities Tei = [Embeddings]"
| "kind_capabilities TeiRerank = [Rerank]"
| "kind_capabilities Anthropic = [Chat, Structured]"

definition supports :: "BackendAdapter \<Rightarrow> Capability \<Rightarrow> bool" where
  "supports a capability \<longleftrightarrow> capability \<in> set (kind_capabilities (ad_kind a))"

definition make_client :: "rat \<Rightarrow> nat \<Rightarrow> http_client" where
  "make_client read_timeout generation =
     \<lparr>hc_generation = generation, hc_connect = 5, hc_read = read_timeout, hc_write = 10, hc_pool = 5,
      hc_max_keepalive = 20, hc_max_connections = 100, hc_keepalive_expiry = 30\<rparr>"

definition new_adapter :: "adapter_kind \<Rightarrow> string \<Rightarrow> string \<Rightarrow> rat \<Rightarrow> string option \<Rightarrow> BackendAdapter" where
  "new_adapter kind name base_url read_timeout api_key =
     \<lparr>ad_kind = kind, ad_name = name, ad_base_url = rstrip_where (\<lambda>c. c = CHR ''/'') base_url,
      ad_read_timeout = read_timeout, ad_api_key = api_key,
      ad_client = make_client read_timeout 0, ad_healthy = True, ad_failures = 0,
      ad_last_checked = None, ad_closing = [], ad_closed = []\<rparr>"

subsection \<open>Health state and reconnection\<close>

definition record_health :: "int \<Rightarrow> int \<Rightarrow> BackendAdapter \<Rightarrow> bool \<Rightarrow> BackendAdapter \<times> bool" where
  "record_health unhealthy_threshold now a ok =
     (let was_unhealthy = \<not> ad_healthy a;
          a1 = a\<lparr>ad_last_checked := Some now\<rparr>;
          a2 = (if ok then a1\<lparr>ad_healthy := True, ad_failures := 0\<rparr>
                else let n = ad_failures a1 + 1
                     in a1\<lparr>ad_failures := n,
                           ad_healthy := (if n \<ge> unhealthy_threshold then False else ad_healthy a1)\<rparr>)
      in (a2, ok \<and> was_unhealthy))"

definition reconnect :: "BackendAdapter \<Rightarrow> BackendAdapter" where
  "reconnect a =
     (let old = ad_client a
      in a\<lparr>ad_client := make_client (ad_read_timeout a) (Suc (hc_generation old)),
           ad_closing := ad_closing a @ [(old, ad_read_timeout a)]\<rparr>)"

text \<open>The scheduled close of one client runs; \<open>ok\<close> says whether \<open>aclose\<close> succeeded.\<close>

definition deferred_close :: "BackendAdapter \<Rightarrow> http_client \<Rightarrow> bool \<Rightarrow> BackendAdapter" where
  "deferred_close a client ok =
     a\<lparr>ad_closing := filter (\<lambda>(c, grace). c \<noteq> client) (ad_closing a),
       ad_closed := (if ok then ad_closed a @ [client] else ad_closed a)\<rparr>"

definition adapter_aclose :: "BackendAdapter \<Rightarrow> BackendAdapter" where
  "adapter_aclose a = a\<lparr>ad_closed := ad_closed a @ [ad_client a]\<rparr>"

subsection \<open>HTTP requests\<close>

text \<open>
  What a call to the backend does: time out, fail with another \<open>httpx.HTTPError\<close>, raise
  something else, or return a status and a body, whose decoding may raise.
\<close>

datatype http_outcome =
    HttpTimeout
  | HttpFailure string
  | HttpRaises exn
  | HttpReply int "exn + json"

record http_request =
  hq_client :: http_client
  hq_method :: string
  hq_url :: string
  hq_json :: "json option"
  hq_headers :: "(string, string) pydict"

definition adapter_headers :: "BackendAdapter \<Rightarrow> (string, string) pydict" where
  "adapter_headers a =
     (case ad_api_key a of
        Some k \<Rightarrow> if k \<noteq> [] then [(''Authorization'', ''Bearer '' @ k)] else []
      | None \<Rightarrow> [])"

definition request_json ::
  "(http_request \<Rightarrow> http_outcome) \<Rightarrow> BackendAdapter \<Rightarrow> string \<Rightarrow> string \<Rightarrow> json option \<Rightarrow> gw_exn + json"
where
  "request_json send a method path body =
     (let req = \<lparr>hq_client = ad_client a, hq_method = method, hq_url = ad_base_url a @ path,
                 hq_json = body, hq_headers = adapter_headers a\<rparr>
      in case send req of
           HttpTimeout \<Rightarrow> Inl (Gw (backend_timeout (ad_name a @ '' timed out'')))
         | HttpFailure exc \<Rightarrow>
             Inl (Gw (backend_unavailable (ad_name a @ '' unreachable: '' @ exc) (Some ''backend_unavailable'')))
         | HttpRaises e \<Rightarrow> Inl (Py e)
         | HttpReply status decoded \<Rightarrow>
             if status \<ge> 500
             then Inl (Gw (backend_unavailable (ad_name a @ '' returned HTTP '' @ show_int status)
                     (Some ''backend_unavailable'')))
             else if status \<ge> 400
             then Inl (Gw (gateway_error InvalidRequestError
                     (ad_name a @ '' rejected the request (HTTP '' @ show_int status @ '')'')
                     None (Some ''model'')))
             else (case decoded of Inl e \<Rightarrow> Inl (Py e) | Inr v \<Rightarrow> Inr v))"

text \<open>The probes: \<open>GET /models\<close> with the headers, \<open>GET /health\<close>, and none for the stub.\<close>

definition probe_status :: "http_outcome \<Rightarrow> exn + bool" where
  "probe_status out =
     (case out of
        HttpTimeout \<Rightarrow> Inr False
      | HttpFailure _ \<Rightarrow> Inr False
      | HttpRaises e \<Rightarrow> Inl e
      | HttpReply status _ \<Rightarrow> Inr (status = 200))"

definition adapter_health :: "(http_request \<Rightarrow> http_outcome) \<Rightarrow> BackendAdapter \<Rightarrow> exn + bool" where
  "adapter_health send a =
     (let get = (\<lambda>path headers. \<lparr>hq_client = ad_client a, hq_method = ''GET'',
            hq_url = ad_base_url a @ path, hq_json = None, hq_headers = headers\<rparr>)
      in case ad_kind a of
           OpenAICompat \<Rightarrow> probe_status (send (get ''/models'' (adapter_headers a)))
         | Vllm \<Rightarrow> probe_status (send (get ''/models'' (adapter_headers a)))
         | Tei \<Rightarrow> probe_status (send (get ''/health'' []))
         | TeiRerank \<Rightarrow> probe_status (send (get ''/health'' []))
         | Anthropic \<Rightarrow> Inr False)"

subsection \<open>Operations\<close>

definition unsupported :: "BackendAdapter \<Rightarrow> string \<Rightarrow> gw_exn" where
  "unsupported a what = Gw (gateway_error InvalidRequestError
     (''backend kind '' @ [CHR 0x27] @ kind_str (ad_kind a) @ [CHR 0x27] @ '' does not support '' @ what)
     None (Some ''model''))"

definition finalize ::
  "(json \<Rightarrow> string + 'resp) \<Rightarrow> BackendAdapter \<Rightarrow> json \<Rightarrow> string \<Rightarrow> gw_exn + 'resp"
where
  "finalize validate a data platform_model_id =
     (case data of
        JObj flds \<Rightarrow>
          (let fields1 = AList.update ''model'' (JStr platform_model_id) flds;
               fields2 = AList.update ''metadata''
                 (JObj [(''backend'', JStr (ad_name a)), (''response_format_fallback'', JBool False)]) fields1
           in case validate (JObj fields2) of
                Inl exc \<Rightarrow> Inl (Gw (gateway_error GatewayError
                  (ad_name a @ '' returned an unparseable response: '' @ exc) None None))
              | Inr resp \<Rightarrow> Inr resp)
      | _ \<Rightarrow> Inl (Gw (gateway_error GatewayError
          (ad_name a @ '' returned a non-object response'') None None)))"

definition openai_chat ::
  "(http_request \<Rightarrow> http_outcome) \<Rightarrow> (json \<Rightarrow> string + ChatCompletionResponse) \<Rightarrow> BackendAdapter
    \<Rightarrow> ChatCompletionRequest \<Rightarrow> BackendModel \<Rightarrow> gw_exn + ChatCompletionResponse"
where
  "openai_chat send validate a request model =
     (let payload = AList.update ''model'' (JStr (bm_backend_model_name model)) (dump_chat_request request)
      in rbind (request_json send a ''POST'' ''/chat/completions'' (Some (JObj payload)))
           (\<lambda>data. finalize validate a data (cr_model request)))"

definition openai_completion ::
  "(http_request \<Rightarrow> http_outcome) \<Rightarrow> (json \<Rightarrow> string + CompletionResponse) \<Rightarrow> BackendAdapter
    \<Rightarrow> CompletionRequest \<Rightarrow> BackendModel \<Rightarrow> gw_exn + CompletionResponse"
where
  "openai_completion send validate a request model =
     (let payload = AList.update ''model'' (JStr (bm_backend_model_name model)) (dump_completion_request request)
      in rbind (request_json send a ''POST'' ''/completions'' (Some (JObj payload)))
           (\<lambda>data. finalize validate a data (lr_model request)))"

text \<open>
  \<open>float(x)\<close> and \<open>int(x)\<close> of a JSON value. Parsing text as a number is left to \<open>fparse\<close> and
  \<open>iparse\<close>; \<open>int\<close> truncates a float towards zero.
\<close>

definition trunc :: "rat \<Rightarrow> int" where
  "trunc q = (if 0 \<le> q then floor q else ceiling q)"

fun py_float :: "(string \<Rightarrow> exn + pyfloat) \<Rightarrow> json \<Rightarrow> exn + pyfloat" where
  "py_float fparse (JInt i) = Inr (Fin (of_int i))"
| "py_float fparse (JFloat f) = Inr f"
| "py_float fparse (JBool b) = Inr (Fin (if b then 1 else 0))"
| "py_float fparse (JStr s) = fparse s"
| "py_float fparse _ = Inl (TypeError ''float() argument must be a string or a real number'')"

fun py_int :: "(string \<Rightarrow> exn + int) \<Rightarrow> json \<Rightarrow> exn + int" where
  "py_int iparse (JInt i) = Inr i"
| "py_int iparse (JFloat (Fin q)) = Inr (trunc q)"
| "py_int iparse (JFloat Nan) = Inl (ValueError ''cannot convert float NaN to integer'')"
| "py_int iparse (JFloat _) = Inl (ExternalError ''OverflowError'')"
| "py_int iparse (JBool b) = Inr (if b then 1 else 0)"
| "py_int iparse (JStr s) = iparse s"
| "py_int iparse _ = Inl (TypeError ''int() argument must be a string or a real number'')"

definition lift_py :: "exn + 'a \<Rightarrow> gw_exn + 'a" where
  "lift_py r = (case r of Inl e \<Rightarrow> Inl (Py e) | Inr a \<Rightarrow> Inr a)"

definition input_list :: "one_or_many \<Rightarrow> string list" where
  "input_list v = (case v of One s \<Rightarrow> [s] | Many xs \<Rightarrow> xs)"

definition tei_vector ::
  "(string \<Rightarrow> exn + pyfloat) \<Rightarrow> BackendAdapter \<Rightarrow> nat \<times> json \<Rightarrow> gw_exn + EmbeddingData"
where
  "tei_vector fparse a iv =
     (case iv of (index, vector) \<Rightarrow>
       (case vector of
          JList xs \<Rightarrow> rmap (\<lambda>floats. \<lparr>edt_index = int index, edt_embedding = floats\<rparr>)
            (lift_py (rmap_list (py_float fparse) xs))
        | _ \<Rightarrow> Inl (Gw (gateway_error GatewayError
            (ad_name a @ '' returned a non-vector embedding'') None None))))"

definition tei_embedding ::
  "(http_request \<Rightarrow> http_outcome) \<Rightarrow> (string \<Rightarrow> exn + pyfloat) \<Rightarrow> BackendAdapter \<Rightarrow> EmbeddingRequest
    \<Rightarrow> gw_exn + EmbeddingResponse"
where
  "tei_embedding send fparse a request =
     (let inputs = input_list (er_input request)
      in rbind (request_json send a ''POST'' ''/embed'' (Some (JObj [(''inputs'', JList (map JStr inputs))])))
        (\<lambda>data. case data of
           JList vs \<Rightarrow>
             rbind (rmap_list (tei_vector fparse a) (enumerate 0 vs))
               (\<lambda>vectors.
                  let tokens = int (sum_list (map length inputs)) div 4
                  in Inr \<lparr>ep_data = vectors, ep_model = er_model request,
                          ep_usage = \<lparr>eu_prompt_tokens = tokens, eu_total_tokens = tokens\<rparr>\<rparr>)
         | _ \<Rightarrow> Inl (Gw (gateway_error GatewayError
             (ad_name a @ '' returned an unexpected /embed payload'') None None))))"

definition clamp_unit :: "pyfloat \<Rightarrow> pyfloat" where
  "clamp_unit score = py_max (Fin 0) (py_min (Fin 1) score)"

definition item_get :: "(string, json) pydict \<Rightarrow> string \<Rightarrow> exn + json" where
  "item_get flds k = (case map_of flds k of None \<Rightarrow> Inl (KeyError k) | Some v \<Rightarrow> Inr v)"

text \<open>\<open>str(v)\<close> of a JSON value; the text of floats and containers is \<open>repr\<close>'s.\<close>

definition py_str :: "(json \<Rightarrow> string) \<Rightarrow> json \<Rightarrow> string" where
  "py_str repr v =
     (case v of
        JStr s \<Rightarrow> s
      | JInt i \<Rightarrow> show_int i
      | JBool b \<Rightarrow> if b then ''True'' else ''False''
      | JNull \<Rightarrow> ''None''
      | _ \<Rightarrow> repr v)"

record number_parsers =
  np_float :: "string \<Rightarrow> exn + pyfloat"
  np_int :: "string \<Rightarrow> exn + int"
  np_repr :: "json \<Rightarrow> string"

definition rerank_item ::
  "number_parsers \<Rightarrow> BackendAdapter \<Rightarrow> bool \<Rightarrow> json \<Rightarrow> gw_exn + RerankResult"
where
  "rerank_item np a return_documents item =
     (case item of
        JObj flds \<Rightarrow>
          (let document = (case map_of flds ''text'' of
                 Some v \<Rightarrow> if return_documents \<and> v \<noteq> JNull then Some (py_str (np_repr np) v) else None
               | None \<Rightarrow> None)
           in rbind (lift_py (rbind (item_get flds ''index'') (py_int (np_int np))))
             (\<lambda>index. rbind (lift_py (rbind (item_get flds ''score'') (py_float (np_float np))))
               (\<lambda>score. Inr \<lparr>rs_index = index, rs_relevance_score = clamp_unit score,
                             rs_document = document\<rparr>)))
      | _ \<Rightarrow> Inl (Gw (gateway_error GatewayError
          (ad_name a @ '' returned a malformed rerank result'') None None)))"

text \<open>
  \<open>results.sort(key=score, reverse=True)\<close>: stable, best score first. \<open>score_key\<close> orders the
  clamped scores, which are finite.
\<close>

definition score_key :: "RerankResult \<Rightarrow> rat" where
  "score_key r = (case rs_relevance_score r of Fin q \<Rightarrow> q | _ \<Rightarrow> 0)"

definition sort_by_score :: "RerankResult list \<Rightarrow> RerankResult list" where
  "sort_by_score rs = sort_key (\<lambda>r. - score_key r) rs"

text \<open>\<open>results[:n]\<close>; a negative \<open>n\<close> counts from the end.\<close>

definition py_prefix :: "int \<Rightarrow> 'a list \<Rightarrow> 'a list" where
  "py_prefix n xs = take (if 0 \<le> n then nat n else length xs - nat (- n)) xs"

definition tei_rerank ::
  "(http_request \<Rightarrow> http_outcome) \<Rightarrow> number_parsers \<Rightarrow> string \<Rightarrow> BackendAdapter \<Rightarrow> RerankRequest
    \<Rightarrow> gw_exn + RerankResponse"
where
  "tei_rerank send np token a request =
     (let payload = [(''query'', JStr (rr_query request)),
            (''texts'', JList (map JStr (rr_documents request))),
            (''return_text'', JBool (rr_return_documents request))]
      in rbind (request_json send a ''POST'' ''/rerank'' (Some (JObj payload)))
        (\<lambda>data. case data of
           JList items \<Rightarrow>
             rbind (rmap_list (rerank_item np a (rr_return_documents request)) items)
               (\<lambda>results.
                  let sorted = sort_by_score results;
                      cut = (case rr_top_n request of None \<Rightarrow> sorted | Some n \<Rightarrow> py_prefix n sorted)
                  in Inr \<lparr>rp_id = ''rerank_'' @ token, rp_model = rr_model request, rp_results = cut\<rparr>)
         | _ \<Rightarrow> Inl (Gw (gateway_error GatewayError
             (ad_name a @ '' returned an unexpected /rerank payload'') None None))))"

text \<open>Method resolution: each kind overrides the operations it serves.\<close>

definition adapter_chat ::
  "(http_request \<Rightarrow> http_outcome) \<Rightarrow> (json \<Rightarrow> string + ChatCompletionResponse) \<Rightarrow> BackendAdapter
    \<Rightarrow> ChatCompletionRequest \<Rightarrow> BackendModel \<Rightarrow> gw_exn + ChatCompletionResponse"
where
  "adapter_chat send validate a request model =
     (case ad_kind a of
        OpenAICompat \<Rightarrow> openai_chat send validate a request model
      | Vllm \<Rightarrow> openai_chat send validate a request model
      | Anthropic \<Rightarrow> Inl (Gw (gateway_error GatewayError
          ''anthropic backend is not implemented yet (Week 5)'' None None))
      | _ \<Rightarrow> Inl (unsupported a ''chat''))"

definition adapter_completion ::
  "(http_request \<Rightarrow> http_outcome) \<Rightarrow> (json \<Rightarrow> string + CompletionResponse) \<Rightarrow> BackendAdapter
    \<Rightarrow> CompletionRequest \<Rightarrow> BackendModel \<Rightarrow> gw_exn + CompletionResponse"
where
  "adapter_completion send validate a request model =
     (case ad_kind a of
        OpenAICompat \<Rightarrow> openai_completion send validate a request model
      | Vllm \<Rightarrow> openai_completion send validate a request model
      | _ \<Rightarrow> Inl (unsupported a ''completions''))"

definition adapter_embedding ::
  "(http_request \<Rightarrow> http_outcome) \<Rightarrow> number_parsers \<Rightarrow> BackendAdapter \<Rightarrow> EmbeddingRequest
    \<Rightarrow> BackendModel \<Rightarrow> gw_exn + EmbeddingResponse"
where
  "adapter_embedding send np a request model =
     (case ad_kind a of
        Tei \<Rightarrow> tei_embedding send (np_float np) a request
      | _ \<Rightarrow> Inl (unsupported a ''embeddings''))"

definition adapter_rerank ::
  "(http_request \<Rightarrow> http_outcome) \<Rightarrow> number_parsers \<Rightarrow> string \<Rightarrow> BackendAdapter \<Rightarrow> RerankRequest
    \<Rightarrow> BackendModel \<Rightarrow> gw_exn + RerankResponse"
where
  "adapter_rerank send np token a request model =
     (case ad_kind a of
        TeiRerank \<Rightarrow> tei_rerank send np token a request
      | _ \<Rightarrow> Inl (unsupported a ''rerank''))"

subsection \<open>Health state: facts\<close>

text \<open>What one tick of the health checker does to an adapter, and a drained close.\<close>

definition probe_step :: "int \<Rightarrow> BackendAdapter \<Rightarrow> int \<times> bool \<Rightarrow> BackendAdapter" where
  "probe_step threshold a ev =
     (let (a1, recovered) = record_health threshold (fst ev) a (snd ev)
      in if recovered then reconnect a1 else a1)"

definition fail_streak :: "bool list \<Rightarrow> nat" where
  "fail_streak oks = length (takeWhile (\<lambda>ok. \<not> ok) (rev oks))"

lemma fail_streak_simps [simp]:
  "fail_streak [] = 0"
  "fail_streak (oks @ [True]) = 0"
  "fail_streak (oks @ [False]) = Suc (fail_streak oks)"
  by (simp_all add: fail_streak_def)

lemma probe_step_fields [simp]:
  "ad_failures (probe_step t a (now, ok)) = (if ok then 0 else ad_failures a + 1)"
  "ad_healthy (probe_step t a (now, ok)) = (ok \<or> ad_healthy a \<and> ad_failures a + 1 < t)"
  "ad_last_checked (probe_step t a (now, ok)) = Some now"
  by (auto simp: probe_step_def record_health_def reconnect_def Let_def)

lemma probe_step_client [simp]:
  "hc_generation (ad_client (probe_step t a (now, ok))) =
     (if ok \<and> \<not> ad_healthy a then Suc (hc_generation (ad_client a)) else hc_generation (ad_client a))"
  by (auto simp: probe_step_def record_health_def reconnect_def make_client_def Let_def)

inductive adapter_run :: "int \<Rightarrow> BackendAdapter \<Rightarrow> bool list \<Rightarrow> BackendAdapter \<Rightarrow> bool"
  for threshold a0 where
  start: "adapter_run threshold a0 [] a0"
| probe: "adapter_run threshold a0 oks a \<Longrightarrow>
    adapter_run threshold a0 (oks @ [ok]) (probe_step threshold a (now, ok))"
| drained: "adapter_run threshold a0 oks a \<Longrightarrow> (c, g) \<in> set (ad_closing a) \<Longrightarrow>
    adapter_run threshold a0 oks (deferred_close a c ok)"

lemma deferred_close_simps [simp]:
  "ad_failures (deferred_close a c ok) = ad_failures a"
  "ad_healthy (deferred_close a c ok) = ad_healthy a"
  "ad_client (deferred_close a c ok) = ad_client a"
  by (simp_all add: deferred_close_def)

lemma adapter_run_health:
  assumes "adapter_run t (new_adapter k n u r key) oks a" "1 \<le> t"
  shows "ad_failures a = int (fail_streak oks) \<and> (ad_healthy a \<longleftrightarrow> int (fail_streak oks) < t)"
  using assms
proof (induction rule: adapter_run.induct)
  case start
  then show ?case by (simp add: new_adapter_def)
next
  case (probe oks a ok now)
  then show ?case by (cases ok) auto
qed simp

text \<open>No client that is closed, or about to be, is the current one.\<close>

definition retired_clients :: "BackendAdapter \<Rightarrow> http_client list" where
  "retired_clients a = map fst (ad_closing a) @ ad_closed a"

definition retired_generations :: "BackendAdapter \<Rightarrow> nat list" where
  "retired_generations a = map hc_generation (retired_clients a)"

definition client_inv :: "BackendAdapter \<Rightarrow> bool" where
  "client_inv a \<longleftrightarrow>
     set (retired_generations a) \<subseteq> {..< hc_generation (ad_client a)} \<and>
     distinct (retired_generations a)"

lemma retired_reconnect:
  "\<exists>xs ys. retired_generations a = xs @ ys \<and>
     retired_generations (reconnect a) = xs @ hc_generation (ad_client a) # ys \<and>
     hc_generation (ad_client (reconnect a)) = Suc (hc_generation (ad_client a))"
  by (intro exI [of _ "map (hc_generation \<circ> fst) (ad_closing a)"]
            exI [of _ "map hc_generation (ad_closed a)"])
     (simp add: retired_generations_def retired_clients_def reconnect_def make_client_def Let_def)

lemma client_inv_reconnect [inv_intros]:
  assumes "client_inv a"
  shows "client_inv (reconnect a)"
proof -
  obtain xs ys where r: "retired_generations a = xs @ ys"
    "retired_generations (reconnect a) = xs @ hc_generation (ad_client a) # ys"
    "hc_generation (ad_client (reconnect a)) = Suc (hc_generation (ad_client a))"
    using retired_reconnect by blast
  with assms show ?thesis
    unfolding client_inv_def r by (auto simp: less_Suc_eq)
qed

lemma record_health_clients [simp]:
  "retired_generations (fst (record_health t now a ok)) = retired_generations a"
  "ad_client (fst (record_health t now a ok)) = ad_client a"
  by (auto simp: retired_generations_def retired_clients_def record_health_def Let_def)

lemma client_inv_record_health: "client_inv (fst (record_health t now a ok)) \<longleftrightarrow> client_inv a"
  by (simp add: client_inv_def)

lemma probe_step_cases:
  "probe_step t a ev =
     (if snd (record_health t (fst ev) a (snd ev)) then reconnect (fst (record_health t (fst ev) a (snd ev)))
      else fst (record_health t (fst ev) a (snd ev)))"
  by (simp add: probe_step_def split_beta)

lemma client_inv_probe [inv_intros]: "client_inv a \<Longrightarrow> client_inv (probe_step t a ev)"
  unfolding probe_step_cases by (simp add: client_inv_reconnect client_inv_record_health)

lemma client_inv_drained [inv_intros]:
  assumes "client_inv a" "(c, g) \<in> set (ad_closing a)"
  shows "client_inv (deferred_close a c ok)"
proof -
  let ?keep = "filter (\<lambda>(c', g'). c' \<noteq> c) (ad_closing a)"
  have d: "distinct (map (hc_generation \<circ> fst) (ad_closing a))" "distinct (map hc_generation (ad_closed a))"
    "set (map (hc_generation \<circ> fst) (ad_closing a)) \<inter> set (map hc_generation (ad_closed a)) = {}"
    and lt: "set (retired_generations a) \<subseteq> {..< hc_generation (ad_client a)}"
    using assms(1) by (auto simp: client_inv_def retired_generations_def retired_clients_def)
  have keep: "distinct (map (hc_generation \<circ> fst) ?keep)"
    using d(1) by (rule distinct_map_filter)
  have gone: "hc_generation c \<notin> set (map (hc_generation \<circ> fst) ?keep)"
  proof
    assume "hc_generation c \<in> set (map (hc_generation \<circ> fst) ?keep)"
    then obtain p where "p \<in> set (ad_closing a)" "fst p \<noteq> c" "hc_generation (fst p) = hc_generation c"
      by auto
    with assms(2) d(1) show False
      unfolding distinct_map inj_on_def by (metis comp_apply fst_conv)
  qed
  have new: "hc_generation c \<notin> set (map hc_generation (ad_closed a))"
    using assms(2) d(3) by force
  have sub: "set (map (hc_generation \<circ> fst) ?keep) \<subseteq> set (map (hc_generation \<circ> fst) (ad_closing a))"
    by auto
  have "distinct (retired_generations (deferred_close a c ok))"
    using keep gone new d(2,3) sub
    by (auto simp: deferred_close_def retired_generations_def retired_clients_def)
  moreover have "set (retired_generations (deferred_close a c ok)) \<subseteq> set (retired_generations a)"
  proof -
    have "hc_generation c \<in> set (map (hc_generation \<circ> fst) (ad_closing a))"
      using assms(2) by force
    with sub show ?thesis
      by (auto simp: deferred_close_def retired_generations_def retired_clients_def)
  qed
  ultimately show ?thesis
    using lt by (auto simp: client_inv_def)
qed

lemma adapter_run_clients:
  assumes "adapter_run t (new_adapter k n u r key) oks a"
  shows "client_inv a"
  using assms
proof (induction rule: adapter_run.induct)
  case start
  then show ?case by (simp add: client_inv_def retired_generations_def retired_clients_def new_adapter_def)
qed (auto intro: inv_intros)

text \<open>The number of recoveries of a probe history: successes that follow a lost backend.\<close>

definition lost :: "int \<Rightarrow> bool list \<Rightarrow> bool" where
  "lost t oks \<longleftrightarrow> t \<le> int (fail_streak oks)"

definition recoveries :: "int \<Rightarrow> bool list \<Rightarrow> nat" where
  "recoveries t oks = length (filter (\<lambda>i. oks ! i \<and> lost t (take i oks)) [0..<length oks])"

lemma recoveries_snoc:
  "recoveries t (oks @ [ok]) = recoveries t oks + (if ok \<and> lost t oks then 1 else 0)"
proof -
  have "filter (\<lambda>i. (oks @ [ok]) ! i \<and> lost t (take i (oks @ [ok]))) [0..<length oks]
      = filter (\<lambda>i. oks ! i \<and> lost t (take i oks)) [0..<length oks]"
    by (rule filter_cong) (auto simp: nth_append)
  then show ?thesis by (simp add: recoveries_def)
qed

lemma adapter_run_generation:
  assumes "adapter_run t (new_adapter k n u r key) oks a" "1 \<le> t"
  shows "hc_generation (ad_client a) = recoveries t oks"
  using assms
proof (induction rule: adapter_run.induct)
  case start
  then show ?case by (simp add: new_adapter_def make_client_def recoveries_def)
next
  case (probe oks a ok now)
  then show ?case
    using adapter_run_health [OF probe.hyps probe.prems] by (simp add: recoveries_snoc lost_def)
qed simp

text \<open>
  C31. The health state machine of an adapter, over every interleaving of probes and drained
  closes from construction on: the failure count is the length of the current streak of failed
  probes, the router may dispatch exactly while that streak is below the threshold, the client
  has been rebuilt exactly once per recovery, and no closed or draining client is the one in use
  (each is older than it, and none is retired twice).
\<close>

theorem health_state_machine:
  assumes "adapter_run t (new_adapter k n u r key) oks a" and "1 \<le> t"
  shows "ad_failures a = int (fail_streak oks) \<and>
    (ad_healthy a \<longleftrightarrow> int (fail_streak oks) < t) \<and>
    hc_generation (ad_client a) = recoveries t oks \<and>
    distinct (map hc_generation (retired_clients a)) \<and>
    (\<forall>c \<in> set (retired_clients a). hc_generation c < hc_generation (ad_client a))"
  using adapter_run_health [OF assms] adapter_run_generation [OF assms] adapter_run_clients [OF assms(1)]
  by (auto simp: client_inv_def retired_generations_def)

subsection \<open>Responses: facts\<close>

lemma clamp_unit_range: "\<exists>q. clamp_unit s = Fin q \<and> 0 \<le> q \<and> q \<le> 1"
  by (cases s) (auto simp: clamp_unit_def py_max_def py_min_def)

lemma clamp_unit_id: "0 \<le> q \<Longrightarrow> q \<le> 1 \<Longrightarrow> clamp_unit (Fin q) = Fin q"
  by (auto simp: clamp_unit_def py_max_def py_min_def)

lemma rerank_item_score:
  assumes "rerank_item np a rd item = Inr r"
  shows "0 \<le> score_key r \<and> score_key r \<le> 1 \<and> rs_relevance_score r = Fin (score_key r) \<and>
    (rs_document r \<noteq> None \<longrightarrow> rd)"
proof -
  obtain s where s: "rs_relevance_score r = clamp_unit s" and d: "rs_document r \<noteq> None \<longrightarrow> rd"
    using assms by (auto simp: rerank_item_def rbind_Inr_iff split: json.splits option.splits if_splits)
  obtain q where "clamp_unit s = Fin q" "0 \<le> q" "q \<le> 1"
    using clamp_unit_range by blast
  with s d show ?thesis by (simp add: score_key_def)
qed

lemma sort_by_score_sorted: "sorted_wrt (\<lambda>x y. score_key y \<le> score_key x) (sort_by_score rs)"
  using sorted_sort_key [of "\<lambda>r. - score_key r" rs]
  by (simp add: sort_by_score_def sorted_wrt_map)

lemma sort_by_score_mset [simp]: "mset (sort_by_score rs) = mset rs"
  by (simp add: sort_by_score_def)

lemma sort_by_score_set [simp]: "set (sort_by_score rs) = set rs"
  by (simp add: sort_by_score_def)

lemma sort_by_score_stable:
  "filter (\<lambda>r. score_key r = q) (sort_by_score rs) = filter (\<lambda>r. score_key r = q) rs"
  using sort_key_stable [of "\<lambda>r. - score_key r" "- q" rs]
  by (simp add: sort_by_score_def)

lemma rmap_list_image: "rmap_list f xs = Inr ys \<Longrightarrow> y \<in> set ys \<Longrightarrow> \<exists>x \<in> set xs. f x = Inr y"
  by (induction xs arbitrary: ys) (auto simp: rbind_Inr_iff rmap_Inr_iff)

lemma tei_rerank_results:
  assumes "tei_rerank send np token a request = Inr resp"
  obtains items parsed where "rmap_list (rerank_item np a (rr_return_documents request)) items = Inr parsed"
    and "rp_results resp = (case rr_top_n request of None \<Rightarrow> sort_by_score parsed
      | Some n \<Rightarrow> py_prefix n (sort_by_score parsed))"
proof -
  obtain data where d: "(case data of JList items \<Rightarrow>
      rbind (rmap_list (rerank_item np a (rr_return_documents request)) items)
        (\<lambda>results. Inr \<lparr>rp_id = ''rerank_'' @ token, rp_model = rr_model request,
           rp_results = (case rr_top_n request of None \<Rightarrow> sort_by_score results
             | Some n \<Rightarrow> py_prefix n (sort_by_score results))\<rparr>)
    | _ \<Rightarrow> Inl (Gw (gateway_error GatewayError
             (ad_name a @ '' returned an unexpected /rerank payload'') None None))) = Inr resp"
    using assms unfolding tei_rerank_def Let_def rbind_Inr_iff by blast
  then show ?thesis
    by (cases data) (auto simp: rbind_Inr_iff intro: that)
qed


lemma finalize_object:
  "finalize validate a (JObj d) m =
     (case validate (JObj (AList.update ''metadata''
         (JObj [(''backend'', JStr (ad_name a)), (''response_format_fallback'', JBool False)])
         (AList.update ''model'' (JStr m) d))) of
        Inl exc \<Rightarrow> Inl (Gw (gateway_error GatewayError
          (ad_name a @ '' returned an unparseable response: '' @ exc) None None))
      | Inr resp \<Rightarrow> Inr resp)"
  by (simp add: finalize_def)

text \<open>
  C30. The OpenAI-compatible translation hides the backend's model name in both directions: the
  request that reaches the backend is the client's with only the model name replaced, sent to
  \<open>/chat/completions\<close> with the backend's key and read budget, and a reply that comes back is
  the validated object of the backend in which the model is the platform id the client asked for
  and the metadata names the adapter, whatever the backend wrote there, all else unchanged.
\<close>

theorem openai_chat_translates:
  assumes "openai_chat send validate a request model = Inr resp"
  shows "\<exists>req payload status reply sealed.
    send req = HttpReply status (Inr (JObj reply)) \<and> status < 400 \<and>
    hq_client req = ad_client a \<and> hq_url req = ad_base_url a @ ''/chat/completions'' \<and>
    hq_headers req = adapter_headers a \<and> hq_json req = Some (JObj payload) \<and>
    map_of payload ''model'' = Some (JStr (bm_backend_model_name model)) \<and>
    (\<forall>k. k \<noteq> ''model'' \<longrightarrow> map_of payload k = map_of (dump_chat_request request) k) \<and>
    validate (JObj sealed) = Inr resp \<and>
    map_of sealed ''model'' = Some (JStr (cr_model request)) \<and>
    map_of sealed ''metadata'' = Some (JObj [(''backend'', JStr (ad_name a)),
       (''response_format_fallback'', JBool False)]) \<and>
    (\<forall>k. k \<noteq> ''model'' \<and> k \<noteq> ''metadata'' \<longrightarrow> map_of sealed k = map_of reply k)"
proof -
  define payload where "payload = AList.update ''model'' (JStr (bm_backend_model_name model)) (dump_chat_request request)"
  define req where "req = \<lparr>hq_client = ad_client a, hq_method = ''POST'',
    hq_url = ad_base_url a @ ''/chat/completions'', hq_json = Some (JObj payload), hq_headers = adapter_headers a\<rparr>"
  obtain data where rq: "request_json send a ''POST'' ''/chat/completions'' (Some (JObj payload)) = Inr data"
    and fin: "finalize validate a data (cr_model request) = Inr resp"
    using assms by (auto simp: openai_chat_def Let_def rbind_Inr_iff payload_def)
  obtain reply where data: "data = JObj reply"
    using fin by (cases data) (auto simp: finalize_def)
  obtain status where send: "send req = HttpReply status (Inr (JObj reply))" and st: "status < 400"
    using rq data
    by (auto simp: request_json_def Let_def req_def split: http_outcome.splits if_splits sum.splits)
  define sealed where "sealed = AList.update ''metadata''
     (JObj [(''backend'', JStr (ad_name a)), (''response_format_fallback'', JBool False)])
     (AList.update ''model'' (JStr (cr_model request)) reply)"
  have val: "validate (JObj sealed) = Inr resp"
    using fin by (auto simp: data finalize_object sealed_def split: sum.splits)
  show ?thesis
    by (rule exI [of _ req], rule exI [of _ payload], rule exI [of _ status], rule exI [of _ reply],
        rule exI [of _ sealed])
       (simp add: send st val, simp add: req_def payload_def sealed_def dict_simps)
qed

subsection \<open>Failures: facts\<close>

lemma request_json_fails:
  assumes "request_json send a method path body = Inl x"
  shows "(\<exists>g. x = Gw g \<and> status_code (ge_class g) \<in> {400, 503, 504}) \<or>
    (\<exists>e req. x = Py e \<and> (send req = HttpRaises e \<or> (\<exists>st. st < 400 \<and> send req = HttpReply st (Inl e))))"
  using assms
  by (force simp: request_json_def Let_def backend_timeout_def backend_unavailable_def gateway_error_def
      split: http_outcome.splits if_splits sum.splits)

lemma finalize_fails:
  "finalize validate a data m = Inl x \<Longrightarrow> \<exists>g. x = Gw g \<and> ge_class g = GatewayError"
  by (auto simp: finalize_def Let_def gateway_error_def split: json.splits sum.splits)

lemma adapter_chat_fails:
  assumes "adapter_chat send validate a request model = Inl x"
  shows "(\<exists>g. x = Gw g \<and> status_code (ge_class g) \<in> {400, 500, 503, 504}) \<or>
    (\<exists>e req. x = Py e \<and> (send req = HttpRaises e \<or> (\<exists>st. st < 400 \<and> send req = HttpReply st (Inl e))))"
proof (cases "ad_kind a \<in> {OpenAICompat, Vllm}")
  case True
  then have "openai_chat send validate a request model = Inl x"
    using assms by (auto simp: adapter_chat_def)
  then show ?thesis
    by (auto simp: openai_chat_def Let_def rbind_Inl_iff dest!: request_json_fails finalize_fails)
next
  case False
  then show ?thesis
    using assms by (cases "ad_kind a") (auto simp: adapter_chat_def unsupported_def gateway_error_def)
qed

text \<open>A rerank item without a score is not reported as a gateway error.\<close>

lemma rerank_missing_score_escapes:
  assumes "map_of obj ''index'' = Some (JInt i)" "map_of obj ''score'' = None"
    and "send = (\<lambda>_. HttpReply 200 (Inr (JList [JObj obj])))"
  shows "tei_rerank send np token a request = Inl (Py (KeyError ''score''))"
  using assms by (simp add: tei_rerank_def request_json_def rerank_item_def item_get_def lift_py_def Let_def)

subsection \<open>Witnesses\<close>

definition sample_adapter :: "adapter_kind \<Rightarrow> BackendAdapter" where
  "sample_adapter kind = new_adapter kind ''tpro'' ''http://tpro:8080/v1/'' 900 (Some ''k'')"

lemma sample_adapter_url: "ad_base_url (sample_adapter kind) = ''http://tpro:8080/v1''"
  by (simp add: sample_adapter_def new_adapter_def rstrip_where_def)

lemma health_state_machine_witness:
  "ad_failures (probe_step 2 (probe_step 2 (sample_adapter Vllm) (1, False)) (2, False)) = 2 \<and>
   \<not> ad_healthy (probe_step 2 (probe_step 2 (sample_adapter Vllm) (1, False)) (2, False))"
proof -
  let ?a1 = "probe_step 2 (sample_adapter Vllm) (1, False)"
  have "adapter_run 2 (sample_adapter Vllm) ([] @ [False]) ?a1"
    by (intro adapter_run.probe adapter_run.start)
  then have "adapter_run 2 (sample_adapter Vllm) (([] @ [False]) @ [False]) (probe_step 2 ?a1 (2, False))"
    by (rule adapter_run.probe)
  from health_state_machine [OF this [unfolded sample_adapter_def]] show ?thesis
    by (simp add: fail_streak_def sample_adapter_def)
qed

definition sample_rerank_request :: RerankRequest where
  "sample_rerank_request = \<lparr>rr_model = ''bge'', rr_query = ''q'', rr_documents = [''a'', ''b''],
     rr_top_n = Some 1, rr_return_documents = False\<rparr>"

definition sample_item :: "int \<Rightarrow> pyfloat \<Rightarrow> json" where
  "sample_item i q = JObj [(''index'', JInt i), (''score'', JFloat q)]"

definition no_parsers :: number_parsers where
  "no_parsers = \<lparr>np_float = (\<lambda>s. Inl (ValueError s)), np_int = (\<lambda>s. Inl (ValueError s)), np_repr = (\<lambda>v. [])\<rparr>"

lemma sample_rerank_runs:
  "tei_rerank (\<lambda>_. HttpReply 200 (Inr (JList [sample_item 0 (Fin (1/5)), sample_item 1 Nan])))
     no_parsers ''t'' (sample_adapter TeiRerank) sample_rerank_request =
   Inr \<lparr>rp_id = ''rerank_t'', rp_model = ''bge'',
     rp_results = [\<lparr>rs_index = 1, rs_relevance_score = Fin 1, rs_document = None\<rparr>]\<rparr>"
  by (simp add: tei_rerank_def sample_rerank_request_def request_json_def rerank_item_def
      sample_item_def item_get_def lift_py_def clamp_unit_def py_min_def py_max_def
      sort_by_score_def score_key_def py_prefix_def Let_def)


definition sample_chat_request :: ChatCompletionRequest where
  "sample_chat_request = \<lparr>cr_model = ''t-pro'',
     cr_messages = [\<lparr>cm_role = User, cm_content = ''hi'', cm_name = None\<rparr>],
     cr_temperature = Fin 1, cr_top_p = Fin 1, cr_max_tokens = None, cr_stop = None,
     cr_seed = None, cr_n = 1, cr_response_format = None\<rparr>"

definition sample_backend_model :: BackendModel where
  "sample_backend_model = \<lparr>bm_id = ''t-pro'', bm_backend_model_name = ''T-pro.gguf'',
     bm_capabilities = [Chat]\<rparr>"

text \<open>A validator that reads the model and leaves the rest fixed.\<close>

definition sample_validate :: "json \<Rightarrow> string + ChatCompletionResponse" where
  "sample_validate v = (case v of
       JObj d \<Rightarrow> (case map_of d ''model'' of
           Some (JStr m) \<Rightarrow> Inr \<lparr>cp_id = ''c'', cp_created = 0, cp_model = m, cp_choices = [],
             cp_usage = \<lparr>us_prompt_tokens = 0, us_completion_tokens = 0, us_total_tokens = 0\<rparr>,
             cp_metadata = \<lparr>gm_backend = ''tpro'', gm_response_format_fallback = False, gm_tenant_id = None\<rparr>\<rparr>
         | _ \<Rightarrow> Inl ''model'')
     | _ \<Rightarrow> Inl ''object'')"

lemma sample_chat_runs:
  "\<exists>resp. openai_chat (\<lambda>_. HttpReply 200 (Inr (JObj [(''model'', JStr ''T-pro.gguf'')]))) sample_validate
     (sample_adapter Vllm) sample_chat_request sample_backend_model = Inr resp \<and> cp_model resp = ''t-pro''"
  by (simp add: openai_chat_def request_json_def finalize_def sample_validate_def Let_def
      sample_chat_request_def)

lemma openai_chat_translates_witness:
  "\<exists>(req :: http_request) payload. hq_json req = Some (JObj payload) \<and> map_of payload ''model'' = Some (JStr ''T-pro.gguf'') \<and>
     hq_url req = ''http://tpro:8080/v1/chat/completions''"
proof -
  obtain resp where "openai_chat (\<lambda>_. HttpReply 200 (Inr (JObj [(''model'', JStr ''T-pro.gguf'')]))) sample_validate
     (sample_adapter Vllm) sample_chat_request sample_backend_model = Inr resp"
    using sample_chat_runs by blast
  from openai_chat_translates [OF this] show ?thesis
  proof (elim exE conjE, goal_cases)
    case (1 req payload status reply sealed)
    show ?case
      by (rule exI [of _ req], rule exI [of _ payload])
         (simp add: 1(4,6,7) sample_adapter_url sample_backend_model_def)
  qed
qed

end
