(* ===== verification/Registry.thy ===== *)
theory Registry
  imports Backend Tenant_Store
begin

text \<open>
  The backend registry (\<open>app/routing/registry.py\<close>): the schema of \<open>backends.yaml\<close>, the index
  from model ids to adapters, and the model listing. Adapters are objects shared between the
  index and the adapter list, so the index holds positions in that list.
\<close>

subsection \<open>The schema of backends.yaml\<close>

record ModelConfig =
  mc_id :: string
  mc_backend_model_name :: string
  mc_capabilities :: "Capability list"
  mc_notes :: "string option"

record BackendConfig =
  bc_name :: string
  bc_kind :: string
  bc_base_url :: string
  bc_timeout_seconds :: "int option"
  bc_api_key_env :: "string option"
  bc_models :: "ModelConfig list"

type_synonym BackendsConfig = "BackendConfig list"

definition valid_backends_config :: "BackendsConfig \<Rightarrow> bool" where
  "valid_backends_config cfg \<longleftrightarrow> (\<forall>b \<in> set cfg. 1 \<le> length (bc_models b))"

definition adapter_kinds :: "(string, adapter_kind) pydict" where
  "adapter_kinds =
     [(''openai_compat'', OpenAICompat), (''vllm'', Vllm), (''tei'', Tei),
      (''tei_rerank'', TeiRerank), (''anthropic'', Anthropic)]"

subsection \<open>The registry\<close>

record Registry =
  rg_adapters :: "BackendAdapter list"
  rg_by_model :: "(string, nat \<times> BackendModel) pydict"
  rg_model_meta :: "(string, ModelConfig) pydict"

datatype registry_exn = RegistryError string | RegistryPy exn

definition empty_registry :: Registry where
  "empty_registry = \<lparr>rg_adapters = [], rg_by_model = [], rg_model_meta = []\<rparr>"

definition build_adapter ::
  "(string \<Rightarrow> string option) \<Rightarrow> rat \<Rightarrow> BackendConfig \<Rightarrow> registry_exn + BackendAdapter"
where
  "build_adapter getenv request_timeout_seconds b =
     (case map_of adapter_kinds (bc_kind b) of
        None \<Rightarrow> Inl (RegistryError (''backend '' @ [CHR 0x27] @ bc_name b @ [CHR 0x27] @ '': unknown kind ''
                  @ [CHR 0x27] @ bc_kind b @ [CHR 0x27]))
      | Some kind \<Rightarrow>
          (let api_key = (if truthy (bc_api_key_env b) then getenv (the (bc_api_key_env b)) else None);
               timeout = (case bc_timeout_seconds b of
                 Some t \<Rightarrow> of_int t | None \<Rightarrow> request_timeout_seconds)
           in Inr (new_adapter kind (bc_name b) (bc_base_url b) timeout api_key)))"

definition add_model :: "nat \<Rightarrow> Registry \<Rightarrow> ModelConfig \<Rightarrow> registry_exn + Registry" where
  "add_model i reg m =
     (if mc_id m \<in> set (dict_keys (rg_by_model reg))
      then Inl (RegistryError (''duplicate model id: '' @ mc_id m))
      else Inr (reg\<lparr>
        rg_by_model := AList.update (mc_id m)
          (i, \<lparr>bm_id = mc_id m, bm_backend_model_name = mc_backend_model_name m,
               bm_capabilities = mc_capabilities m\<rparr>) (rg_by_model reg),
        rg_model_meta := AList.update (mc_id m) m (rg_model_meta reg)\<rparr>))"

fun add_models :: "nat \<Rightarrow> Registry \<Rightarrow> ModelConfig list \<Rightarrow> registry_exn + Registry" where
  "add_models i reg [] = Inr reg"
| "add_models i reg (m # ms) = rbind (add_model i reg m) (\<lambda>reg'. add_models i reg' ms)"

fun registry_build ::
  "(string \<Rightarrow> string option) \<Rightarrow> rat \<Rightarrow> Registry \<Rightarrow> BackendsConfig \<Rightarrow> registry_exn + Registry"
where
  "registry_build getenv timeout reg [] = Inr reg"
| "registry_build getenv timeout reg (b # bs) =
     rbind (build_adapter getenv timeout b) (\<lambda>adapter.
       rbind (add_models (length (rg_adapters reg))
                (reg\<lparr>rg_adapters := rg_adapters reg @ [adapter]\<rparr>) (bc_models b))
         (\<lambda>reg'. registry_build getenv timeout reg' bs))"

definition from_config ::
  "(string \<Rightarrow> string option) \<Rightarrow> rat \<Rightarrow> BackendsConfig \<Rightarrow> registry_exn + Registry"
where
  "from_config getenv timeout cfg = registry_build getenv timeout empty_registry cfg"

text \<open>
  \<open>yaml.safe_load\<close> and Pydantic's validation are parameters; \<open>x or {}\<close> replaces a false value.
  \<open>file\<close> is the file's text, when it exists, or what reading it raised.
\<close>

fun json_truthy :: "json \<Rightarrow> bool" where
  "json_truthy JNull = False"
| "json_truthy (JBool b) = b"
| "json_truthy (JInt i) = (i \<noteq> 0)"
| "json_truthy (JFloat f) = (f \<noteq> Fin 0)"
| "json_truthy (JStr s) = (s \<noteq> [])"
| "json_truthy (JList xs) = (xs \<noteq> [])"
| "json_truthy (JObj d) = (d \<noteq> [])"

definition registry_load ::
  "(string \<Rightarrow> string + json) \<Rightarrow> (json \<Rightarrow> string + BackendsConfig) \<Rightarrow> (string \<Rightarrow> string option) \<Rightarrow> string
    \<Rightarrow> (exn + string) option \<Rightarrow> rat \<Rightarrow> registry_exn + Registry"
where
  "registry_load yaml validate getenv path file timeout =
     (case file of
        None \<Rightarrow> Inr empty_registry
      | Some (Inl e) \<Rightarrow> Inl (RegistryPy e)
      | Some (Inr contents) \<Rightarrow>
          (case rbind (yaml contents) (\<lambda>raw. validate (if json_truthy raw then raw else JObj [])) of
             Inl exc \<Rightarrow> Inl (RegistryError (''invalid backends config '' @ path @ '': '' @ exc))
           | Inr config \<Rightarrow> registry_build getenv timeout empty_registry config))"

definition get_backend_for :: "Registry \<Rightarrow> string \<Rightarrow> gw_exn + nat \<times> BackendModel" where
  "get_backend_for reg model_id =
     (case map_of (rg_by_model reg) model_id of
        None \<Rightarrow> Inl (Gw (model_not_found (''Model not found: '' @ model_id)))
      | Some entry \<Rightarrow> Inr entry)"

definition visible_to :: "TenantRecord \<Rightarrow> string \<Rightarrow> bool" where
  "visible_to tenant model_id \<longleftrightarrow> ''*'' \<in> set (t_allowed_models tenant) \<or> model_id \<in> set (t_allowed_models tenant)"

definition models_for :: "Registry \<Rightarrow> TenantRecord \<Rightarrow> exn + Model list" where
  "models_for reg tenant =
     rmap_list (\<lambda>(model_id, (i, backend_model)).
         case map_of (rg_model_meta reg) model_id of
           None \<Rightarrow> Inl (KeyError model_id)
         | Some meta \<Rightarrow> Inr \<lparr>m_id = model_id, m_owned_by = ad_name (rg_adapters reg ! i),
                           m_capabilities = mc_capabilities meta\<rparr>)
       (filter (\<lambda>e. visible_to tenant (fst e)) (rg_by_model reg))"

definition registry_aclose :: "Registry \<Rightarrow> Registry" where
  "registry_aclose reg = reg\<lparr>rg_adapters := map adapter_aclose (rg_adapters reg)\<rparr>"

subsection \<open>Facts\<close>

text \<open>What the declarations of a configuration are, in order: position, backend, model.\<close>

definition declared :: "nat \<Rightarrow> BackendsConfig \<Rightarrow> (nat \<times> ModelConfig) list" where
  "declared n cfg = concat (map (\<lambda>(i, b). map (\<lambda>m. (i, m)) (bc_models b)) (enumerate n cfg))"

definition index_entry :: "nat \<times> ModelConfig \<Rightarrow> string \<times> nat \<times> BackendModel" where
  "index_entry im = (mc_id (snd im), fst im, \<lparr>bm_id = mc_id (snd im),
     bm_backend_model_name = mc_backend_model_name (snd im), bm_capabilities = mc_capabilities (snd im)\<rparr>)"

definition meta_entry :: "nat \<times> ModelConfig \<Rightarrow> string \<times> ModelConfig" where
  "meta_entry im = (mc_id (snd im), snd im)"

definition reg_of :: "BackendAdapter list \<Rightarrow> (nat \<times> ModelConfig) list \<Rightarrow> Registry" where
  "reg_of adapters entries =
     \<lparr>rg_adapters = adapters, rg_by_model = map index_entry entries, rg_model_meta = map meta_entry entries\<rparr>"

lemma declared_Nil [simp]: "declared n [] = []"
  by (simp add: declared_def)

lemma declared_Cons [simp]: "declared n (b # bs) = map (\<lambda>m. (n, m)) (bc_models b) @ declared (Suc n) bs"
  by (simp add: declared_def)

lemma reg_of_keys [simp]:
  "dict_keys (rg_by_model (reg_of as es)) = map (mc_id \<circ> snd) es"
  "dict_keys (rg_model_meta (reg_of as es)) = map (mc_id \<circ> snd) es"
  by (simp_all add: reg_of_def index_entry_def meta_entry_def)

lemma update_absent: "k \<notin> set (dict_keys d) \<Longrightarrow> AList.update k v d = d @ [(k, v)]"
  by (simp add: update_new map_of_eq_None_iff)

lemma add_model_reg_of:
  "add_model i (reg_of as es) m =
     (if mc_id m \<in> set (map (mc_id \<circ> snd) es) then Inl (RegistryError (''duplicate model id: '' @ mc_id m))
      else Inr (reg_of as (es @ [(i, m)])))"
proof (cases "mc_id m \<in> set (map (mc_id \<circ> snd) es)")
  case True
  then show ?thesis by (simp add: add_model_def del: set_map)
next
  case False
  have "AList.update (mc_id m) v (map index_entry es) = map index_entry es @ [(mc_id m, v)]" for v
    using False by (intro update_absent) (auto simp: index_entry_def)
  moreover have "AList.update (mc_id m) v (map meta_entry es) = map meta_entry es @ [(mc_id m, v)]" for v
    using False by (intro update_absent) (auto simp: meta_entry_def)
  ultimately show ?thesis
    using False by (simp add: add_model_def del: set_map) (simp add: reg_of_def index_entry_def meta_entry_def)
qed

lemma add_models_reg_of:
  "add_models i (reg_of as es) ms = Inr reg \<longleftrightarrow>
     distinct (map mc_id ms) \<and> set (map mc_id ms) \<inter> set (map (mc_id \<circ> snd) es) = {} \<and>
     reg = reg_of as (es @ map (\<lambda>m. (i, m)) ms)"
proof (induction ms arbitrary: es)
  case Nil
  then show ?case by auto
next
  case (Cons m ms)
  show ?case
    using Cons.IH [of "es @ [(i, m)]"] by (auto simp: add_model_reg_of)
qed

lemma reg_of_snoc_adapter: "(reg_of as es)\<lparr>rg_adapters := as @ [a]\<rparr> = reg_of (as @ [a]) es"
  by (simp add: reg_of_def)

lemma reg_of_adapters [simp]: "rg_adapters (reg_of as es) = as"
  by (simp add: reg_of_def)

lemma build_reg_of:
  "registry_build getenv timeout (reg_of as es) cfg = Inr reg \<longleftrightarrow>
     (\<exists>bs. rmap_list (build_adapter getenv timeout) cfg = Inr bs \<and>
        distinct (map (mc_id \<circ> snd) (declared (length as) cfg)) \<and>
        set (map (mc_id \<circ> snd) (declared (length as) cfg)) \<inter> set (map (mc_id \<circ> snd) es) = {} \<and>
        reg = reg_of (as @ bs) (es @ declared (length as) cfg))"
proof (induction cfg arbitrary: as es)
  case Nil
  then show ?case by auto
next
  case (Cons b cfg)
  show ?case
  proof (cases "build_adapter getenv timeout b")
    case (Inl e)
    then show ?thesis by simp
  next
    case (Inr a)
    let ?ms = "map (\<lambda>m. (length as, m)) (bc_models b)"
    have ids: "map (mc_id \<circ> snd) ?ms = map mc_id (bc_models b)" by simp
    have "registry_build getenv timeout (reg_of as es) (b # cfg) = Inr reg \<longleftrightarrow>
        distinct (map mc_id (bc_models b)) \<and>
        set (map mc_id (bc_models b)) \<inter> set (map (mc_id \<circ> snd) es) = {} \<and>
        registry_build getenv timeout (reg_of (as @ [a]) (es @ ?ms)) cfg = Inr reg"
      by (simp add: Inr reg_of_snoc_adapter rbind_Inr_iff add_models_reg_of conj_assoc
          del: set_map)
    also have "\<dots> \<longleftrightarrow> (\<exists>bs. rmap_list (build_adapter getenv timeout) (b # cfg) = Inr bs \<and>
        distinct (map (mc_id \<circ> snd) (declared (length as) (b # cfg))) \<and>
        set (map (mc_id \<circ> snd) (declared (length as) (b # cfg))) \<inter> set (map (mc_id \<circ> snd) es) = {} \<and>
        reg = reg_of (as @ bs) (es @ declared (length as) (b # cfg)))"
    proof -
      let ?E = "map (mc_id \<circ> snd) es" and ?A = "map mc_id (bc_models b)"
        and ?B = "map (mc_id \<circ> snd) (declared (Suc (length as)) cfg)"
      have keys: "map (mc_id \<circ> snd) (declared (length as) (b # cfg)) = ?A @ ?B"
        by (simp add: comp_def)
      have IH: "registry_build getenv timeout (reg_of (as @ [a]) (es @ ?ms)) cfg = Inr reg \<longleftrightarrow>
          (\<exists>bs. rmap_list (build_adapter getenv timeout) cfg = Inr bs \<and> distinct ?B \<and>
             set ?B \<inter> set (?E @ ?A) = {} \<and> reg = reg_of (as @ a # bs) (es @ declared (length as) (b # cfg)))"
        using Cons.IH [of "as @ [a]" "es @ ?ms"] by (simp add: comp_def)
      have dis: "distinct ?A \<and> set ?A \<inter> set ?E = {} \<and> distinct ?B \<and> set ?B \<inter> set (?E @ ?A) = {} \<longleftrightarrow>
          distinct (?A @ ?B) \<and> set (?A @ ?B) \<inter> set ?E = {}"
        unfolding distinct_append set_append by blast
      have step: "(\<exists>bs. rmap_list (build_adapter getenv timeout) (b # cfg) = Inr bs \<and> P bs) \<longleftrightarrow>
          (\<exists>bs. rmap_list (build_adapter getenv timeout) cfg = Inr bs \<and> P (a # bs))" for P
        by (auto simp: Inr rmap_Inr_iff)
      have regroup: "(d1 \<and> d2 \<and> (\<exists>bs. R bs \<and> d3 \<and> d4 \<and> S bs)) \<longleftrightarrow> (\<exists>bs. R bs \<and> d5 \<and> d6 \<and> S bs)"
        if "d1 \<and> d2 \<and> d3 \<and> d4 \<longleftrightarrow> d5 \<and> d6" for d1 d2 d3 d4 d5 d6 and R S :: "BackendAdapter list \<Rightarrow> bool"
        using that by blast
      show ?thesis
        unfolding IH keys step by (rule regroup [OF dis])
    qed
    finally show ?thesis .
  qed
qed

lemma empty_reg_of: "empty_registry = reg_of [] []"
  by (simp add: empty_registry_def reg_of_def)

lemma from_config_iff:
  "from_config getenv timeout cfg = Inr reg \<longleftrightarrow>
     (\<exists>as. rmap_list (build_adapter getenv timeout) cfg = Inr as \<and>
        distinct (map (mc_id \<circ> snd) (declared 0 cfg)) \<and> reg = reg_of as (declared 0 cfg))"
  by (simp add: from_config_def empty_reg_of build_reg_of)

lemma map_declared: "map (mc_id \<circ> snd) (declared n cfg) = concat (map (map mc_id \<circ> bc_models) cfg)"
  by (induction cfg arbitrary: n) (simp_all add: comp_def)

lemma in_declared:
  "(i, m) \<in> set (declared n cfg) \<longleftrightarrow> n \<le> i \<and> i - n < length cfg \<and> m \<in> set (bc_models (cfg ! (i - n)))"
proof (induction cfg arbitrary: n)
  case (Cons b cfg)
  consider "i < n" | "i = n" | "n < i" by linarith
  then show ?case
  proof cases
    case 1
    with Cons.IH [of "Suc n"] show ?thesis by auto
  next
    case 2
    with Cons.IH [of "Suc n"] show ?thesis by auto
  next
    case 3
    then have "i - n = Suc (i - Suc n)" by simp
    with 3 Cons.IH [of "Suc n"] show ?thesis by auto
  qed
qed simp

lemma build_adapter_ok: "is_ok (build_adapter getenv timeout b) \<longleftrightarrow> bc_kind b \<in> set (dict_keys adapter_kinds)"
  by (auto simp: build_adapter_def Let_def adapter_kinds_def)

lemma rmap_list_ok: "is_ok (rmap_list f xs) \<longleftrightarrow> (\<forall>x \<in> set xs. is_ok (f x))"
proof (induction xs)
  case (Cons x xs)
  then show ?case by (cases "f x"; cases "rmap_list f xs") auto
qed simp

lemma is_ok_iff: "is_ok r \<longleftrightarrow> (\<exists>a. r = Inr a)"
  by (cases r) auto

text \<open>
  A configuration loads exactly when every backend is of a known kind and no model id is
  declared twice anywhere in it; otherwise the error is a \<open>RegistryError\<close>, never another
  exception.
\<close>

theorem from_config_accepts:
  "(\<exists>reg. from_config getenv timeout cfg = Inr reg) \<longleftrightarrow>
     (\<forall>b \<in> set cfg. bc_kind b \<in> set (dict_keys adapter_kinds)) \<and>
     distinct (concat (map (map mc_id \<circ> bc_models) cfg))"
proof -
  have "(\<exists>reg. from_config getenv timeout cfg = Inr reg) \<longleftrightarrow>
     is_ok (rmap_list (build_adapter getenv timeout) cfg) \<and> distinct (map (mc_id \<circ> snd) (declared 0 cfg))"
    by (auto simp: from_config_iff is_ok_iff)
  then show ?thesis by (simp add: rmap_list_ok build_adapter_ok map_declared)
qed

text \<open>The invariant of a loaded registry.\<close>

definition reg_inv :: "Registry \<Rightarrow> bool" where
  "reg_inv reg \<longleftrightarrow>
     wf_dict (rg_by_model reg) \<and> dict_keys (rg_model_meta reg) = dict_keys (rg_by_model reg) \<and>
     (\<forall>(k, i, bm) \<in> set (rg_by_model reg). i < length (rg_adapters reg) \<and> bm_id bm = k \<and>
        (\<exists>m. map_of (rg_model_meta reg) k = Some m \<and> bm_capabilities bm = mc_capabilities m))"

lemma from_config_inv:
  assumes "from_config getenv timeout cfg = Inr reg"
  shows "reg_inv reg"
proof -
  obtain as where as: "rmap_list (build_adapter getenv timeout) cfg = Inr as"
    and d: "distinct (map (mc_id \<circ> snd) (declared 0 cfg))" and reg: "reg = reg_of as (declared 0 cfg)"
    using assms by (auto simp: from_config_iff)
  have meta: "map_of (rg_model_meta reg) (mc_id (snd im)) = Some (snd im)" if "im \<in> set (declared 0 cfg)" for im
  proof (rule map_of_is_SomeI)
    show "distinct (map fst (rg_model_meta reg))" using d by (simp add: reg)
    show "(mc_id (snd im), snd im) \<in> set (rg_model_meta reg)"
      using that by (force simp: reg reg_of_def meta_entry_def)
  qed
  have "i < length (rg_adapters reg) \<and> bm_id bm = k \<and>
      (\<exists>m. map_of (rg_model_meta reg) k = Some m \<and> bm_capabilities bm = mc_capabilities m)"
    if mem: "(k, i, bm) \<in> set (rg_by_model reg)" for k i bm
  proof -
    obtain m where m: "(i, m) \<in> set (declared 0 cfg)" and e: "(k, i, bm) = index_entry (i, m)"
      using mem by (auto simp: reg reg_of_def index_entry_def)
    from m have "i < length as"
      using rmap_list_length [OF as] by (simp add: in_declared)
    with e meta [OF m] show ?thesis by (simp add: index_entry_def reg)
  qed
  with d show ?thesis by (auto simp: reg_inv_def wf_dict_def reg)
qed

text \<open>
  A loaded registry resolves a model id to the backend that declares it, and nothing else:
  the entry carries that declaration's backend name and capabilities, and the adapter at that
  position was built from that backend's entry (kind, base URL without trailing slashes, read
  budget, API key of the environment).
\<close>

theorem registry_resolves:
  assumes "from_config getenv timeout cfg = Inr reg"
  shows "length (rg_adapters reg) = length cfg \<and>
    (\<forall>i < length cfg. build_adapter getenv timeout (cfg ! i) = Inr (rg_adapters reg ! i)) \<and>
    (get_backend_for reg model_id = Inr (i, bm) \<longleftrightarrow>
       i < length cfg \<and> (\<exists>m \<in> set (bc_models (cfg ! i)). mc_id m = model_id \<and>
         bm = \<lparr>bm_id = model_id, bm_backend_model_name = mc_backend_model_name m,
               bm_capabilities = mc_capabilities m\<rparr>))"
proof -
  obtain as where as: "rmap_list (build_adapter getenv timeout) cfg = Inr as"
    and d: "distinct (map (mc_id \<circ> snd) (declared 0 cfg))" and reg: "reg = reg_of as (declared 0 cfg)"
    using assms by (auto simp: from_config_iff)
  have ad: "rg_adapters reg = as" by (simp add: reg)
  have "get_backend_for reg model_id = Inr (i, bm) \<longleftrightarrow> map_of (rg_by_model reg) model_id = Some (i, bm)"
    by (auto simp: get_backend_for_def split: option.splits)
  also have "\<dots> \<longleftrightarrow> (model_id, i, bm) \<in> set (rg_by_model reg)"
    using d by (intro map_of_eq_Some_iff) (simp add: reg)
  also have "\<dots> \<longleftrightarrow> (\<exists>m. (i, m) \<in> set (declared 0 cfg) \<and> mc_id m = model_id \<and>
         bm = \<lparr>bm_id = model_id, bm_backend_model_name = mc_backend_model_name m,
               bm_capabilities = mc_capabilities m\<rparr>)"
    by (force simp: reg reg_of_def index_entry_def image_iff)
  finally show ?thesis
    using rmap_list_length [OF as] rmap_list_nth [OF as] by (auto simp: ad in_declared)
qed

lemma models_for_ok:
  assumes "reg_inv reg"
  shows "models_for reg tenant = Inr (map (\<lambda>(k, i, bm). \<lparr>m_id = k, m_owned_by = ad_name (rg_adapters reg ! i),
      m_capabilities = bm_capabilities bm\<rparr>) (filter (\<lambda>e. visible_to tenant (fst e)) (rg_by_model reg)))"
proof -
  have ok: "rmap_list f xs = Inr (map g xs)" if "\<forall>x \<in> set xs. f x = Inr (g x)"
    for f :: "string \<times> nat \<times> BackendModel \<Rightarrow> exn + Model" and g xs
    using that by (induction xs) auto
  show ?thesis
    unfolding models_for_def using assms
    by (intro ok) (fastforce simp: reg_inv_def)
qed

text \<open>
  The model listing of a tenant: each registered model the tenant may use, once, in
  declaration order, owned by the adapter that would serve it and with the capabilities the
  router checks; no other model, and no exception.
\<close>

theorem models_for_lists_permitted:
  assumes "reg_inv reg"
  shows "\<exists>ms. models_for reg tenant = Inr ms \<and>
    map m_id ms = filter (visible_to tenant) (dict_keys (rg_by_model reg)) \<and> distinct (map m_id ms) \<and>
    (\<forall>m \<in> set ms. \<exists>i bm. get_backend_for reg (m_id m) = Inr (i, bm) \<and> i < length (rg_adapters reg) \<and>
       m_owned_by m = ad_name (rg_adapters reg ! i) \<and> m_capabilities m = bm_capabilities bm)"
proof -
  let ?f = "\<lambda>(k, i, bm). \<lparr>m_id = k, m_owned_by = ad_name (rg_adapters reg ! i), m_capabilities = bm_capabilities bm\<rparr>"
  let ?es = "filter (\<lambda>e. visible_to tenant (fst e)) (rg_by_model reg)"
  have wf: "distinct (dict_keys (rg_by_model reg))"
    using assms by (simp add: reg_inv_def wf_dict_def)
  have "map m_id (map ?f ?es) = map fst ?es"
    by (simp add: case_prod_unfold)
  also have "\<dots> = filter (visible_to tenant) (dict_keys (rg_by_model reg))"
    by (simp add: filter_map comp_def)
  finally have ids: "map m_id (map ?f ?es) = filter (visible_to tenant) (dict_keys (rg_by_model reg))" .
  have "\<exists>i bm. get_backend_for reg (m_id (?f e)) = Inr (i, bm) \<and> i < length (rg_adapters reg) \<and>
       m_owned_by (?f e) = ad_name (rg_adapters reg ! i) \<and> m_capabilities (?f e) = bm_capabilities bm"
    if "e \<in> set (rg_by_model reg)" for e
  proof (cases e)
    case (fields k i bm)
    then have "map_of (rg_by_model reg) k = Some (i, bm)"
      using that wf by simp
    moreover have "i < length (rg_adapters reg)"
      using assms that fields by (auto simp: reg_inv_def)
    ultimately show ?thesis
      by (intro exI [of _ i] exI [of _ bm]) (simp add: fields get_backend_for_def)
  qed
  then show ?thesis
    using ids wf by (intro exI [of _ "map ?f ?es"]) (auto simp: models_for_ok [OF assms])
qed

subsection \<open>Witnesses\<close>

definition sample_config :: BackendsConfig where
  "sample_config =
     [\<lparr>bc_name = ''tpro'', bc_kind = ''openai_compat'', bc_base_url = ''http://tpro/'', bc_timeout_seconds = None,
       bc_api_key_env = None, bc_models =
         [\<lparr>mc_id = ''t-pro'', mc_backend_model_name = ''T-pro.gguf'', mc_capabilities = [Chat], mc_notes = None\<rparr>]\<rparr>,
      \<lparr>bc_name = ''bge'', bc_kind = ''tei'', bc_base_url = ''http://bge'', bc_timeout_seconds = Some 60,
       bc_api_key_env = None, bc_models =
         [\<lparr>mc_id = ''bge-m3'', mc_backend_model_name = ''bge'', mc_capabilities = [Embeddings], mc_notes = None\<rparr>]\<rparr>]"

definition sample_registry :: Registry where
  "sample_registry = reg_of
     [new_adapter OpenAICompat ''tpro'' ''http://tpro/'' 900 None, new_adapter Tei ''bge'' ''http://bge'' 60 None]
     (declared 0 sample_config)"

lemma sample_registry_loads: "from_config (\<lambda>_. None) 900 sample_config = Inr sample_registry"
  by (simp add: from_config_iff sample_registry_def sample_config_def build_adapter_def
      adapter_kinds_def truthy_def)

lemma from_config_accepts_witness:
  "\<exists>reg. from_config (\<lambda>_. None) 900 sample_config = Inr reg"
  using from_config_accepts [of "\<lambda>_. None" 900 sample_config]
  by (simp add: sample_config_def adapter_kinds_def)

lemma registry_resolves_witness:
  "get_backend_for sample_registry ''bge-m3'' = Inr (1, \<lparr>bm_id = ''bge-m3'', bm_backend_model_name = ''bge'',
     bm_capabilities = [Embeddings]\<rparr>)"
  using registry_resolves [OF sample_registry_loads, of "''bge-m3''" 1]
  by (simp add: sample_config_def)

lemma models_for_lists_permitted_witness:
  "\<exists>ms. models_for sample_registry (row_to_record sample_row) = Inr ms \<and> map m_id ms = [''t-pro'', ''bge-m3'']"
  using models_for_lists_permitted [OF from_config_inv [OF sample_registry_loads], of "row_to_record sample_row"]
  by (auto simp: sample_registry_def sample_config_def reg_of_def index_entry_def visible_to_def
      row_to_record_def sample_row_def)

end
