(* ===== verification/Health.thy ===== *)
theory Health
  imports Registry
begin

text \<open>
  The background health checker (\<open>app/routing/health.py\<close>). A round probes every adapter of the
  registry; the outside world of round and adapter is the network and the clock.
\<close>

record HealthChecker =
  hk_interval :: int
  hk_threshold :: int
  hk_running :: bool

type_synonym probe_env = "(http_request \<Rightarrow> http_outcome) \<times> int"

definition health_checker :: "int \<Rightarrow> int \<Rightarrow> HealthChecker" where
  "health_checker interval_seconds unhealthy_threshold =
     \<lparr>hk_interval = interval_seconds, hk_threshold = unhealthy_threshold, hk_running = False\<rparr>"

definition check_adapter :: "int \<Rightarrow> probe_env \<Rightarrow> BackendAdapter \<Rightarrow> BackendAdapter" where
  "check_adapter threshold env a =
     (let ok = (case adapter_health (fst env) a of Inl exc \<Rightarrow> False | Inr b \<Rightarrow> b);
          (a1, recovered) = record_health threshold (snd env) a ok
      in if recovered then reconnect a1 else a1)"

definition check_once :: "int \<Rightarrow> (nat \<Rightarrow> probe_env) \<Rightarrow> Registry \<Rightarrow> Registry" where
  "check_once threshold env reg =
     reg\<lparr>rg_adapters := map (\<lambda>(i, a). check_adapter threshold (env i) a) (enumerate 0 (rg_adapters reg))\<rparr>"

text \<open>The loop, cut after the given rounds.\<close>

fun health_loop :: "int \<Rightarrow> (nat \<Rightarrow> probe_env) list \<Rightarrow> Registry \<Rightarrow> Registry" where
  "health_loop threshold [] reg = reg"
| "health_loop threshold (env # envs) reg = health_loop threshold envs (check_once threshold env reg)"

definition health_start :: "HealthChecker \<Rightarrow> HealthChecker" where
  "health_start h = (if \<not> hk_running h then h\<lparr>hk_running := True\<rparr> else h)"

definition health_stop :: "HealthChecker \<Rightarrow> HealthChecker" where
  "health_stop h = (if hk_running h then h\<lparr>hk_running := False\<rparr> else h)"

subsection \<open>Facts\<close>

definition probe_ok :: "probe_env \<Rightarrow> BackendAdapter \<Rightarrow> bool" where
  "probe_ok env a = (case adapter_health (fst env) a of Inl exc \<Rightarrow> False | Inr b \<Rightarrow> b)"

lemma check_adapter_probe: "check_adapter t env a = probe_step t a (snd env, probe_ok env a)"
  by (simp add: check_adapter_def probe_step_def probe_ok_def)

lemma check_once_length [simp]: "length (rg_adapters (check_once t env reg)) = length (rg_adapters reg)"
  by (simp add: check_once_def)

lemma check_once_nth [simp]:
  "i < length (rg_adapters reg) \<Longrightarrow>
     rg_adapters (check_once t env reg) ! i = check_adapter t (env i) (rg_adapters reg ! i)"
  by (simp add: check_once_def nth_enumerate_eq)

lemma check_once_index [simp]:
  "rg_by_model (check_once t env reg) = rg_by_model reg"
  "rg_model_meta (check_once t env reg) = rg_model_meta reg"
  by (simp_all add: check_once_def)

lemma reg_inv_check_once [inv_intros]: "reg_inv reg \<Longrightarrow> reg_inv (check_once t env reg)"
  by (simp add: reg_inv_def)

lemma health_loop_index [simp]:
  "rg_by_model (health_loop t envs reg) = rg_by_model reg"
  "rg_model_meta (health_loop t envs reg) = rg_model_meta reg"
  "length (rg_adapters (health_loop t envs reg)) = length (rg_adapters reg)"
  by (induction envs arbitrary: reg) simp_all

lemma reg_inv_health_loop [inv_intros]: "reg_inv reg \<Longrightarrow> reg_inv (health_loop t envs reg)"
  by (induction envs arbitrary: reg) (simp_all add: inv_intros)

text \<open>What a probe reads: the adapter's kind, address, key and client, not its health state.\<close>

lemma probe_step_identity [simp]:
  "ad_kind (probe_step t a ev) = ad_kind a" "ad_name (probe_step t a ev) = ad_name a"
  "ad_base_url (probe_step t a ev) = ad_base_url a" "ad_api_key (probe_step t a ev) = ad_api_key a"
  "ad_read_timeout (probe_step t a ev) = ad_read_timeout a"
  by (auto simp: probe_step_def record_health_def reconnect_def Let_def)

text \<open>The probe results of one adapter over the rounds.\<close>

fun probe_history :: "int \<Rightarrow> (nat \<Rightarrow> probe_env) list \<Rightarrow> nat \<Rightarrow> BackendAdapter \<Rightarrow> bool list" where
  "probe_history t [] i a = []"
| "probe_history t (env # envs) i a = probe_ok (env i) a # probe_history t envs i (check_adapter t (env i) a)"

lemma health_loop_run:
  assumes "i < length (rg_adapters reg)" "adapter_run t a0 oks (rg_adapters reg ! i)"
  shows "adapter_run t a0 (oks @ probe_history t envs i (rg_adapters reg ! i))
    (rg_adapters (health_loop t envs reg) ! i)"
  using assms
proof (induction envs arbitrary: reg oks)
  case (Cons env envs)
  let ?a = "rg_adapters reg ! i"
  have "adapter_run t a0 (oks @ [probe_ok (env i) ?a]) (rg_adapters (check_once t env reg) ! i)"
    using Cons.prems by (auto simp: check_adapter_probe intro: adapter_run.probe)
  from Cons.IH [OF _ this] Cons.prems(1) show ?case by simp
qed simp

lemma build_adapter_new:
  assumes "build_adapter getenv timeout b = Inr a"
  obtains k n u r key where "a = new_adapter k n u r key"
  using assms by (auto simp: build_adapter_def Let_def split: option.splits intro: that)

lemma from_config_adapters:
  assumes "from_config getenv timeout cfg = Inr reg" "i < length (rg_adapters reg)"
  obtains k n u r key where "rg_adapters reg ! i = new_adapter k n u r key"
proof -
  obtain as where as: "rmap_list (build_adapter getenv timeout) cfg = Inr as" and reg: "reg = reg_of as (declared 0 cfg)"
    using assms(1) by (auto simp: from_config_iff)
  have "i < length cfg"
    using assms(2) rmap_list_length [OF as] by (simp add: reg)
  from rmap_list_nth [OF as this] have "build_adapter getenv timeout (cfg ! i) = Inr (rg_adapters reg ! i)"
    by (simp add: reg)
  then show ?thesis
    by (rule build_adapter_new) (rule that)
qed

lemma health_loop_state:
  assumes "from_config getenv timeout cfg = Inr reg" "i < length (rg_adapters reg)" "1 \<le> t"
  shows "ad_failures (rg_adapters (health_loop t envs reg) ! i) =
      int (fail_streak (probe_history t envs i (rg_adapters reg ! i))) \<and>
    (ad_healthy (rg_adapters (health_loop t envs reg) ! i) \<longleftrightarrow>
      int (fail_streak (probe_history t envs i (rg_adapters reg ! i))) < t)"
proof -
  obtain k n u r key where new: "rg_adapters reg ! i = new_adapter k n u r key"
    using from_config_adapters [OF assms(1,2)] .
  have "adapter_run t (new_adapter k n u r key) ([] @ probe_history t envs i (rg_adapters reg ! i))
    (rg_adapters (health_loop t envs reg) ! i)"
    by (rule health_loop_run [OF assms(2)]) (simp add: new adapter_run.start)
  from adapter_run_health [OF this assms(3)] show ?thesis by simp
qed

lemma health_loop_healthy:
  assumes "from_config getenv timeout cfg = Inr reg" "i < length (rg_adapters reg)" "1 \<le> t"
  shows "ad_healthy (rg_adapters (health_loop t envs reg) ! i) \<longleftrightarrow>
      int (fail_streak (probe_history t envs i (rg_adapters reg ! i))) < t"
  using health_loop_state [OF assms] by blast

lemma probe_history_length: "length (probe_history t envs i a) = length envs"
  by (induction envs arbitrary: a) simp_all

text \<open>
  The checker's rounds, for every adapter of a freshly loaded registry and whatever the
  probes do, exceptions included: after them the adapter's failure count is the number of most
  recent rounds in a row that failed it, and it is healthy exactly while these are fewer than
  the threshold. The probes of one adapter never change another, and the model index is untouched.
\<close>

theorem health_rounds:
  assumes "from_config getenv timeout cfg = Inr reg" and "i < length (rg_adapters reg)" and "1 \<le> threshold"
  shows "rg_by_model (health_loop threshold envs reg) = rg_by_model reg \<and>
    (let a = rg_adapters (health_loop threshold envs reg) ! i;
         oks = probe_history threshold envs i (rg_adapters reg ! i)
     in length oks = length envs \<and> ad_failures a = int (fail_streak oks) \<and>
        (ad_healthy a \<longleftrightarrow> int (fail_streak oks) < threshold))"
  using health_loop_state [OF assms] by (simp add: Let_def probe_history_length)

subsection \<open>Witness\<close>

lemma health_rounds_witness:
  "\<not> ad_healthy (rg_adapters (health_loop 1 [\<lambda>_. (\<lambda>_. HttpTimeout, 5)] sample_registry) ! 1)"
  using health_rounds [OF sample_registry_loads, of 1 1 "[\<lambda>_. (\<lambda>_. HttpTimeout, 5)]"]
  by (simp add: sample_config_def sample_registry_def Let_def probe_ok_def adapter_health_def
      new_adapter_def probe_status_def fail_streak_def)

end
