(* ===== verification/Router.thy ===== *)
theory Router
  imports Health
begin

text \<open>
  The request router (\<open>app/routing/router.py\<close>): the staged decision of \<open>_resolve\<close> and the four
  operations that forward to the adapter it returns.
\<close>

fun cap_str :: "Capability \<Rightarrow> string" where
  "cap_str Chat = ''chat''"
| "cap_str Completions = ''completions''"
| "cap_str Embeddings = ''embeddings''"
| "cap_str Rerank = ''rerank''"
| "cap_str Structured = ''structured''"

definition quoted :: "string \<Rightarrow> string" where
  "quoted s = [CHR 0x27] @ s @ [CHR 0x27]"

definition resolve ::
  "Registry \<Rightarrow> string \<Rightarrow> TenantRecord \<Rightarrow> Capability \<Rightarrow> gw_exn + BackendAdapter \<times> BackendModel"
where
  "resolve reg model_id tenant capability =
     (case get_backend_for reg model_id of
        Inl e \<Rightarrow> Inl e
      | Inr (i, model) \<Rightarrow>
          (let adapter = rg_adapters reg ! i in
           if ''*'' \<notin> set (t_allowed_models tenant) \<and> model_id \<notin> set (t_allowed_models tenant)
           then Inl (Gw (gateway_error ForbiddenError
                  (''tenant '' @ quoted (t_id tenant) @ '' is not permitted to use model '' @ quoted model_id)
                  None (Some ''model'')))
           else if capability \<notin> set (bm_capabilities model)
           then Inl (Gw (gateway_error InvalidRequestError
                  (''model '' @ quoted model_id @ '' does not support '' @ cap_str capability)
                  None (Some ''model'')))
           else if \<not> ad_healthy adapter
           then Inl (Gw (backend_unavailable (''backend '' @ quoted (ad_name adapter) @ '' is unhealthy'')
                  (Some ''backend_unavailable'')))
           else Inr (adapter, model)))"

text \<open>The parameters of a forwarded call: the network, response validation and number parsing.\<close>

record backend_env =
  be_send :: "http_request \<Rightarrow> http_outcome"
  be_chat :: "json \<Rightarrow> string + ChatCompletionResponse"
  be_completion :: "json \<Rightarrow> string + CompletionResponse"
  be_numbers :: number_parsers
  be_token :: string

definition route_chat ::
  "backend_env \<Rightarrow> Registry \<Rightarrow> ChatCompletionRequest \<Rightarrow> TenantRecord \<Rightarrow> gw_exn + ChatCompletionResponse"
where
  "route_chat env reg request tenant =
     rbind (resolve reg (cr_model request) tenant Chat)
       (\<lambda>(adapter, model). adapter_chat (be_send env) (be_chat env) adapter request model)"

definition route_completion ::
  "backend_env \<Rightarrow> Registry \<Rightarrow> CompletionRequest \<Rightarrow> TenantRecord \<Rightarrow> gw_exn + CompletionResponse"
where
  "route_completion env reg request tenant =
     rbind (resolve reg (lr_model request) tenant Completions)
       (\<lambda>(adapter, model). adapter_completion (be_send env) (be_completion env) adapter request model)"

definition route_embedding ::
  "backend_env \<Rightarrow> Registry \<Rightarrow> EmbeddingRequest \<Rightarrow> TenantRecord \<Rightarrow> gw_exn + EmbeddingResponse"
where
  "route_embedding env reg request tenant =
     rbind (resolve reg (er_model request) tenant Embeddings)
       (\<lambda>(adapter, model). adapter_embedding (be_send env) (be_numbers env) adapter request model)"

definition route_rerank ::
  "backend_env \<Rightarrow> Registry \<Rightarrow> RerankRequest \<Rightarrow> TenantRecord \<Rightarrow> gw_exn + RerankResponse"
where
  "route_rerank env reg request tenant =
     rbind (resolve reg (rr_model request) tenant Rerank)
       (\<lambda>(adapter, model). adapter_rerank (be_send env) (be_numbers env) (be_token env) adapter request model)"

subsection \<open>Facts about resolution\<close>

lemma resolve_Inr:
  "resolve reg m tenant cap = Inr (a, bm) \<longleftrightarrow>
     (\<exists>i. get_backend_for reg m = Inr (i, bm) \<and> a = rg_adapters reg ! i \<and> visible_to tenant m \<and>
        cap \<in> set (bm_capabilities bm) \<and> ad_healthy a)"
  by (auto simp: resolve_def visible_to_def Let_def split: sum.splits prod.splits if_splits)

text \<open>The class of the answer, in the order of the checks; \<open>None\<close> when the request is forwarded.\<close>

definition refusal :: "Registry \<Rightarrow> string \<Rightarrow> TenantRecord \<Rightarrow> Capability \<Rightarrow> gw_class option" where
  "refusal reg m tenant cap =
     (case map_of (rg_by_model reg) m of
        None \<Rightarrow> Some ModelNotFoundError
      | Some (i, bm) \<Rightarrow>
          if \<not> visible_to tenant m then Some ForbiddenError
          else if cap \<notin> set (bm_capabilities bm) then Some InvalidRequestError
          else if \<not> ad_healthy (rg_adapters reg ! i) then Some BackendUnavailableError
          else None)"

lemma resolve_refusal:
  "refusal reg m tenant cap = None \<longleftrightarrow> is_ok (resolve reg m tenant cap)"
  "refusal reg m tenant cap = Some c \<longleftrightarrow> (\<exists>g. resolve reg m tenant cap = Inl (Gw g) \<and> ge_class g = c)"
  by (auto simp: refusal_def resolve_def get_backend_for_def visible_to_def Let_def model_not_found_def
      gateway_error_def backend_unavailable_def split: option.splits prod.splits if_splits)

lemma resolve_no_py: "resolve reg m tenant cap \<noteq> Inl (Py e)"
  by (auto simp: resolve_def get_backend_for_def Let_def split: option.splits prod.splits if_splits)

text \<open>
  Routing and the model listing agree: a model is in the tenant's listing exactly when a
  request for it is not turned away as unknown (404) or not permitted (403), for any capability.
\<close>

theorem listing_agrees_with_routing:
  assumes "reg_inv reg"
  shows "\<exists>ms. models_for reg tenant = Inr ms \<and>
    (model_id \<in> set (map m_id ms) \<longleftrightarrow>
      (\<forall>g. resolve reg model_id tenant cap = Inl (Gw g) \<longrightarrow> ge_class g \<notin> {ModelNotFoundError, ForbiddenError}))"
proof -
  let ?es = "filter (\<lambda>e. visible_to tenant (fst e)) (rg_by_model reg)"
  have ids: "set (map m_id (map (\<lambda>(k, i, bm). \<lparr>m_id = k, m_owned_by = ad_name (rg_adapters reg ! i),
      m_capabilities = bm_capabilities bm\<rparr>) ?es)) = {m \<in> set (dict_keys (rg_by_model reg)). visible_to tenant m}"
    by force
  have "model_id \<in> set (dict_keys (rg_by_model reg)) \<and> visible_to tenant model_id \<longleftrightarrow>
      refusal reg model_id tenant cap \<notin> {Some ModelNotFoundError, Some ForbiddenError}"
    by (auto simp: refusal_def split: option.splits dest: map_of_in_keys)
       (metis map_of_eq_None_iff option.distinct(1) image_eqI fst_conv)
  also have "\<dots> \<longleftrightarrow> (\<forall>g. resolve reg model_id tenant cap = Inl (Gw g) \<longrightarrow>
      ge_class g \<notin> {ModelNotFoundError, ForbiddenError})"
    using resolve_refusal(2) [of reg model_id tenant cap] by auto
  finally show ?thesis
    unfolding models_for_ok [OF assms] ids [symmetric] mem_Collect_eq
    using ids by blast
qed

text \<open>
  Fail-fast: after any number of health rounds, a request for a model the tenant may use
  and that has the capability is forwarded exactly while the backend's current streak of failed
  probes is below the threshold, and otherwise answered with 503 (so one successful probe restores it).
\<close>

theorem router_fails_fast:
  assumes "from_config getenv timeout cfg = Inr reg" and "1 \<le> threshold"
    and "get_backend_for reg model_id = Inr (i, bm)" and "visible_to tenant model_id"
    and "cap \<in> set (bm_capabilities bm)"
  shows "let reg' = health_loop threshold envs reg;
             streak = fail_streak (probe_history threshold envs i (rg_adapters reg ! i))
         in if int streak < threshold
            then resolve reg' model_id tenant cap = Inr (rg_adapters reg' ! i, bm)
            else \<exists>g. resolve reg' model_id tenant cap = Inl (Gw g) \<and> ge_class g = BackendUnavailableError"
proof -
  let ?reg' = "health_loop threshold envs reg"
  have idx: "map_of (rg_by_model reg) model_id = Some (i, bm)"
    using assms(3) by (auto simp: get_backend_for_def split: option.splits)
  then have "i < length (rg_adapters reg)"
    using from_config_inv [OF assms(1)] by (force simp: reg_inv_def dest: map_of_SomeD)
  then have health: "ad_healthy (rg_adapters ?reg' ! i) \<longleftrightarrow>
      int (fail_streak (probe_history threshold envs i (rg_adapters reg ! i))) < threshold"
    by (rule health_loop_healthy [OF assms(1) _ assms(2)])
  have lookup: "get_backend_for ?reg' model_id = Inr (i, bm)"
    using idx by (simp add: get_backend_for_def)
  have "refusal ?reg' model_id tenant cap = Some BackendUnavailableError" if "\<not> ad_healthy (rg_adapters ?reg' ! i)"
    using that idx assms(4,5) by (simp add: refusal_def)
  then have unhealthy: "\<exists>g. resolve ?reg' model_id tenant cap = Inl (Gw g) \<and> ge_class g = BackendUnavailableError"
    if "\<not> ad_healthy (rg_adapters ?reg' ! i)"
    using that resolve_refusal(2) by metis
  show ?thesis
    unfolding Let_def using health lookup unhealthy assms(4,5)
    by (auto simp: resolve_Inr)
qed

text \<open>
  Chat failures: a chat request the router serves fails either with a gateway error whose
  status is one of 400, 403, 404, 500, 503 and 504 (never an authentication or rate-limit
  status), or with the very exception that the HTTP client or the decoding of a successful
  reply raised.
\<close>

theorem route_chat_failures:
  assumes "route_chat env reg request tenant = Inl x"
  shows "(\<exists>g. x = Gw g \<and> status_code (ge_class g) \<in> {400, 403, 404, 500, 503, 504}) \<or>
    (\<exists>e req. x = Py e \<and> (be_send env req = HttpRaises e \<or>
       (\<exists>st. st < 400 \<and> be_send env req = HttpReply st (Inl e))))"
proof (cases "resolve reg (cr_model request) tenant Chat")
  case (Inl y)
  with assms have x: "x = y" by (simp add: route_chat_def)
  obtain g where "x = Gw g" using resolve_no_py Inl x by (cases y) auto
  moreover have "status_code (ge_class g) \<in> {400, 403, 404, 503}"
    using Inl x \<open>x = Gw g\<close> resolve_refusal(2) [of reg "cr_model request" tenant Chat "ge_class g"]
    by (auto simp: refusal_def split: option.splits prod.splits if_splits)
  ultimately show ?thesis by auto
next
  case (Inr am)
  with assms show ?thesis
    by (cases am) (auto simp: route_chat_def dest!: adapter_chat_fails)
qed

subsection \<open>Witnesses\<close>

definition sample_any :: TenantRecord where
  "sample_any = row_to_record sample_row"

lemma listing_agrees_with_routing_witness:
  "\<exists>ms. models_for sample_registry sample_any = Inr ms \<and> (''gpt'' \<in> set (map m_id ms) \<longleftrightarrow>
     (\<forall>g. resolve sample_registry ''gpt'' sample_any Chat = Inl (Gw g) \<longrightarrow>
        ge_class g \<notin> {ModelNotFoundError, ForbiddenError}))"
  by (rule listing_agrees_with_routing [OF from_config_inv [OF sample_registry_loads]])

lemma router_fails_fast_witness:
  "\<exists>g. resolve (health_loop 2 (replicate 2 (\<lambda>_. (\<lambda>_. HttpTimeout, 5))) sample_registry) ''bge-m3'' sample_any Embeddings
     = Inl (Gw g) \<and> ge_class g = BackendUnavailableError"
proof -
  have "get_backend_for sample_registry ''bge-m3'' = Inr (1, \<lparr>bm_id = ''bge-m3'', bm_backend_model_name = ''bge'',
     bm_capabilities = [Embeddings]\<rparr>)"
    by (simp add: sample_registry_def sample_config_def reg_of_def index_entry_def get_backend_for_def)
  moreover have "visible_to sample_any ''bge-m3''"
    by (simp add: visible_to_def sample_any_def row_to_record_def sample_row_def)
  ultimately show ?thesis
    using router_fails_fast [OF sample_registry_loads, of 2 "''bge-m3''" 1 _ sample_any Embeddings
        "replicate 2 (\<lambda>_. (\<lambda>_. HttpTimeout, 5))"]
    by (simp add: numeral_2_eq_2 sample_registry_def Let_def probe_ok_def adapter_health_def check_adapter_def
        record_health_def new_adapter_def probe_status_def fail_streak_def)
qed

definition sample_env :: "http_outcome \<Rightarrow> backend_env" where
  "sample_env out = \<lparr>be_send = (\<lambda>_. out), be_chat = sample_validate, be_completion = (\<lambda>_. Inl []),
     be_numbers = no_parsers, be_token = ''0''\<rparr>"

lemma route_chat_failures_witness:
  "\<exists>g. route_chat (sample_env HttpTimeout) sample_registry sample_chat_request sample_any = Inl (Gw g) \<and>
     status_code (ge_class g) \<in> {400, 403, 404, 500, 503, 504}"
proof -
  have "route_chat (sample_env HttpTimeout) sample_registry sample_chat_request sample_any =
      Inl (Gw (backend_timeout ''tpro timed out''))"
    by (simp add: route_chat_def resolve_def get_backend_for_def sample_registry_def sample_config_def
        reg_of_def index_entry_def sample_any_def row_to_record_def sample_row_def sample_chat_request_def
        sample_env_def new_adapter_def adapter_chat_def openai_chat_def request_json_def Let_def)
  from route_chat_failures [OF this] this show ?thesis by auto
qed

end
