(* ===== verification/Gateway.thy ===== *)
theory Gateway
  imports Auth_Cache Rate_Limit Router
begin

text \<open>
  The HTTP layer (\<open>app/main.py\<close>, \<open>app/api/\<close>, \<open>app/config.py\<close>): the authentication dependency, the
  six \<open>/v1\<close> routes, readiness, the request middleware and the lifespan, over the state of all
  components. A request is modelled from the point where its body has been validated.
\<close>

subsection \<open>Settings and state\<close>

record Settings =
  se_gateway_host :: string
  se_gateway_port :: int
  se_log_level :: string
  se_log_format :: string
  se_tenant_db_path :: string
  se_redis_url :: string
  se_rate_limit_fail_open :: bool
  se_backends_config :: string
  se_health_interval_seconds :: int
  se_unhealthy_threshold :: int
  se_request_timeout_seconds :: int

definition default_settings :: Settings where
  "default_settings =
     \<lparr>se_gateway_host = ''0.0.0.0'', se_gateway_port = 8003, se_log_level = ''INFO'',
      se_log_format = ''json'', se_tenant_db_path = ''/data/tenants/tenants.db'',
      se_redis_url = ''redis://redis:6379/0'', se_rate_limit_fail_open = True,
      se_backends_config = ''/app/backends.yaml'', se_health_interval_seconds = 30,
      se_unhealthy_threshold = 3, se_request_timeout_seconds = 900\<rparr>"

text \<open>\<open>app.state\<close>: the objects of all components, and which of the closable ones are open.\<close>

record ('h, 'r) gateway =
  gw_store :: "'h tenant_store"
  gw_auth :: "TenantRecord Authenticator"
  gw_redis :: 'r
  gw_fail_open :: bool
  gw_registry :: Registry
  gw_checker :: HealthChecker
  gw_store_open :: bool
  gw_redis_open :: bool

text \<open>The outside world during one request: clocks, Argon2, Redis and the backends.\<close>

record ('h, 'r) world =
  wd_monotonic :: time
  wd_utc :: time
  wd_seconds :: int
  wd_verify :: "'h \<Rightarrow> string \<Rightarrow> verify_outcome"
  wd_redis :: "'r redis_ops"
  wd_backend :: backend_env

record request_headers =
  rh_authorization :: "string option"
  rh_x_tenant_id :: "string option"

record request_state =
  rq_request_id :: string
  rq_tenant_id :: "string option"
  rq_model :: "string option"
  rq_backend :: "string option"

definition new_request :: "string \<Rightarrow> request_state" where
  "new_request rid = \<lparr>rq_request_id = rid, rq_tenant_id = None, rq_model = None, rq_backend = None\<rparr>"

subsection \<open>Dependencies\<close>

definition bearer_prefix :: string where
  "bearer_prefix = ''bearer ''"

definition auth_error :: "string \<Rightarrow> gw_exn" where
  "auth_error message = Gw (gateway_error AuthenticationError message None None)"

definition current_tenant ::
  "('h, 'r) world \<Rightarrow> ('h, 'r) gateway \<Rightarrow> request_state \<Rightarrow> request_headers
    \<Rightarrow> ('h, 'r) gateway \<times> request_state \<times> (gw_exn + TenantRecord)"
where
  "current_tenant w gw rq h =
     (case rh_authorization h of
        None \<Rightarrow> (gw, rq, Inl (auth_error ''Missing or malformed Authorization header''))
      | Some authorization \<Rightarrow>
          if authorization = [] \<or> \<not> starts_with (py_lower authorization) bearer_prefix
          then (gw, rq, Inl (auth_error ''Missing or malformed Authorization header''))
          else let raw_key = py_strip (drop (length bearer_prefix) authorization)
               in if raw_key = [] then (gw, rq, Inl (auth_error ''Empty bearer token''))
                  else let (auth', found) = auth_authenticate
                             (store_authenticate (wd_verify w) (wd_utc w) (gw_store gw))
                             (wd_monotonic w) (gw_auth gw) raw_key;
                           gw' = gw\<lparr>gw_auth := auth'\<rparr>
                       in case found of
                            Inl e \<Rightarrow> (gw', rq, Inl (Py e))
                          | Inr None \<Rightarrow> (gw', rq, Inl (auth_error ''Invalid API key''))
                          | Inr (Some tenant) \<Rightarrow>
                              if rh_x_tenant_id h \<noteq> None \<and> rh_x_tenant_id h \<noteq> Some (t_id tenant)
                              then (gw', rq, Inl (Gw (gateway_error ForbiddenError
                                     ''X-Tenant-ID does not match the authenticated tenant''
                                     None (Some ''X-Tenant-ID''))))
                              else (gw', rq\<lparr>rq_tenant_id := Some (t_id tenant)\<rparr>, Inr tenant))"

definition enforce_rate_limit ::
  "('h, 'r) world \<Rightarrow> ('h, 'r) gateway \<Rightarrow> TenantRecord \<Rightarrow> string \<Rightarrow> ('h, 'r) gateway \<times> (gw_exn + unit)"
where
  "enforce_rate_limit w gw tenant endpoint =
     (let (r', res) = rl_enforce (wd_redis w) (gw_fail_open gw) (wd_seconds w) (gw_redis gw) tenant endpoint
      in (gw\<lparr>gw_redis := r'\<rparr>, res))"

text \<open>A route: the dependency first, then the handler with the tenant.\<close>

type_synonym ('h, 'r, 'b) route_result = "('h, 'r) gateway \<times> request_state \<times> (gw_exn + 'b)"

definition with_tenant ::
  "('h, 'r) world \<Rightarrow> ('h, 'r) gateway \<Rightarrow> request_state \<Rightarrow> request_headers
    \<Rightarrow> (('h, 'r) gateway \<Rightarrow> request_state \<Rightarrow> TenantRecord \<Rightarrow> ('h, 'r, 'b) route_result)
    \<Rightarrow> ('h, 'r, 'b) route_result"
where
  "with_tenant w gw rq h handler =
     (case current_tenant w gw rq h of
        (gw', rq', Inl e) \<Rightarrow> (gw', rq', Inl e)
      | (gw', rq', Inr tenant) \<Rightarrow> handler gw' rq' tenant)"

subsection \<open>Routes\<close>

definition create_chat_completion ::
  "('h, 'r) world \<Rightarrow> ChatCompletionRequest \<Rightarrow> ('h, 'r) gateway \<Rightarrow> request_state \<Rightarrow> TenantRecord
    \<Rightarrow> ('h, 'r, ChatCompletionResponse) route_result"
where
  "create_chat_completion w body gw rq tenant =
     (let rq1 = rq\<lparr>rq_model := Some (cr_model body)\<rparr>;
          (gw', limited) = enforce_rate_limit w gw tenant ''chat.completions''
      in case limited of
           Inl e \<Rightarrow> (gw', rq1, Inl e)
         | Inr _ \<Rightarrow>
             (case route_chat (wd_backend w) (gw_registry gw') body tenant of
                Inl e \<Rightarrow> (gw', rq1, Inl e)
              | Inr response \<Rightarrow>
                  (gw', rq1\<lparr>rq_backend := Some (gm_backend (cp_metadata response))\<rparr>, Inr response)))"

definition create_completion ::
  "('h, 'r) world \<Rightarrow> CompletionRequest \<Rightarrow> ('h, 'r) gateway \<Rightarrow> request_state \<Rightarrow> TenantRecord
    \<Rightarrow> ('h, 'r, CompletionResponse) route_result"
where
  "create_completion w body gw rq tenant =
     (let rq1 = rq\<lparr>rq_model := Some (lr_model body)\<rparr>;
          (gw', limited) = enforce_rate_limit w gw tenant ''completions''
      in case limited of
           Inl e \<Rightarrow> (gw', rq1, Inl e)
         | Inr _ \<Rightarrow>
             (case route_completion (wd_backend w) (gw_registry gw') body tenant of
                Inl e \<Rightarrow> (gw', rq1, Inl e)
              | Inr response \<Rightarrow>
                  (gw', rq1\<lparr>rq_backend := Some (gm_backend (lp_metadata response))\<rparr>, Inr response)))"

definition create_embedding ::
  "('h, 'r) world \<Rightarrow> EmbeddingRequest \<Rightarrow> ('h, 'r) gateway \<Rightarrow> request_state \<Rightarrow> TenantRecord
    \<Rightarrow> ('h, 'r, EmbeddingResponse) route_result"
where
  "create_embedding w body gw rq tenant =
     (let rq1 = rq\<lparr>rq_model := Some (er_model body)\<rparr>;
          (gw', limited) = enforce_rate_limit w gw tenant ''embeddings''
      in case limited of
           Inl e \<Rightarrow> (gw', rq1, Inl e)
         | Inr _ \<Rightarrow> (gw', rq1, route_embedding (wd_backend w) (gw_registry gw') body tenant))"

definition create_rerank ::
  "('h, 'r) world \<Rightarrow> RerankRequest \<Rightarrow> ('h, 'r) gateway \<Rightarrow> request_state \<Rightarrow> TenantRecord
    \<Rightarrow> ('h, 'r, RerankResponse) route_result"
where
  "create_rerank w body gw rq tenant =
     (let rq1 = rq\<lparr>rq_model := Some (rr_model body)\<rparr>;
          (gw', limited) = enforce_rate_limit w gw tenant ''rerank''
      in case limited of
           Inl e \<Rightarrow> (gw', rq1, Inl e)
         | Inr _ \<Rightarrow> (gw', rq1, route_rerank (wd_backend w) (gw_registry gw') body tenant))"

definition list_models ::
  "('h, 'r) gateway \<Rightarrow> request_state \<Rightarrow> TenantRecord \<Rightarrow> ('h, 'r, Model list) route_result"
where
  "list_models gw rq tenant = (gw, rq, lift_py (models_for (gw_registry gw) tenant))"

definition get_current_tenant_identity ::
  "('h, 'r) gateway \<Rightarrow> request_state \<Rightarrow> TenantRecord \<Rightarrow> ('h, 'r, TenantIdentity) route_result"
where
  "get_current_tenant_identity gw rq tenant =
     (gw, rq, Inr \<lparr>ti_tenant_id = t_id tenant, ti_display_name = t_display_name tenant,
                   ti_allowed_models = t_allowed_models tenant, ti_rate_limits = t_rate_limits tenant\<rparr>)"

subsection \<open>Readiness\<close>

record ready_entry =
  re_name :: string
  re_healthy :: bool
  re_consecutive_failures :: int
  re_last_checked :: "int option"

definition ready :: "Registry \<Rightarrow> int \<times> bool \<times> ready_entry list" where
  "ready reg =
     (let backends = map (\<lambda>a. \<lparr>re_name = ad_name a, re_healthy = ad_healthy a,
            re_consecutive_failures = ad_failures a, re_last_checked = ad_last_checked a\<rparr>) (rg_adapters reg);
          all_ok = list_all ad_healthy (rg_adapters reg)
      in (if all_ok then 200 else 503, all_ok, backends))"

subsection \<open>Responses and the middleware\<close>

datatype 'b body = Success 'b | Failure ErrorEnvelope

record 'b http_response =
  hp_status :: int
  hp_headers :: "(string, string) pydict"
  hp_body :: "'b body"

text \<open>The exception handlers: a gateway error becomes a response, anything else propagates.\<close>

definition handle_exceptions :: "gw_exn + 'b \<Rightarrow> exn + 'b http_response" where
  "handle_exceptions res =
     (case res of
        Inr b \<Rightarrow> Inr \<lparr>hp_status = 200, hp_headers = [], hp_body = Success b\<rparr>
      | Inl (Gw g) \<Rightarrow> (let r = error_response g in
          Inr \<lparr>hp_status = er_status r, hp_headers = er_headers r, hp_body = Failure (er_content r)\<rparr>)
      | Inl (Py e) \<Rightarrow> Inl e)"

record log_line =
  ll_method :: string
  ll_path :: string
  ll_status :: int
  ll_request_id :: string
  ll_tenant_id :: "string option"
  ll_model :: "string option"
  ll_backend :: "string option"

definition request_context ::
  "string \<Rightarrow> string \<Rightarrow> string \<Rightarrow> ('g \<Rightarrow> request_state \<Rightarrow> 'g \<times> request_state \<times> (gw_exn + 'b)) \<Rightarrow> 'g
    \<Rightarrow> 'g \<times> log_line \<times> (exn + 'b http_response)"
where
  "request_context token meth path call_next gw =
     (let request_id = ''req_'' @ token;
          (gw', rq, res) = call_next gw (new_request request_id);
          line = (\<lambda>status. \<lparr>ll_method = meth, ll_path = path, ll_status = status,
             ll_request_id = request_id, ll_tenant_id = rq_tenant_id rq,
             ll_model = rq_model rq, ll_backend = rq_backend rq\<rparr>)
      in case handle_exceptions res of
           Inl e \<Rightarrow> (gw', line 500, Inl e)
         | Inr response \<Rightarrow> (gw', line (hp_status response),
             Inr (response\<lparr>hp_headers := AList.update ''X-Request-ID'' request_id (hp_headers response)\<rparr>)))"

subsection \<open>Lifespan\<close>

definition gateway_startup ::
  "(string \<Rightarrow> string + json) \<Rightarrow> (json \<Rightarrow> string + BackendsConfig) \<Rightarrow> (string \<Rightarrow> string option)
    \<Rightarrow> (exn + string) option \<Rightarrow> 'h tenant_store \<Rightarrow> 'r \<Rightarrow> Settings \<Rightarrow> registry_exn + ('h, 'r) gateway"
where
  "gateway_startup yaml validate getenv file store redis s =
     rmap (\<lambda>registry.
         \<lparr>gw_store = store, gw_auth = authenticator cache_ttl_default cache_max_default,
          gw_redis = redis, gw_fail_open = se_rate_limit_fail_open s, gw_registry = registry,
          gw_checker = health_start (health_checker (se_health_interval_seconds s) (se_unhealthy_threshold s)),
          gw_store_open = True, gw_redis_open = True\<rparr>)
       (registry_load yaml validate getenv (se_backends_config s) file (of_int (se_request_timeout_seconds s)))"

definition gateway_shutdown :: "('h, 'r) gateway \<Rightarrow> ('h, 'r) gateway" where
  "gateway_shutdown gw =
     (let gw1 = gw\<lparr>gw_checker := health_stop (gw_checker gw)\<rparr>;
          gw2 = gw1\<lparr>gw_registry := registry_aclose (gw_registry gw1)\<rparr>;
          gw3 = gw2\<lparr>gw_redis_open := False\<rparr>
      in gw3\<lparr>gw_store_open := False\<rparr>)"

subsection \<open>Which requests reach a backend\<close>

definition with_network :: "('h, 'r) world \<Rightarrow> (http_request \<Rightarrow> http_outcome) \<Rightarrow> ('h, 'r) world" where
  "with_network w send = w\<lparr>wd_backend := (wd_backend w)\<lparr>be_send := send\<rparr>\<rparr>"

definition serve_chat ::
  "('h, 'r) world \<Rightarrow> ('h, 'r) gateway \<Rightarrow> request_state \<Rightarrow> request_headers \<Rightarrow> ChatCompletionRequest
    \<Rightarrow> ('h, 'r, ChatCompletionResponse) route_result"
where
  "serve_chat w gw rq h body = with_tenant w gw rq h (create_chat_completion w body)"

lemma with_network_simps [simp]:
  "wd_monotonic (with_network w send) = wd_monotonic w" "wd_utc (with_network w send) = wd_utc w"
  "wd_seconds (with_network w send) = wd_seconds w" "wd_verify (with_network w send) = wd_verify w"
  "wd_redis (with_network w send) = wd_redis w"
  "be_send (wd_backend (with_network w send)) = send"
  "be_chat (wd_backend (with_network w send)) = be_chat (wd_backend w)"
  by (simp_all add: with_network_def)

lemma current_tenant_network [simp]: "current_tenant (with_network w send) = current_tenant w"
  unfolding current_tenant_def with_network_simps by (rule refl)

lemma enforce_network [simp]: "enforce_rate_limit (with_network w send) = enforce_rate_limit w"
  unfolding enforce_rate_limit_def with_network_simps by (rule refl)

lemma enforce_keeps [simp]:
  "enforce_rate_limit w gw t e = (gw', r) \<Longrightarrow> gw_registry gw' = gw_registry gw"
  "enforce_rate_limit w gw t e = (gw', r) \<Longrightarrow> gw_store gw' = gw_store gw"
  "enforce_rate_limit w gw t e = (gw', r) \<Longrightarrow> gw_auth gw' = gw_auth gw"
  by (auto simp: enforce_rate_limit_def Let_def split: prod.splits)

lemma request_json_network:
  assumes "\<forall>req. hq_client req = ad_client a \<and> hq_url req = ad_base_url a @ path \<longrightarrow> s1 req = s2 req"
  shows "request_json s1 a meth path body = request_json s2 a meth path body"
  using assms by (simp add: request_json_def Let_def)

lemma adapter_chat_network:
  assumes "\<forall>req. hq_client req = ad_client a \<and> hq_url req = ad_base_url a @ ''/chat/completions'' \<longrightarrow> s1 req = s2 req"
  shows "adapter_chat s1 v a body bm = adapter_chat s2 v a body bm"
  unfolding adapter_chat_def openai_chat_def Let_def request_json_network [OF assms] ..

text \<open>
  C1. A chat request reaches the network only when it is authenticated, within its rate limit,
  and for a registered model the tenant may use, with the chat capability, on a healthy backend;
  and then only that backend's chat endpoint through its current client. Otherwise nothing the
  network does can influence the outcome, neither the answer nor the state.
\<close>

theorem chat_reaches_only_permitted_backend:
  assumes "serve_chat (with_network w s1) gw rq h body \<noteq> serve_chat (with_network w s2) gw rq h body"
  shows "\<exists>gw1 rq1 tenant gw2 a bm req.
    current_tenant w gw rq h = (gw1, rq1, Inr tenant) \<and>
    enforce_rate_limit w gw1 tenant ''chat.completions'' = (gw2, Inr ()) \<and>
    resolve (gw_registry gw1) (cr_model body) tenant Chat = Inr (a, bm) \<and>
    visible_to tenant (cr_model body) \<and> Chat \<in> set (bm_capabilities bm) \<and> ad_healthy a \<and>
    hq_client req = ad_client a \<and> hq_url req = ad_base_url a @ ''/chat/completions'' \<and> s1 req \<noteq> s2 req"
proof -
  obtain gw1 rq1 res where ct: "current_tenant w gw rq h = (gw1, rq1, res)"
    by (cases "current_tenant w gw rq h") auto
  obtain tenant where res: "res = Inr tenant"
    using assms ct by (cases res) (auto simp: serve_chat_def with_tenant_def)
  obtain gw2 lim where en: "enforce_rate_limit w gw1 tenant ''chat.completions'' = (gw2, lim)"
    by (cases "enforce_rate_limit w gw1 tenant ''chat.completions''") auto
  have lim: "lim = Inr ()"
    using assms ct res en by (cases lim) (auto simp: serve_chat_def with_tenant_def create_chat_completion_def)
  let ?send = "\<lambda>s. wd_backend (with_network w s)"
  have differ: "route_chat (?send s1) (gw_registry gw1) body tenant \<noteq> route_chat (?send s2) (gw_registry gw1) body tenant"
    using assms ct res en lim enforce_keeps(1) [OF en]
    by (auto simp: serve_chat_def with_tenant_def create_chat_completion_def)
  obtain a bm where rs: "resolve (gw_registry gw1) (cr_model body) tenant Chat = Inr (a, bm)"
    using differ by (cases "resolve (gw_registry gw1) (cr_model body) tenant Chat") (auto simp: route_chat_def)
  have "adapter_chat s1 (be_chat (wd_backend w)) a body bm \<noteq> adapter_chat s2 (be_chat (wd_backend w)) a body bm"
    using differ rs by (simp add: route_chat_def)
  then obtain req where "hq_client req = ad_client a" "hq_url req = ad_base_url a @ ''/chat/completions''" "s1 req \<noteq> s2 req"
    using adapter_chat_network by blast
  with ct res en lim rs show ?thesis
    unfolding resolve_Inr by blast
qed

subsection \<open>Accounting\<close>

text \<open>A handler that counts each of its requests once against an endpoint's limit.\<close>

definition charges ::
  "('h, 'r) world \<Rightarrow> string
    \<Rightarrow> (('h, 'r) gateway \<Rightarrow> request_state \<Rightarrow> TenantRecord \<Rightarrow> ('h, 'r, 'b) route_result) \<Rightarrow> bool"
where
  "charges w endpoint handler \<longleftrightarrow>
     (\<forall>gw rq h gw' rq' res. with_tenant w gw rq h handler = (gw', rq', res) \<longrightarrow>
        gw_registry gw' = gw_registry gw \<and> gw_store gw' = gw_store gw \<and>
        (case current_tenant w gw rq h of
           (gw1, rq1, Inl e) \<Rightarrow> gw_redis gw' = gw_redis gw \<and> res = Inl e
         | (gw1, rq1, Inr tenant) \<Rightarrow>
             gw_redis gw' = fst (rl_enforce (wd_redis w) (gw_fail_open gw) (wd_seconds w) (gw_redis gw) tenant endpoint) \<and>
             (\<forall>e. snd (rl_enforce (wd_redis w) (gw_fail_open gw) (wd_seconds w) (gw_redis gw) tenant endpoint) = Inl e
                \<longrightarrow> res = Inl e)))"

lemma current_tenant_keeps:
  assumes "current_tenant w gw rq h = (gw', rq', res)"
  shows "gw_registry gw' = gw_registry gw" "gw_store gw' = gw_store gw" "gw_redis gw' = gw_redis gw"
    "gw_fail_open gw' = gw_fail_open gw"
  using assms by (auto simp: current_tenant_def Let_def split: option.splits if_splits prod.splits sum.splits)

lemma enforce_redis:
  "gw_redis (fst (enforce_rate_limit w gw tenant e)) =
     fst (rl_enforce (wd_redis w) (gw_fail_open gw) (wd_seconds w) (gw_redis gw) tenant e)"
  "snd (enforce_rate_limit w gw tenant e) =
     snd (rl_enforce (wd_redis w) (gw_fail_open gw) (wd_seconds w) (gw_redis gw) tenant e)"
  by (simp_all add: enforce_rate_limit_def split_beta Let_def)

lemma chargesI:
  assumes "\<And>gw rq tenant. \<exists>rq' res. handler gw rq tenant =
      (fst (enforce_rate_limit w gw tenant endpoint), rq', res) \<and>
      (\<forall>e. snd (enforce_rate_limit w gw tenant endpoint) = Inl e \<longrightarrow> res = Inl e)"
  shows "charges w endpoint handler"
  unfolding charges_def
proof (intro allI impI, goal_cases)
  case (1 gw rq h gw' rq' res)
  obtain gw1 rq1 r1 where ct: "current_tenant w gw rq h = (gw1, rq1, r1)"
    by (cases "current_tenant w gw rq h") auto
  show ?case
  proof (cases r1)
    case (Inl e)
    with 1 ct current_tenant_keeps [OF ct] show ?thesis by (simp add: with_tenant_def)
  next
    case (Inr tenant)
    obtain gw2 lim where en: "enforce_rate_limit w gw1 tenant endpoint = (gw2, lim)"
      by (cases "enforce_rate_limit w gw1 tenant endpoint") auto
    have "gw' = gw2" "\<forall>e. lim = Inl e \<longrightarrow> res = Inl e"
      using 1 ct Inr en assms [of gw1 rq1 tenant] by (auto simp: with_tenant_def)
    moreover have "gw_redis gw2 = fst (rl_enforce (wd_redis w) (gw_fail_open gw) (wd_seconds w) (gw_redis gw) tenant endpoint)"
      "lim = snd (rl_enforce (wd_redis w) (gw_fail_open gw) (wd_seconds w) (gw_redis gw) tenant endpoint)"
      using enforce_redis [of w gw1 tenant endpoint] unfolding en current_tenant_keeps [OF ct] by simp_all
    ultimately show ?thesis
      using ct Inr enforce_keeps [OF en] current_tenant_keeps [OF ct] by simp
  qed
qed

text \<open>
  C3. Rate-limit accounting, on all four model routes: an unauthenticated request leaves every
  counter alone and keeps its authentication error; an authenticated one is counted exactly once
  under its route's endpoint, whether or not the router then refuses it (unknown or forbidden
  model, missing capability, unhealthy backend), and a limiter error is the answer. No request
  changes the tenant store or the registry.
\<close>

theorem requests_charged_once:
  "charges w ''chat.completions'' (create_chat_completion w chat_body) \<and>
   charges w ''completions'' (create_completion w completion_body) \<and>
   charges w ''embeddings'' (create_embedding w embedding_body) \<and>
   charges w ''rerank'' (create_rerank w rerank_body)"
proof (intro conjI)
  show "charges w ''chat.completions'' (create_chat_completion w chat_body)"
  proof (rule chargesI)
    fix gw rq tenant
    show "\<exists>rq' res. create_chat_completion w chat_body gw rq tenant =
        (fst (enforce_rate_limit w gw tenant ''chat.completions''), rq', res) \<and>
        (\<forall>e. snd (enforce_rate_limit w gw tenant ''chat.completions'') = Inl e \<longrightarrow> res = Inl e)"
      unfolding create_chat_completion_def Let_def
      by (cases "enforce_rate_limit w gw tenant ''chat.completions''") (simp split: sum.split)
  qed
  show "charges w ''completions'' (create_completion w completion_body)"
  proof (rule chargesI)
    fix gw rq tenant
    show "\<exists>rq' res. create_completion w completion_body gw rq tenant =
        (fst (enforce_rate_limit w gw tenant ''completions''), rq', res) \<and>
        (\<forall>e. snd (enforce_rate_limit w gw tenant ''completions'') = Inl e \<longrightarrow> res = Inl e)"
      unfolding create_completion_def Let_def
      by (cases "enforce_rate_limit w gw tenant ''completions''") (simp split: sum.split)
  qed
  show "charges w ''embeddings'' (create_embedding w embedding_body)"
  proof (rule chargesI)
    fix gw rq tenant
    show "\<exists>rq' res. create_embedding w embedding_body gw rq tenant =
        (fst (enforce_rate_limit w gw tenant ''embeddings''), rq', res) \<and>
        (\<forall>e. snd (enforce_rate_limit w gw tenant ''embeddings'') = Inl e \<longrightarrow> res = Inl e)"
      unfolding create_embedding_def Let_def
      by (cases "enforce_rate_limit w gw tenant ''embeddings''") (simp split: sum.split)
  qed
  show "charges w ''rerank'' (create_rerank w rerank_body)"
  proof (rule chargesI)
    fix gw rq tenant
    show "\<exists>rq' res. create_rerank w rerank_body gw rq tenant =
        (fst (enforce_rate_limit w gw tenant ''rerank''), rq', res) \<and>
        (\<forall>e. snd (enforce_rate_limit w gw tenant ''rerank'') = Inl e \<longrightarrow> res = Inl e)"
      unfolding create_rerank_def Let_def
      by (cases "enforce_rate_limit w gw tenant ''rerank''") (simp split: sum.split)
  qed
qed

subsection \<open>Identity\<close>

lemma bearer_prefix_length: "length bearer_prefix = 7"
  by (simp add: bearer_prefix_def)

lemma current_tenant_Inr:
  assumes "current_tenant w gw rq h = (gw', rq', Inr tenant)"
  obtains authorization where "rh_authorization h = Some authorization"
    "starts_with (py_lower authorization) bearer_prefix"
    "py_strip (drop 7 authorization) \<noteq> []"
    "snd (auth_authenticate (store_authenticate (wd_verify w) (wd_utc w) (gw_store gw)) (wd_monotonic w)
       (gw_auth gw) (py_strip (drop 7 authorization))) = Inr (Some tenant)"
    "rh_x_tenant_id h = None \<or> rh_x_tenant_id h = Some (t_id tenant)"
    "rq' = rq\<lparr>rq_tenant_id := Some (t_id tenant)\<rparr>"
  using assms
  by (auto simp: current_tenant_def Let_def bearer_prefix_length
      split: option.splits if_splits prod.splits sum.splits)

text \<open>
  C2. Identity: when a request is accepted as a tenant, it carried a non-empty bearer token
  that the tenant held in the store, as its current key or as a rotated key within its grace,
  at this moment or less than one cache TTL before; an \<open>X-Tenant-ID\<close> header, if any, names that
  tenant; and the request is logged under it.
\<close>

theorem accepted_tenant_holds_key:
  assumes "auth_run (wd_verify w) off stores ttl m now (gw_auth gw)" and "1 \<le> m"
    and "now \<le> wd_monotonic w" and "wd_utc w = wd_monotonic w + off"
    and "gw_store gw = stores (wd_monotonic w)" and "\<forall>t. store_inv (stores t)"
    and "current_tenant w gw rq h = (gw', rq', Inr tenant)"
  shows "\<exists>authorization t key.
    rh_authorization h = Some authorization \<and> starts_with (py_lower authorization) ''bearer '' \<and>
    key = py_strip (drop 7 authorization) \<and> key \<noteq> [] \<and>
    t \<le> wd_monotonic w \<and> (t = wd_monotonic w \<or> wd_monotonic w - t < ttl) \<and>
    (current_holder (wd_verify w) (stores t) key (t_id tenant) \<or>
     grace_holder (wd_verify w) (t + off) (stores t) key (t_id tenant)) \<and>
    (rh_x_tenant_id h = None \<or> rh_x_tenant_id h = Some (t_id tenant)) \<and>
    rq_tenant_id rq' = Some (t_id tenant)"
proof -
  obtain authorization where a: "rh_authorization h = Some authorization"
    "starts_with (py_lower authorization) bearer_prefix" "py_strip (drop 7 authorization) \<noteq> []"
    "snd (auth_authenticate (store_authenticate (wd_verify w) (wd_utc w) (gw_store gw)) (wd_monotonic w)
       (gw_auth gw) (py_strip (drop 7 authorization))) = Inr (Some tenant)"
    "rh_x_tenant_id h = None \<or> rh_x_tenant_id h = Some (t_id tenant)"
    "rq' = rq\<lparr>rq_tenant_id := Some (t_id tenant)\<rparr>"
    using assms(7) by (rule current_tenant_Inr)
  let ?key = "py_strip (drop 7 authorization)"
  have "Inr (Some tenant) = store_authenticate (wd_verify w) (wd_monotonic w + off) (stores (wd_monotonic w)) ?key \<or>
      (\<exists>t r. (Inr (Some tenant) :: exn + TenantRecord option) = Inr (Some r) \<and> t \<le> wd_monotonic w \<and>
        wd_monotonic w - t < ttl \<and>
        (current_holder (wd_verify w) (stores t) ?key (t_id r) \<or>
         grace_holder (wd_verify w) (t + off) (stores t) ?key (t_id r)))"
    using a(4) by (intro auth_run_staleness [OF assms(1-3,6)]) (simp add: assms(4,5))
  then obtain t where "t \<le> wd_monotonic w \<and> (t = wd_monotonic w \<or> wd_monotonic w - t < ttl) \<and>
    (current_holder (wd_verify w) (stores t) ?key (t_id tenant) \<or>
     grace_holder (wd_verify w) (t + off) (stores t) ?key (t_id tenant))"
  proof (elim disjE exE conjE, goal_cases)
    case 1
    from 1(2) [symmetric] have "current_holder (wd_verify w) (stores (wd_monotonic w)) ?key (t_id tenant) \<or>
     grace_holder (wd_verify w) (wd_monotonic w + off) (stores (wd_monotonic w)) ?key (t_id tenant)"
      using authenticate_soundD assms(6) by blast
    with 1(1) [of "wd_monotonic w"] show ?case by simp
  qed (auto)
  with a show ?thesis
    by (intro exI [of _ authorization] exI [of _ t] exI [of _ ?key]) (simp add: bearer_prefix_def)
qed

subsection \<open>The request log\<close>

lemma current_tenant_rq:
  assumes "current_tenant w gw rq h = (gw', rq', res)" "rq_tenant_id rq = None"
  shows "rq_tenant_id rq' \<noteq> None \<longleftrightarrow> is_ok res" "rq_model rq' = rq_model rq" "rq_backend rq' = rq_backend rq"
  using assms
  by (auto simp: current_tenant_def Let_def split: option.splits if_splits prod.splits sum.splits)

lemma create_chat_rq:
  assumes "create_chat_completion w body gw rq tenant = (gw', rq', res)" "rq_backend rq = None"
  shows "rq_tenant_id rq' = rq_tenant_id rq" "rq_model rq' = Some (cr_model body)"
    "rq_backend rq' = (case res of Inl e \<Rightarrow> None | Inr r \<Rightarrow> Some (gm_backend (cp_metadata r)))"
  using assms
  by (auto simp: create_chat_completion_def Let_def split: prod.splits sum.splits)

lemma serve_chat_rq:
  assumes "serve_chat w gw (new_request rid) h body = (gw', rq', res)"
  shows "rq_backend rq' = (case res of Inl e \<Rightarrow> None | Inr r \<Rightarrow> Some (gm_backend (cp_metadata r)))"
    and "rq_tenant_id rq' \<noteq> None \<longleftrightarrow> is_ok (snd (snd (current_tenant w gw (new_request rid) h)))"
    and "rq_model rq' \<noteq> None \<longleftrightarrow> is_ok (snd (snd (current_tenant w gw (new_request rid) h)))"
proof -
  obtain gw1 rq1 r1 where ct: "current_tenant w gw (new_request rid) h = (gw1, rq1, r1)"
    by (cases "current_tenant w gw (new_request rid) h") auto
  have new: "rq_tenant_id (new_request rid) = None" "rq_model (new_request rid) = None"
    "rq_backend (new_request rid) = None" by (simp_all add: new_request_def)
  note keep = current_tenant_rq [OF ct new(1)]
  have "rq_backend rq' = (case res of Inl e \<Rightarrow> None | Inr r \<Rightarrow> Some (gm_backend (cp_metadata r))) \<and>
     (rq_tenant_id rq' \<noteq> None \<longleftrightarrow> is_ok r1) \<and> (rq_model rq' \<noteq> None \<longleftrightarrow> is_ok r1)"
  proof (cases r1)
    case (Inl e)
    with assms ct keep new show ?thesis by (auto simp: serve_chat_def with_tenant_def)
  next
    case (Inr tenant)
    with assms ct have "create_chat_completion w body gw1 rq1 tenant = (gw', rq', res)"
      by (simp add: serve_chat_def with_tenant_def)
    from create_chat_rq [OF this] keep new Inr show ?thesis by simp
  qed
  with ct show "rq_backend rq' = (case res of Inl e \<Rightarrow> None | Inr r \<Rightarrow> Some (gm_backend (cp_metadata r)))"
    "rq_tenant_id rq' \<noteq> None \<longleftrightarrow> is_ok (snd (snd (current_tenant w gw (new_request rid) h)))"
    "rq_model rq' \<noteq> None \<longleftrightarrow> is_ok (snd (snd (current_tenant w gw (new_request rid) h)))"
    by simp_all
qed

text \<open>
  The request log: a chat request that is answered is logged once, with the status the client
  sees and the id in its \<open>X-Request-ID\<close> header; one that dies of an uncaught exception is logged
  as 500. The line names a tenant and a model exactly when the request was authenticated, and a
  backend exactly when it succeeded, with the status 200.
\<close>

theorem chat_request_logged:
  "case request_context token meth path (\<lambda>gw rq. serve_chat w gw rq h body) gw of
     (gw', line, out) \<Rightarrow>
       ll_request_id line = ''req_'' @ token \<and>
       (case out of
          Inl e \<Rightarrow> ll_status line = 500
        | Inr r \<Rightarrow> ll_status line = hp_status r \<and>
            map_of (hp_headers r) ''X-Request-ID'' = Some (ll_request_id line)) \<and>
       (ll_tenant_id line \<noteq> None \<longleftrightarrow>
          is_ok (snd (snd (current_tenant w gw (new_request (''req_'' @ token)) h)))) \<and>
       (ll_model line \<noteq> None \<longleftrightarrow> ll_tenant_id line \<noteq> None) \<and>
       (ll_backend line \<noteq> None \<longleftrightarrow> (\<exists>r b. out = Inr r \<and> hp_body r = Success b)) \<and>
       (ll_backend line = None \<or> ll_status line = 200)"
proof -
  obtain gw' rq' res where sv: "serve_chat w gw (new_request (''req_'' @ token)) h body = (gw', rq', res)"
    by (cases "serve_chat w gw (new_request (''req_'' @ token)) h body") auto
  note rq = serve_chat_rq [OF sv]
  show ?thesis
    unfolding request_context_def Let_def sv prod.case
    using rq by (auto simp: handle_exceptions_def Let_def dict_simps split: sum.split gw_exn.split)
qed

subsection \<open>Readiness\<close>

lemma ready_status: "fst (ready reg) = 200 \<longleftrightarrow> (\<forall>a \<in> set (rg_adapters reg). ad_healthy a)"
  by (simp add: ready_def Let_def list_all_iff)

text \<open>
  Readiness after any rounds of the health checker: \<open>/ready\<close> answers 200, and otherwise 503,
  exactly when every backend's streak of failed probes is below the threshold; and then no model
  request of any tenant is turned away for an unhealthy backend. A gateway that has just loaded
  its registry, or has no backend, is ready.
\<close>

theorem ready_means_no_backend_refused:
  assumes "from_config getenv timeout cfg = Inr reg" and "1 \<le> threshold"
  shows "let reg' = health_loop threshold envs reg in
    fst (ready reg') \<in> {200, 503} \<and>
    (fst (ready reg') = 200 \<longleftrightarrow>
      (\<forall>i < length (rg_adapters reg). int (fail_streak (probe_history threshold envs i (rg_adapters reg ! i))) < threshold)) \<and>
    (fst (ready reg') = 200 \<longrightarrow>
      (\<forall>m tenant cap g. resolve reg' m tenant cap = Inl (Gw g) \<longrightarrow> ge_class g \<noteq> BackendUnavailableError)) \<and>
    (envs = [] \<or> cfg = [] \<longrightarrow> fst (ready reg') = 200)"
proof -
  let ?reg' = "health_loop threshold envs reg"
  have len: "length (rg_adapters ?reg') = length (rg_adapters reg)" by simp
  have status: "fst (ready ?reg') = 200 \<longleftrightarrow>
      (\<forall>i < length (rg_adapters reg). int (fail_streak (probe_history threshold envs i (rg_adapters reg ! i))) < threshold)"
    unfolding ready_status all_set_conv_all_nth len
    using health_loop_healthy [OF assms(1) _ assms(2), of _ envs] by blast
  have inv: "reg_inv ?reg'"
    using from_config_inv [OF assms(1)] by (rule inv_intros)
  have "ge_class g \<noteq> BackendUnavailableError"
    if ok: "fst (ready ?reg') = 200" and r: "resolve ?reg' m tenant cap = Inl (Gw g)" for m tenant cap g
  proof
    assume "ge_class g = BackendUnavailableError"
    with r have "refusal ?reg' m tenant cap = Some BackendUnavailableError"
      using resolve_refusal(2) by metis
    then obtain i bm where "(m, i, bm) \<in> set (rg_by_model ?reg')" "\<not> ad_healthy (rg_adapters ?reg' ! i)"
      by (auto simp: refusal_def split: option.splits if_splits dest: map_of_SomeD)
    moreover from this inv have "rg_adapters ?reg' ! i \<in> set (rg_adapters ?reg')"
      by (force simp: reg_inv_def)
    ultimately show False
      using ok unfolding ready_status by blast
  qed
  moreover have "fst (ready ?reg') = 200" if "envs = [] \<or> cfg = []"
  proof -
    have "rg_adapters reg = []" if "cfg = []"
      using assms(1) that by (auto simp: from_config_iff)
    with that status assms(2) show ?thesis by (auto simp: fail_streak_def)
  qed
  moreover have "fst (ready ?reg') \<in> {200, 503}"
    by (simp add: ready_def Let_def)
  ultimately show ?thesis
    using status unfolding Let_def by blast
qed

subsection \<open>Witnesses\<close>

definition sample_world :: "http_outcome \<Rightarrow> (string, string \<Rightarrow> int) world" where
  "sample_world out = \<lparr>wd_monotonic = 5, wd_utc = 5, wd_seconds = 7, wd_verify = plain_hv,
     wd_redis = map_redis, wd_backend = sample_env out\<rparr>"

definition sample_gateway :: "(string, string \<Rightarrow> int) gateway" where
  "sample_gateway = \<lparr>gw_store = sample_store, gw_auth = authenticator 100 1, gw_redis = (\<lambda>_. 0),
     gw_fail_open = True, gw_registry = sample_registry, gw_checker = health_checker 30 3,
     gw_store_open = True, gw_redis_open = True\<rparr>"

definition sample_headers :: request_headers where
  "sample_headers = \<lparr>rh_authorization = Some ''Bearer tnk_live_a'', rh_x_tenant_id = None\<rparr>"

lemma sample_key: "py_strip (drop 7 ''Bearer tnk_live_a'') = ''tnk_live_a''"
  by (simp add: text_defs)

lemma sample_bearer: "starts_with (py_lower ''Bearer tnk_live_a'') bearer_prefix"
  by code_simp

lemma sample_authenticates:
  "auth_authenticate (store_authenticate plain_hv 5 sample_store) 5 (authenticator 100 1) ''tnk_live_a'' =
     (\<lparr>au_cache_ttl = 100, au_cache_max = 1, au_cache = [(''tnk_live_a'', 5, sample_any)]\<rparr>, Inr (Some sample_any))"
  by (simp add: auth_authenticate_def authenticator_def auth_miss_def store_authenticate_def verify_key_def
      plain_hv_def sample_store_def sample_row_def remember_def sample_any_def)

lemma sample_current_tenant:
  "current_tenant (sample_world out) sample_gateway (new_request rid) sample_headers =
     (sample_gateway\<lparr>gw_auth := \<lparr>au_cache_ttl = 100, au_cache_max = 1, au_cache = [(''tnk_live_a'', 5, sample_any)]\<rparr>\<rparr>,
      (new_request rid)\<lparr>rq_tenant_id := Some ''telcoss''\<rparr>, Inr sample_any)"
  unfolding current_tenant_def Let_def bearer_prefix_length
  using sample_key sample_bearer sample_authenticates
  by (simp add: sample_headers_def sample_world_def sample_gateway_def)
     (simp add: sample_any_def row_to_record_def sample_row_def)

lemma accepted_tenant_holds_key_witness:
  "\<exists>t key. key \<noteq> [] \<and> t \<le> (5::int) \<and>
     (current_holder plain_hv sample_store key ''telcoss'' \<or> grace_holder plain_hv t sample_store key ''telcoss'')"
proof -
  have run: "auth_run (wd_verify (sample_world HttpTimeout)) 0 (\<lambda>_. sample_store) 100 1 5 (gw_auth sample_gateway)"
    by (simp add: sample_gateway_def run_start)
  have id: "t_id sample_any = ''telcoss''"
    by (simp add: sample_any_def row_to_record_def sample_row_def)
  show ?thesis
    using accepted_tenant_holds_key [OF run _ _ _ _ _ sample_current_tenant [of HttpTimeout "''r''"]] sample_store_inv
    by (auto simp: sample_world_def sample_gateway_def id)
qed

lemma ready_means_no_backend_refused_witness:
  "fst (ready (health_loop 2 [] sample_registry)) = 200"
  using ready_means_no_backend_refused [OF sample_registry_loads, of 2 "[]"] by (simp add: Let_def)

lemma sample_not_limited:
  "enforce_rate_limit (sample_world out) gw sample_any ''chat.completions'' = (gw', lm) \<Longrightarrow>
     gw_redis gw = (\<lambda>_. 0) \<Longrightarrow> lm = Inr ()"
proof -
  have "limit_for sample_any ''chat.completions'' = Some ''60/min''"
    by (simp add: limit_for_def sample_any_def row_to_record_def sample_row_def default_limits_def)
  moreover have "parse_limit ''60/min'' = Inr (60, 60)"
    by code_simp
  ultimately show "enforce_rate_limit (sample_world out) gw sample_any ''chat.completions'' = (gw', lm) \<Longrightarrow>
     gw_redis gw = (\<lambda>_. 0) \<Longrightarrow> lm = Inr ()"
    by (auto simp: enforce_rate_limit_def rl_enforce_def rl_count_def map_redis_def sample_world_def)
qed

lemma sample_served:
  "snd (snd (serve_chat (with_network (sample_world HttpTimeout) s) sample_gateway (new_request rid)
     sample_headers sample_chat_request)) =
   route_chat (wd_backend (with_network (sample_world HttpTimeout) s)) sample_registry sample_chat_request sample_any"
proof -
  let ?gw = "sample_gateway\<lparr>gw_auth := \<lparr>au_cache_ttl = 100, au_cache_max = 1, au_cache = [(''tnk_live_a'', 5, sample_any)]\<rparr>\<rparr>"
  obtain gw' lm where en: "enforce_rate_limit (sample_world HttpTimeout) ?gw sample_any ''chat.completions'' = (gw', lm)"
    by (cases "enforce_rate_limit (sample_world HttpTimeout) ?gw sample_any ''chat.completions''") auto
  moreover have "lm = Inr ()"
    by (rule sample_not_limited [OF en]) (simp add: sample_gateway_def)
  moreover have "gw_registry gw' = sample_registry"
    using enforce_keeps(1) [OF en] by (simp add: sample_gateway_def)
  ultimately show ?thesis
    by (simp add: serve_chat_def with_tenant_def sample_current_tenant create_chat_completion_def Let_def split: sum.split)
qed

lemma sample_route:
  "route_chat (wd_backend (with_network (sample_world HttpTimeout) (\<lambda>_. out))) sample_registry sample_chat_request sample_any =
   adapter_chat (\<lambda>_. out) sample_validate (new_adapter OpenAICompat ''tpro'' ''http://tpro/'' 900 None) sample_chat_request
     \<lparr>bm_id = ''t-pro'', bm_backend_model_name = ''T-pro.gguf'', bm_capabilities = [Chat]\<rparr>"
  by (simp add: route_chat_def resolve_def get_backend_for_def sample_registry_def sample_config_def
      reg_of_def index_entry_def sample_any_def row_to_record_def sample_row_def sample_chat_request_def
      sample_world_def sample_env_def new_adapter_def with_network_def Let_def)

lemma chat_reaches_only_permitted_backend_witness:
  "\<exists>gw1 rq1 tenant. current_tenant (sample_world HttpTimeout) sample_gateway (new_request ''r'') sample_headers =
     (gw1, rq1, Inr tenant) \<and> visible_to tenant ''t-pro''"
proof -
  let ?serve = "\<lambda>s. serve_chat (with_network (sample_world HttpTimeout) s) sample_gateway (new_request ''r'')
     sample_headers sample_chat_request"
  have "snd (snd (?serve (\<lambda>_. HttpTimeout))) \<noteq> snd (snd (?serve (\<lambda>_. HttpFailure ''down'')))"
    unfolding sample_served sample_route
    by (simp add: adapter_chat_def openai_chat_def request_json_def new_adapter_def Let_def
        backend_timeout_def backend_unavailable_def gateway_error_def)
  then have "?serve (\<lambda>_. HttpTimeout) \<noteq> ?serve (\<lambda>_. HttpFailure ''down'')" by metis
  from chat_reaches_only_permitted_backend [OF this] show ?thesis
    by (auto simp: sample_chat_request_def)
qed

end
