(* ===== verification/Tenancy_Cli.thy ===== *)
theory Tenancy_Cli
  imports Tenant_Store
begin

text \<open>
  Tenant management from the command line (\<open>app/tenancy/cli.py\<close>) and the seeding of the default tenants
  (\<open>scripts/seed-tenants.py\<close>), over the tenant store. A command yields the store, its exit code and the lines
  it printed. Formatting of times and dictionaries is a parameter.
\<close>

subsection \<open>Commands\<close>

record formats =
  fm_date :: "time \<Rightarrow> string"
  fm_iso :: "time \<Rightarrow> string"
  fm_dict :: "(string, string) pydict \<Rightarrow> string"

type_synonym 'h cli_result = "'h tenant_store \<times> int \<times> string list"

definition parse_models :: "string \<Rightarrow> string list" where
  "parse_models spec = filter (\<lambda>m. m \<noteq> []) (map py_strip (py_split CHR '','' spec))"

definition exn_text :: "store_exn \<Rightarrow> string" where
  "exn_text e = (case e of TenantExists m \<Rightarrow> m | TenantNotFound m \<Rightarrow> m)"

definition ljust :: "nat \<Rightarrow> string \<Rightarrow> string" where
  "ljust n s = s @ replicate (n - length s) CHR '' ''"

definition cli_create ::
  "(string \<Rightarrow> 'h) \<Rightarrow> string \<Rightarrow> time \<Rightarrow> 'h tenant_store \<Rightarrow> string \<Rightarrow> string \<Rightarrow> string \<Rightarrow> 'h cli_result"
where
  "cli_create hs token now st tid display models =
     (case store_create hs token now st tid (if display = [] then tid else display) (parse_models models) None of
        (st', Inl e) \<Rightarrow> (st', 1, [''error: '' @ exn_text e])
      | (st', Inr (r, raw_key)) \<Rightarrow>
          (st', 0,
           [''CREATED '' @ t_id r,
            ''  display:        '' @ t_display_name r,
            ''  allowed_models: '' @ py_join '', '' (t_allowed_models r),
            ''  API KEY:        '' @ raw_key,
            ''  ^ save this now - it cannot be retrieved later.'']))"

definition list_line :: "formats \<Rightarrow> TenantRecord \<Rightarrow> string" where
  "list_line fm r =
     ljust 20 (t_id r) @ '' '' @ ljust 24 (t_display_name r) @ '' '' @ ljust 16 (py_join '','' (t_allowed_models r))
       @ '' '' @ fm_date fm (t_created_at r) @ (if t_deleted_at r \<noteq> None then ''  [deleted]'' else [])"

definition cli_list :: "formats \<Rightarrow> 'h tenant_store \<Rightarrow> bool \<Rightarrow> 'h cli_result" where
  "cli_list fm st include_deleted =
     (let rows = store_list st include_deleted
      in if rows = [] then (st, 0, [''(no tenants)''])
         else (st, 0, (ljust 20 ''ID'' @ '' '' @ ljust 24 ''DISPLAY'' @ '' '' @ ljust 16 ''MODELS'' @ '' CREATED'')
                # map (list_line fm) rows))"

definition cli_show :: "formats \<Rightarrow> 'h tenant_store \<Rightarrow> string \<Rightarrow> 'h cli_result" where
  "cli_show fm st tid =
     (case store_get st tid of
        None \<Rightarrow> (st, 1, [''error: tenant not found: '' @ tid])
      | Some r \<Rightarrow>
          (st, 0,
           [''id:             '' @ t_id r,
            ''display_name:   '' @ t_display_name r,
            ''allowed_models: '' @ py_join '', '' (t_allowed_models r),
            ''rate_limits:    '' @ (if t_rate_limits r = [] then ''(defaults)'' else fm_dict fm (t_rate_limits r)),
            ''created_at:     '' @ fm_iso fm (t_created_at r),
            ''updated_at:     '' @ fm_iso fm (t_updated_at r),
            ''deleted_at:     '' @ (case t_deleted_at r of None \<Rightarrow> ''-'' | Some t \<Rightarrow> fm_iso fm t)]))"

definition cli_rotate_key :: "(string \<Rightarrow> 'h) \<Rightarrow> string \<Rightarrow> time \<Rightarrow> time \<Rightarrow> 'h tenant_store \<Rightarrow> string \<Rightarrow> 'h cli_result" where
  "cli_rotate_key hs token now now' st tid =
     (case store_rotate_key hs token now now' st tid of
        (st', Inl e) \<Rightarrow> (st', 1, [''error: '' @ exn_text e])
      | (st', Inr new_key) \<Rightarrow>
          (st', 0, [''ROTATED '' @ tid, ''  NEW API KEY: '' @ new_key, ''  Old key remains valid for 24 h.'']))"

definition cli_delete :: "time \<Rightarrow> time \<Rightarrow> 'h tenant_store \<Rightarrow> string \<Rightarrow> bool \<Rightarrow> 'h cli_result" where
  "cli_delete now now' st tid confirm =
     (if \<not> confirm then (st, 1, [''refusing to delete without --confirm''])
      else case store_soft_delete now now' st tid of
        (st', Inl e) \<Rightarrow> (st', 1, [''error: '' @ exn_text e])
      | (st', Inr _) \<Rightarrow> (st', 0, [''ARCHIVED '' @ tid]))"

text \<open>\<open>http url key\<close> is the status of a GET with the bearer key, if any, or the text of an \<open>HTTPError\<close>.\<close>

definition cli_smoke_test ::
  "(string \<Rightarrow> string option \<Rightarrow> string + int) \<Rightarrow> 'h tenant_store \<Rightarrow> string \<Rightarrow> string \<Rightarrow> string \<Rightarrow> 'h cli_result"
where
  "cli_smoke_test http st tid base_url key =
     (case store_get st tid of
        None \<Rightarrow> (st, 1, [''error: tenant not found: '' @ tid])
      | Some r \<Rightarrow>
          let present = ''[ok] tenant '' @ tid @ '' present in store'';
              unreachable = (\<lambda>msg. ''[!!] gateway unreachable at '' @ base_url @ '': '' @ msg)
          in case http (base_url @ ''/health'') None of
               Inl msg \<Rightarrow> (st, 0, [present, unreachable msg])
             | Inr code \<Rightarrow>
                 (let health = ''[--] GET /health -> '' @ show_int code
                  in if key = [] then (st, 0, [present, health])
                     else case http (base_url @ ''/v1/models'') (Some key) of
                       Inl msg \<Rightarrow> (st, 0, [present, health, unreachable msg])
                     | Inr code' \<Rightarrow> (st, 0, [present, health, ''[--] GET /v1/models -> '' @ show_int code'])))"

subsection \<open>Seeding\<close>

definition seed_tenants :: "(string \<times> string) list" where
  "seed_tenants = [(''telcoss'', ''Telcoss''), (''pamyat-naroda'', ''Pamyat-Naroda Graph'')]"

text \<open>
  The loop over the seeds: the store, the created ids with their keys, and the lines printed. \<open>create\<close> does
  not raise here, because \<open>get\<close> has just found nothing.
\<close>

fun seed_loop ::
  "(string \<Rightarrow> 'h) \<Rightarrow> (string \<Rightarrow> string) \<Rightarrow> time \<Rightarrow> (string \<times> string) list \<Rightarrow> 'h tenant_store
    \<Rightarrow> 'h tenant_store \<times> (string \<times> string) list \<times> string list"
where
  "seed_loop hs token now [] st = (st, [], [])"
| "seed_loop hs token now ((tid, display) # seeds) st =
     (if store_get st tid \<noteq> None
      then (case seed_loop hs token now seeds st of
              (st', created, out) \<Rightarrow> (st', created, (''  [-] '' @ tid @ '': exists, skipped'') # out))
      else case store_create hs (token tid) now st tid display [''*''] None of
        (st1, Inl e) \<Rightarrow> (st1, [], [])
      | (st1, Inr (r, raw_key)) \<Rightarrow>
          (case seed_loop hs token now seeds st1 of
             (st', created, out) \<Rightarrow> (st', (t_id r, raw_key) # created, (''  [+] CREATED '' @ t_id r) # out)))"

definition seed_main ::
  "(string \<Rightarrow> 'h) \<Rightarrow> (string \<Rightarrow> string) \<Rightarrow> time \<Rightarrow> string \<Rightarrow> 'h tenant_store \<Rightarrow> 'h cli_result"
where
  "seed_main hs token now path st =
     (case seed_loop hs token now seed_tenants st of
        (st', created, out) \<Rightarrow>
          (st', 0, (''Tenant store: '' @ path) # out @
            (if created \<noteq> []
             then [[], replicate 64 CHR ''='', ''SAVE THESE KEYS NOW - they cannot be retrieved later:'']
               @ map (\<lambda>(tid, key). ''  '' @ ljust 18 tid @ '' '' @ key) created @ [replicate 64 CHR ''='']
             else [''All seed tenants already present - nothing to do.''])))"

subsection \<open>Properties\<close>

definition seeded_row :: "(string \<Rightarrow> 'h) \<Rightarrow> (string \<Rightarrow> string) \<Rightarrow> time \<Rightarrow> string \<times> string \<Rightarrow> 'h tenant_row" where
  "seeded_row hs token now seed =
     \<lparr>tr_id = fst seed, tr_api_key_hash = hs (generate_api_key (token (fst seed))), tr_display_name = snd seed,
      tr_allowed_models = [''*''], tr_rate_limits = [], tr_created_at = now, tr_updated_at = now,
      tr_deleted_at = None\<rparr>"

lemma seeded_row_id [simp]: "tr_id (seeded_row hs token now seed) = fst seed"
  by (simp add: seeded_row_def)

lemma find_append_new: "find P xs = None \<Longrightarrow> P y \<Longrightarrow> find P (xs @ [y]) = Some y"
  by (induction xs) (auto split: if_splits)

lemma store_create_new:
  assumes "store_get st tid = None"
  shows "store_create hs token now st tid dn models None =
    (let row = \<lparr>tr_id = tid, tr_api_key_hash = hs (generate_api_key token), tr_display_name = dn,
       tr_allowed_models = models, tr_rate_limits = [], tr_created_at = now, tr_updated_at = now, tr_deleted_at = None\<rparr>
     in (st\<lparr>st_tenants := st_tenants st @ [row]\<rparr>, Inr (row_to_record row, generate_api_key token)))"
proof -
  have "find (\<lambda>r. tr_id r = tid) (st_tenants st) = None" using assms by (simp add: store_get_def)
  then have "find (\<lambda>r. tr_id r = tid) (st_tenants st @ [row]) = Some row" if "tr_id row = tid" for row
    using that by (rule find_append_new)
  with assms show ?thesis by (simp add: store_create_def store_get_def Let_def)
qed

lemma seed_loop_result:
  assumes "distinct (map fst seeds)"
  shows "\<exists>out. seed_loop hs token now seeds st =
    (let fresh = filter (\<lambda>s. fst s \<notin> set (tenant_ids st)) seeds
     in (st\<lparr>st_tenants := st_tenants st @ map (seeded_row hs token now) fresh\<rparr>,
         map (\<lambda>s. (fst s, generate_api_key (token (fst s)))) fresh, out)) \<and> length out = length seeds"
  using assms
proof (induction seeds arbitrary: st)
  case (Cons seed seeds)
  obtain tid display where seed: "seed = (tid, display)" by (cases seed)
  show ?case
  proof (cases "store_get st tid")
    case (Some r)
    then have "tid \<in> set (tenant_ids st)" using store_get_None_iff [of st tid] by auto
    moreover have "\<exists>out. seed_loop hs token now seeds st =
      (let fresh = filter (\<lambda>s. fst s \<notin> set (tenant_ids st)) seeds
       in (st\<lparr>st_tenants := st_tenants st @ map (seeded_row hs token now) fresh\<rparr>,
           map (\<lambda>s. (fst s, generate_api_key (token (fst s)))) fresh, out)) \<and> length out = length seeds"
      by (rule Cons.IH) (use Cons.prems in simp)
    ultimately show ?thesis using Some by (auto simp: seed Let_def)
  next
    case None
    let ?row = "seeded_row hs token now seed"
    let ?st = "st\<lparr>st_tenants := st_tenants st @ [?row]\<rparr>"
    have new: "tid \<notin> set (tenant_ids st)" using None store_get_None_iff by blast
    have create: "store_create hs (token tid) now st tid display [''*''] None =
        (?st, Inr (row_to_record ?row, generate_api_key (token tid)))"
      using store_create_new [OF None] by (simp add: seeded_row_def seed Let_def)
    have "filter (\<lambda>s. fst s \<notin> set (tenant_ids ?st)) seeds = filter (\<lambda>s. fst s \<notin> set (tenant_ids st)) seeds"
      using Cons.prems by (intro filter_cong) (auto simp: tenant_ids_def seed)
    moreover have "\<exists>out. seed_loop hs token now seeds ?st =
      (let fresh = filter (\<lambda>s. fst s \<notin> set (tenant_ids ?st)) seeds
       in (?st\<lparr>st_tenants := st_tenants ?st @ map (seeded_row hs token now) fresh\<rparr>,
           map (\<lambda>s. (fst s, generate_api_key (token (fst s)))) fresh, out)) \<and> length out = length seeds"
      by (rule Cons.IH) (use Cons.prems in simp)
    ultimately show ?thesis using None create new by (auto simp: seed Let_def)
  qed
qed (simp add: Let_def)

definition missing_seeds :: "'h tenant_store \<Rightarrow> (string \<times> string) list" where
  "missing_seeds st = filter (\<lambda>s. fst s \<notin> set (tenant_ids st)) seed_tenants"

definition seed_report :: "(string \<Rightarrow> string) \<Rightarrow> (string \<times> string) list \<Rightarrow> string list" where
  "seed_report token seeds =
     (if seeds = [] then [''All seed tenants already present - nothing to do.'']
      else [[], replicate 64 CHR ''='', ''SAVE THESE KEYS NOW - they cannot be retrieved later:'']
        @ map (\<lambda>s. ''  '' @ ljust 18 (fst s) @ '' '' @ generate_api_key (token (fst s))) seeds
        @ [replicate 64 CHR ''=''])"

lemma seed_main_result:
  "\<exists>out. length out = 2 \<and> seed_main hs token now path st =
     (st\<lparr>st_tenants := st_tenants st @ map (seeded_row hs token now) (missing_seeds st)\<rparr>, 0,
      (''Tenant store: '' @ path) # out @ seed_report token (missing_seeds st))"
proof -
  have "distinct (map fst seed_tenants)" by (simp add: seed_tenants_def)
  from seed_loop_result [OF this, of hs token now st] obtain out where
    "seed_loop hs token now seed_tenants st =
       (st\<lparr>st_tenants := st_tenants st @ map (seeded_row hs token now) (missing_seeds st)\<rparr>,
        map (\<lambda>s. (fst s, generate_api_key (token (fst s)))) (missing_seeds st), out)"
    "length out = length seed_tenants" by (auto simp: missing_seeds_def Let_def)
  then show ?thesis
    by (intro exI [of _ out]) (auto simp: seed_main_def seed_report_def seed_tenants_def)
qed

lemma nothing_missing_after:
  "missing_seeds (st\<lparr>st_tenants := st_tenants st @ map (seeded_row hs token now) (missing_seeds st)\<rparr>) = []"
  by (auto simp: missing_seeds_def tenant_ids_def filter_empty_conv)

text \<open>
  Seeding never touches an existing tenant: it exits with 0, appends to the store exactly the seeds whose id is
  not there yet, each allowed every model, and prints the key of each of these and of no other; run again, it
  leaves the store as it is and says so.
\<close>

theorem seeding_is_idempotent:
  "\<exists>out again. length out = 2 \<and> length again = 2 \<and>
     (let st' = st\<lparr>st_tenants := st_tenants st @ map (seeded_row hs token now) (missing_seeds st)\<rparr>
      in seed_main hs token now path st
           = (st', 0, (''Tenant store: '' @ path) # out @ seed_report token (missing_seeds st))
         \<and> seed_main hs token' later path st'
           = (st', 0, (''Tenant store: '' @ path) # again @ [''All seed tenants already present - nothing to do.'']))"
  using seed_main_result [of hs token now path st]
    seed_main_result [of hs token' later path
      "st\<lparr>st_tenants := st_tenants st @ map (seeded_row hs token now) (missing_seeds st)\<rparr>"]
  by (auto simp: Let_def nothing_missing_after seed_report_def)

subsection \<open>The model list on the command line\<close>

definition clean_name :: "string \<Rightarrow> bool" where
  "clean_name m \<longleftrightarrow> m \<noteq> [] \<and> CHR '','' \<notin> set m \<and> \<not> is_space (hd m) \<and> \<not> is_space (last m)"

lemma strip_where_tight:
  assumes "s \<noteq> []" "\<not> p (hd s)" "\<not> p (last s)"
  shows "strip_where p s = s" "p c \<Longrightarrow> strip_where p (c # s) = s"
proof -
  have "dropWhile p s = s" using assms by (cases s) auto
  moreover have "dropWhile p (rev s) = rev s" using assms by (cases s rule: rev_cases) auto
  ultimately show "strip_where p s = s" "p c \<Longrightarrow> strip_where p (c # s) = s" by (simp_all add: strip_where_def)
qed

lemma parse_models_clean: "m \<in> set (parse_models spec) \<Longrightarrow> clean_name m"
  using strip_where_ends [of is_space] set_strip_where [of is_space] py_split_no_sep [of _ "CHR '',''" spec]
  by (fastforce simp: parse_models_def clean_name_def py_strip_def)

lemma py_split_piece: "c \<notin> set p \<Longrightarrow> py_split c (p @ c # s) = p # py_split c s"
  by (induction p) auto

lemma py_split_whole: "c \<notin> set p \<Longrightarrow> py_split c p = [p]"
  by (induction p) auto

lemma strip_clean: "clean_name m \<Longrightarrow> py_strip m = m" "clean_name m \<Longrightarrow> py_strip (CHR '' '' # m) = m"
  using strip_where_tight [of m is_space] by (auto simp: py_strip_def clean_name_def is_space_def char_code_def)

lemma parse_models_join:
  "list_all clean_name ms \<Longrightarrow> parse_models (py_join '', '' ms) = ms \<and> parse_models (CHR '' '' # py_join '', '' ms) = ms"
proof (induction "'', ''" ms rule: py_join.induct)
  case (2 m)
  then have "CHR '','' \<notin> set m" by (simp add: clean_name_def)
  with 2 show ?case
    using py_split_whole [of "CHR '',''" m] py_split_whole [of "CHR '',''" "CHR '' '' # m"]
    by (simp add: parse_models_def strip_clean clean_name_def)
next
  case (3 m n ms)
  have m: "CHR '','' \<notin> set m" "py_strip m = m" "py_strip (CHR '' '' # m) = m" "m \<noteq> []"
    using 3(2) strip_clean [of m] by (auto simp: clean_name_def)
  have ind: "parse_models (CHR '' '' # py_join '', '' (n # ms)) = n # ms" using 3 by simp
  have split: "py_split CHR '','' (x @ CHR '','' # CHR '' '' # py_join '', '' (n # ms)) =
      x # py_split CHR '','' (CHR '' '' # py_join '', '' (n # ms))" if "CHR '','' \<notin> set x" for x
    by (rule py_split_piece [OF that])
  show ?case
    using ind m split [of m] split [of "CHR '' '' # m"]
    by (simp add: parse_models_def del: py_split.simps)
qed (simp add: parse_models_def py_strip_def strip_where_def is_space_def char_code_def)

text \<open>
  What \<open>create\<close> makes of \<open>--models\<close> is a list of non-empty names without commas and outer blanks, and the
  line \<open>allowed_models\<close> that \<open>create\<close> and \<open>show\<close> print reads back as exactly that list.
\<close>

theorem parse_models_roundtrip:
  "list_all clean_name (parse_models spec) \<and> parse_models (py_join '', '' (parse_models spec)) = parse_models spec"
  using parse_models_join [of "parse_models spec"] parse_models_clean by (auto simp: list_all_iff)

end
