(* ===== verification/Service.thy ===== *)
theory Service
  imports Gateway Tenancy_Cli
begin

text \<open>
  The running gateway (\<open>app/main.py\<close> with everything it brings up): requests in flight, the health
  checker, drained clients and the tenant command line of another process over the same database, in
  every interleaving. A request is a task of the event loop that runs from one await to the next:
  the authentication dependency, the rate limiter, the router with its backend call.
\<close>

subsection \<open>Routes and their handlers\<close>

datatype route =
    ToChat ChatCompletionRequest
  | ToCompletions CompletionRequest
  | ToEmbeddings EmbeddingRequest
  | ToRerank RerankRequest
  | ToModels
  | ToTenantMe

datatype reply =
    ChatReply ChatCompletionResponse
  | CompletionReply CompletionResponse
  | EmbeddingReply EmbeddingResponse
  | RerankReply RerankResponse
  | ModelsReply "Model list"
  | IdentityReply TenantIdentity

definition reply_as :: "('b \<Rightarrow> reply) \<Rightarrow> ('h, 'r, 'b) route_result \<Rightarrow> ('h, 'r, reply) route_result" where
  "reply_as f r = (case r of (gw, rq, res) \<Rightarrow> (gw, rq, rmap f res))"

text \<open>The routers that \<open>create_app\<close> includes, each with its handler.\<close>

definition handle_route ::
  "('h, 'r) world \<Rightarrow> route \<Rightarrow> ('h, 'r) gateway \<Rightarrow> request_state \<Rightarrow> TenantRecord \<Rightarrow> ('h, 'r, reply) route_result"
where
  "handle_route w route gw rq tenant =
     (case route of
        ToChat body \<Rightarrow> reply_as ChatReply (create_chat_completion w body gw rq tenant)
      | ToCompletions body \<Rightarrow> reply_as CompletionReply (create_completion w body gw rq tenant)
      | ToEmbeddings body \<Rightarrow> reply_as EmbeddingReply (create_embedding w body gw rq tenant)
      | ToRerank body \<Rightarrow> reply_as RerankReply (create_rerank w body gw rq tenant)
      | ToModels \<Rightarrow> reply_as ModelsReply (list_models gw rq tenant)
      | ToTenantMe \<Rightarrow> reply_as IdentityReply (get_current_tenant_identity gw rq tenant))"

subsection \<open>A request as a task\<close>

text \<open>What a request does between its awaits, route by route.\<close>

definition route_model :: "route \<Rightarrow> string option" where
  "route_model route =
     (case route of ToChat b \<Rightarrow> Some (cr_model b) | ToCompletions b \<Rightarrow> Some (lr_model b)
      | ToEmbeddings b \<Rightarrow> Some (er_model b) | ToRerank b \<Rightarrow> Some (rr_model b)
      | ToModels \<Rightarrow> None | ToTenantMe \<Rightarrow> None)"

definition route_endpoint :: "route \<Rightarrow> string option" where
  "route_endpoint route =
     (case route of ToChat b \<Rightarrow> Some ''chat.completions'' | ToCompletions b \<Rightarrow> Some ''completions''
      | ToEmbeddings b \<Rightarrow> Some ''embeddings'' | ToRerank b \<Rightarrow> Some ''rerank''
      | ToModels \<Rightarrow> None | ToTenantMe \<Rightarrow> None)"

definition answer_route :: "backend_env \<Rightarrow> Registry \<Rightarrow> route \<Rightarrow> TenantRecord \<Rightarrow> gw_exn + reply" where
  "answer_route env reg route tenant =
     (case route of
        ToChat body \<Rightarrow> rmap ChatReply (route_chat env reg body tenant)
      | ToCompletions body \<Rightarrow> rmap CompletionReply (route_completion env reg body tenant)
      | ToEmbeddings body \<Rightarrow> rmap EmbeddingReply (route_embedding env reg body tenant)
      | ToRerank body \<Rightarrow> rmap RerankReply (route_rerank env reg body tenant)
      | ToModels \<Rightarrow> rmap ModelsReply (lift_py (models_for reg tenant))
      | ToTenantMe \<Rightarrow> Inr (IdentityReply \<lparr>ti_tenant_id = t_id tenant, ti_display_name = t_display_name tenant,
          ti_allowed_models = t_allowed_models tenant, ti_rate_limits = t_rate_limits tenant\<rparr>))"

definition reply_backend :: "gw_exn + reply \<Rightarrow> string option" where
  "reply_backend res =
     (case res of
        Inr (ChatReply r) \<Rightarrow> Some (gm_backend (cp_metadata r))
      | Inr (CompletionReply r) \<Rightarrow> Some (gm_backend (lp_metadata r))
      | _ \<Rightarrow> None)"

lemma reply_backend_simps [simp]:
  "reply_backend (Inl e) = None"
  "reply_backend (rmap ChatReply r) = (case r of Inl e \<Rightarrow> None | Inr x \<Rightarrow> Some (gm_backend (cp_metadata x)))"
  "reply_backend (rmap CompletionReply r') = (case r' of Inl e \<Rightarrow> None | Inr x \<Rightarrow> Some (gm_backend (lp_metadata x)))"
  "reply_backend (rmap EmbeddingReply r1) = None" "reply_backend (rmap RerankReply r2) = None"
  "reply_backend (rmap ModelsReply r3) = None" "reply_backend (Inr (IdentityReply i)) = None"
  by (simp add: reply_backend_def)
     (cases r; cases r'; cases r1; cases r2; cases r3; simp add: reply_backend_def)+

datatype phase =
    Arrived
  | Authenticated TenantRecord
  | Admitted TenantRecord
  | Answered "gw_exn + reply"

record task =
  tk_headers :: request_headers
  tk_route :: route
  tk_rq :: request_state
  tk_phase :: phase

definition new_task :: "string \<Rightarrow> request_headers \<Rightarrow> route \<Rightarrow> task" where
  "new_task token h route =
     \<lparr>tk_headers = h, tk_route = route, tk_rq = new_request (''req_'' @ token), tk_phase = Arrived\<rparr>"

definition advance :: "('h, 'r) world \<Rightarrow> ('h, 'r) gateway \<Rightarrow> task \<Rightarrow> ('h, 'r) gateway \<times> task" where
  "advance w gw tk =
     (case tk_phase tk of
        Arrived \<Rightarrow>
          (case current_tenant w gw (tk_rq tk) (tk_headers tk) of
             (gw', rq', Inl e) \<Rightarrow> (gw', tk\<lparr>tk_rq := rq', tk_phase := Answered (Inl e)\<rparr>)
           | (gw', rq', Inr tenant) \<Rightarrow>
               (gw', tk\<lparr>tk_rq := (case route_model (tk_route tk) of None \<Rightarrow> rq' | Some m \<Rightarrow> rq'\<lparr>rq_model := Some m\<rparr>),
                        tk_phase := Authenticated tenant\<rparr>))
      | Authenticated tenant \<Rightarrow>
          (case route_endpoint (tk_route tk) of
             None \<Rightarrow> (gw, tk\<lparr>tk_phase := Admitted tenant\<rparr>)
           | Some endpoint \<Rightarrow>
               (case enforce_rate_limit w gw tenant endpoint of
                  (gw', Inl e) \<Rightarrow> (gw', tk\<lparr>tk_phase := Answered (Inl e)\<rparr>)
                | (gw', Inr _) \<Rightarrow> (gw', tk\<lparr>tk_phase := Admitted tenant\<rparr>)))
      | Admitted tenant \<Rightarrow>
          (let res = answer_route (wd_backend w) (gw_registry gw) (tk_route tk) tenant
           in (gw, tk\<lparr>tk_rq := (case reply_backend res of None \<Rightarrow> tk_rq tk | Some b \<Rightarrow> (tk_rq tk)\<lparr>rq_backend := Some b\<rparr>),
                      tk_phase := Answered res\<rparr>))
      | Answered res \<Rightarrow> (gw, tk))"

definition undisturbed :: "('h, 'r) world \<Rightarrow> ('h, 'r) gateway \<Rightarrow> task \<Rightarrow> ('h, 'r) gateway \<times> task" where
  "undisturbed w gw tk =
     (case advance w gw tk of (gw1, tk1) \<Rightarrow> case advance w gw1 tk1 of (gw2, tk2) \<Rightarrow> advance w gw2 tk2)"


subsection \<open>The process and its neighbours\<close>

text \<open>What surrounds the gateway: Argon2, Redis, the wall clock's distance from the monotonic one.\<close>

record ('h, 'r) platform =
  pf_verify :: "'h \<Rightarrow> string \<Rightarrow> verify_outcome"
  pf_hash :: "string \<Rightarrow> 'h"
  pf_redis :: "'r redis_ops"
  pf_offset :: time
  pf_threshold :: int

definition world_at :: "('h, 'r) platform \<Rightarrow> time \<Rightarrow> backend_env \<Rightarrow> ('h, 'r) world" where
  "world_at pf now env = \<lparr>wd_monotonic = now, wd_utc = now + pf_offset pf, wd_seconds = now + pf_offset pf,
     wd_verify = pf_verify pf, wd_redis = pf_redis pf, wd_backend = env\<rparr>"

text \<open>
  A command of the tenant command line, run by an operator; a token is what the generator of keys gives.
\<close>

datatype admin_command =
    AdminCreate string string string string
  | AdminRotate string string
  | AdminDelete string bool

definition run_admin :: "('h, 'r) platform \<Rightarrow> time \<Rightarrow> 'h tenant_store \<Rightarrow> admin_command \<Rightarrow> 'h cli_result" where
  "run_admin pf now st cmd =
     (case cmd of
        AdminCreate token tid display models \<Rightarrow> cli_create (pf_hash pf) token now st tid display models
      | AdminRotate token tid \<Rightarrow> cli_rotate_key (pf_hash pf) token now now st tid
      | AdminDelete tid confirm \<Rightarrow> cli_delete now now st tid confirm)"

text \<open>
  The state: the gateway, the clock and the tasks; and, for the statements only, the charges made against
  the limiter and the results of the probes of each adapter.
\<close>

record charge =
  ch_tenant :: string
  ch_endpoint :: string
  ch_limit :: "(int \<times> int) option"
  ch_admitted :: bool

record ('h, 'r) service =
  sv_gateway :: "('h, 'r) gateway"
  sv_clock :: time
  sv_tasks :: "nat \<Rightarrow> task option"
  sv_charges :: "charge list"
  sv_probes :: "nat \<Rightarrow> bool list"

text \<open>The limit and the bucket a request counts against, as \<open>enforce\<close> computes them.\<close>

definition limit_of :: "TenantRecord \<Rightarrow> string \<Rightarrow> int \<Rightarrow> (int \<times> int) option" where
  "limit_of tenant endpoint now =
     (case limit_for tenant endpoint of
        None \<Rightarrow> None
      | Some spec \<Rightarrow> (case parse_limit spec of Inl e \<Rightarrow> None | Inr (most, window) \<Rightarrow> Some (most, now div window)))"

definition charges_of :: "('h, 'r) world \<Rightarrow> ('h, 'r) gateway \<Rightarrow> task \<Rightarrow> charge list" where
  "charges_of w gw tk =
     (case (tk_phase tk, route_endpoint (tk_route tk)) of
        (Authenticated tenant, Some endpoint) \<Rightarrow>
          [\<lparr>ch_tenant = t_id tenant, ch_endpoint = endpoint, ch_limit = limit_of tenant endpoint (wd_seconds w),
            ch_admitted = is_ok (snd (enforce_rate_limit w gw tenant endpoint))\<rparr>]
      | _ \<Rightarrow> [])"

datatype service_op =
    Tick time
  | Arrive nat string request_headers route
  | Proceed nat backend_env
  | Probe nat probe_env
  | Drained nat http_client bool
  | Admin admin_command

definition adapter_at :: "('h, 'r) gateway \<Rightarrow> nat \<Rightarrow> BackendAdapter" where
  "adapter_at gw i = rg_adapters (gw_registry gw) ! i"

definition set_adapter :: "nat \<Rightarrow> BackendAdapter \<Rightarrow> ('h, 'r) gateway \<Rightarrow> ('h, 'r) gateway" where
  "set_adapter i a gw =
     gw\<lparr>gw_registry := (gw_registry gw)\<lparr>rg_adapters := (rg_adapters (gw_registry gw))[i := a]\<rparr>\<rparr>"

inductive service_step :: "('h, 'r) platform \<Rightarrow> service_op \<Rightarrow> ('h, 'r) service \<Rightarrow> ('h, 'r) service \<Rightarrow> bool" for pf where
  tick: "sv_clock s \<le> now \<Longrightarrow> service_step pf (Tick now) s (s\<lparr>sv_clock := now\<rparr>)"
| arrive: "sv_tasks s n = None \<Longrightarrow>
    service_step pf (Arrive n token h route) s (s\<lparr>sv_tasks := (sv_tasks s)(n \<mapsto> new_task token h route)\<rparr>)"
| proceed: "sv_tasks s n = Some tk \<Longrightarrow> advance (world_at pf (sv_clock s) env) (sv_gateway s) tk = (gw', tk') \<Longrightarrow>
    service_step pf (Proceed n env) s (s\<lparr>sv_gateway := gw', sv_tasks := (sv_tasks s)(n \<mapsto> tk'),
      sv_charges := sv_charges s @ charges_of (world_at pf (sv_clock s) env) (sv_gateway s) tk\<rparr>)"
| probe: "i < length (rg_adapters (gw_registry (sv_gateway s))) \<Longrightarrow>
    service_step pf (Probe i env) s (s\<lparr>
      sv_gateway := set_adapter i (check_adapter (pf_threshold pf) env (adapter_at (sv_gateway s) i)) (sv_gateway s),
      sv_probes := (sv_probes s)(i := sv_probes s i @ [probe_ok env (adapter_at (sv_gateway s) i)])\<rparr>)"
| drained: "i < length (rg_adapters (gw_registry (sv_gateway s))) \<Longrightarrow>
    (c, grace) \<in> set (ad_closing (adapter_at (sv_gateway s) i)) \<Longrightarrow>
    service_step pf (Drained i c ok) s
      (s\<lparr>sv_gateway := set_adapter i (deferred_close (adapter_at (sv_gateway s) i) c ok) (sv_gateway s)\<rparr>)"
| admin: "run_admin pf (sv_clock s + pf_offset pf) (gw_store (sv_gateway s)) cmd = (st', code, out) \<Longrightarrow>
    service_step pf (Admin cmd) s (s\<lparr>sv_gateway := (sv_gateway s)\<lparr>gw_store := st'\<rparr>\<rparr>)"

inductive_cases service_stepE: "service_step pf op s s'"

text \<open>Runs, as lists of operations, from a gateway that has just started.\<close>

inductive service_run :: "('h, 'r) platform \<Rightarrow> service_op list \<Rightarrow> ('h, 'r) service \<Rightarrow> ('h, 'r) service \<Rightarrow> bool" for pf where
  run_nil: "service_run pf [] s s"
| run_snoc: "service_run pf ops s s' \<Longrightarrow> service_step pf op s' s'' \<Longrightarrow> service_run pf (ops @ [op]) s s''"

definition service_start :: "('h, 'r) gateway \<Rightarrow> time \<Rightarrow> ('h, 'r) service" where
  "service_start gw now = \<lparr>sv_gateway = gw, sv_clock = now, sv_tasks = (\<lambda>_. None), sv_charges = [], sv_probes = (\<lambda>_. [])\<rparr>"

lemma run_invariant:
  assumes "service_run pf ops s s'" and "Q s" and "\<forall>op \<in> set ops. P op"
    and "\<And>op s s'. service_step pf op s s' \<Longrightarrow> Q s \<Longrightarrow> P op \<Longrightarrow> Q s'"
  shows "Q s'"
  using assms(1-3)
proof (induction rule: service_run.induct)
  case (run_snoc ops s s' op s'')
  then show ?case using assms(4) by simp
qed

subsection \<open>What a step leaves alone\<close>

declare enforce_keeps [simp del]

lemma auth_authenticate_entries:
  assumes "auth_inv c" and "map_of (au_cache (fst (auth_authenticate lookup now c key))) k = Some (t, r)"
  shows "map_of (au_cache c) k = Some (t, r) \<or> k = key \<and> t = now \<and> lookup key = Inr (Some r)"
proof -
  have miss: "map_of (au_cache c') k = Some (t, r) \<or> k = key \<and> t = now \<and> lookup key = Inr (Some r)"
    if inv: "auth_inv c'" and "map_of (au_cache (fst (auth_miss lookup now c' key))) k = Some (t, r)" for c'
  proof (cases "\<exists>x. lookup key = Inr (Some x)")
    case True
    then obtain x where x: "lookup key = Inr (Some x)" by blast
    obtain c'' where c'': "remember c' key x now = Inr c''" "map_of (au_cache c'') key = Some (now, x)"
      "\<And>k. k \<noteq> key \<Longrightarrow> map_of (au_cache c'') k = None \<or> map_of (au_cache c'') k = map_of (au_cache c') k"
      using remember_ok [OF inv] by metis
    with that(2) x have "map_of (au_cache c'') k = Some (t, r)" by (simp add: auth_miss_def)
    with c''(2) c''(3) [of k] x show ?thesis by (cases "k = key") auto
  next
    case False
    with that(2) show ?thesis by (auto simp: auth_miss_def split: sum.splits option.splits)
  qed
  have inv': "auth_inv (c\<lparr>au_cache := AList.delete key (au_cache c)\<rparr>)"
    using auth_inv_invalidate [OF assms(1), of key] by (simp add: auth_invalidate_def)
  show ?thesis
    using assms(2) miss [OF assms(1)] miss [OF inv']
    by (auto simp: auth_authenticate_def lookup_delete split: option.splits if_splits)
qed

lemma current_tenant_auth:
  assumes "current_tenant w gw rq h = (gw', rq', res)"
  shows "gw_auth gw' = gw_auth gw \<or> (\<exists>key. gw_auth gw' = fst (auth_authenticate
    (store_authenticate (wd_verify w) (wd_utc w) (gw_store gw)) (wd_monotonic w) (gw_auth gw) key))"
  using assms
  by (auto simp: current_tenant_def Let_def split: option.splits if_splits prod.splits sum.splits) (metis fst_conv)+

lemma advance_cases:
  assumes "advance w gw tk = (gw', tk')"
  obtains (auth) rq' res where "tk_phase tk = Arrived" "current_tenant w gw (tk_rq tk) (tk_headers tk) = (gw', rq', res)"
      "tk_phase tk' = (case res of Inl e \<Rightarrow> Answered (Inl e) | Inr t \<Rightarrow> Authenticated t)"
      "tk_rq tk' = (case (res, route_model (tk_route tk)) of (Inr t, Some m) \<Rightarrow> rq'\<lparr>rq_model := Some m\<rparr> | _ \<Rightarrow> rq')"
    | (unlimited) tenant where "tk_phase tk = Authenticated tenant" "route_endpoint (tk_route tk) = None" "gw' = gw"
      "tk_phase tk' = Admitted tenant" "tk_rq tk' = tk_rq tk"
    | (enforce) tenant endpoint res where "tk_phase tk = Authenticated tenant" "route_endpoint (tk_route tk) = Some endpoint"
      "enforce_rate_limit w gw tenant endpoint = (gw', res)"
      "tk_phase tk' = (case res of Inl e \<Rightarrow> Answered (Inl e) | Inr _ \<Rightarrow> Admitted tenant)" "tk_rq tk' = tk_rq tk"
    | (answer) tenant where "tk_phase tk = Admitted tenant" "gw' = gw"
      "tk_phase tk' = Answered (answer_route (wd_backend w) (gw_registry gw) (tk_route tk) tenant)"
      "rq_tenant_id (tk_rq tk') = rq_tenant_id (tk_rq tk)" "rq_model (tk_rq tk') = rq_model (tk_rq tk)"
    | (finished) res where "tk_phase tk = Answered res" "gw' = gw" "tk' = tk"
proof (cases "tk_phase tk")
  case Arrived
  obtain gw1 rq' res where ct: "current_tenant w gw (tk_rq tk) (tk_headers tk) = (gw1, rq', res)"
    by (cases "current_tenant w gw (tk_rq tk) (tk_headers tk)") auto
  with assms Arrived show ?thesis
    by (intro auth [of rq' res]) (auto simp: advance_def split: sum.splits option.splits)
next
  case (Authenticated tenant)
  show ?thesis
  proof (cases "route_endpoint (tk_route tk)")
    case None
    with assms Authenticated show ?thesis by (intro unlimited [of tenant]) (auto simp: advance_def)
  next
    case (Some endpoint)
    obtain gw1 res where "enforce_rate_limit w gw tenant endpoint = (gw1, res)"
      by (cases "enforce_rate_limit w gw tenant endpoint") auto
    with assms Authenticated Some show ?thesis
      by (intro enforce [of tenant endpoint res]) (auto simp: advance_def split: sum.splits)
  qed
next
  case (Admitted tenant)
  with assms show ?thesis by (intro answer [of tenant]) (auto simp: advance_def Let_def split: option.splits)
next
  case (Answered res)
  with assms show ?thesis by (intro finished [of res]) (auto simp: advance_def)
qed

lemma advance_route:
  assumes "advance w gw tk = (gw', tk')"
  shows "tk_route tk' = tk_route tk" "tk_headers tk' = tk_headers tk"
proof -
  have "tk_route tk' = tk_route tk \<and> tk_headers tk' = tk_headers tk"
  proof (cases "tk_phase tk")
    case Arrived
    obtain gw1 rq' res where "current_tenant w gw (tk_rq tk) (tk_headers tk) = (gw1, rq', res)"
      by (cases "current_tenant w gw (tk_rq tk) (tk_headers tk)") auto
    with assms Arrived show ?thesis by (auto simp: advance_def split: sum.splits)
  next
    case (Authenticated tenant)
    with assms show ?thesis by (auto simp: advance_def split: option.splits sum.splits prod.splits)
  qed (use assms in \<open>auto simp: advance_def Let_def\<close>)
  then show "tk_route tk' = tk_route tk" "tk_headers tk' = tk_headers tk" by auto
qed

lemma enforce_fail_open: "enforce_rate_limit w gw t e = (gw', r) \<Longrightarrow> gw_fail_open gw' = gw_fail_open gw"
proof -
  assume "enforce_rate_limit w gw t e = (gw', r)"
  then have "gw' = fst (enforce_rate_limit w gw t e)" by (simp only: fst_conv)
  then show "gw_fail_open gw' = gw_fail_open gw"
    by (simp only: enforce_rate_limit_def Let_def split_beta fst_conv) (cases gw, simp only: gateway.simps)
qed

lemma advance_keeps:
  assumes "advance w gw tk = (gw', tk')"
  shows "gw_registry gw' = gw_registry gw" "gw_store gw' = gw_store gw" "gw_fail_open gw' = gw_fail_open gw"
    "gw_auth gw' = gw_auth gw \<or> (\<exists>key. gw_auth gw' = fst (auth_authenticate
       (store_authenticate (wd_verify w) (wd_utc w) (gw_store gw)) (wd_monotonic w) (gw_auth gw) key))"
proof -
  have "gw_registry gw' = gw_registry gw \<and> gw_store gw' = gw_store gw \<and> gw_fail_open gw' = gw_fail_open gw \<and>
    (gw_auth gw' = gw_auth gw \<or> (\<exists>key. gw_auth gw' = fst (auth_authenticate
       (store_authenticate (wd_verify w) (wd_utc w) (gw_store gw)) (wd_monotonic w) (gw_auth gw) key)))"
    using assms
  proof (cases rule: advance_cases)
    case (auth rq' res)
    show ?thesis
      using current_tenant_keeps [OF auth(2)] current_tenant_auth [OF auth(2)] by blast
  next
    case (enforce tenant endpoint res)
    show ?thesis
      using enforce_keeps [OF enforce(3)] enforce_fail_open [OF enforce(3)] by blast
  qed simp_all
  then show "gw_registry gw' = gw_registry gw" "gw_store gw' = gw_store gw" "gw_fail_open gw' = gw_fail_open gw"
    "gw_auth gw' = gw_auth gw \<or> (\<exists>key. gw_auth gw' = fst (auth_authenticate
       (store_authenticate (wd_verify w) (wd_utc w) (gw_store gw)) (wd_monotonic w) (gw_auth gw) key))"
    by blast+
qed

lemma run_admin_store:
  "fst (run_admin pf now st cmd) =
     (case cmd of
        AdminCreate token tid display models \<Rightarrow>
          fst (store_create (pf_hash pf) token now st tid (if display = [] then tid else display) (parse_models models) None)
      | AdminRotate token tid \<Rightarrow> fst (store_rotate_key (pf_hash pf) token now now st tid)
      | AdminDelete tid confirm \<Rightarrow> if confirm then fst (store_soft_delete now now st tid) else st)"
  by (auto simp: run_admin_def cli_create_def cli_rotate_key_def cli_delete_def
      split: admin_command.split prod.split sum.split)

lemma run_admin_inv [inv_intros]: "store_inv st \<Longrightarrow> store_inv (fst (run_admin pf now st cmd))"
  by (auto simp: run_admin_store intro: inv_intros split: admin_command.split)

lemma set_adapter_simps [simp]:
  "gw_store (set_adapter i a gw) = gw_store gw" "gw_auth (set_adapter i a gw) = gw_auth gw"
  "gw_redis (set_adapter i a gw) = gw_redis gw" "gw_fail_open (set_adapter i a gw) = gw_fail_open gw"
  "rg_by_model (gw_registry (set_adapter i a gw)) = rg_by_model (gw_registry gw)"
  "rg_model_meta (gw_registry (set_adapter i a gw)) = rg_model_meta (gw_registry gw)"
  "rg_adapters (gw_registry (set_adapter i a gw)) = (rg_adapters (gw_registry gw))[i := a]"
  by (simp_all add: set_adapter_def)

lemma reg_inv_set_adapter [inv_intros]: "reg_inv (gw_registry gw) \<Longrightarrow> reg_inv (gw_registry (set_adapter i a gw))"
  by (simp add: reg_inv_def)

subsection \<open>Invariants\<close>

text \<open>
  The log fields of a task agree with its phase: the tenant is known from the authentication on, and is
  the one of the record; the header that names another tenant never gets past it; the model is the one asked for.
\<close>

definition task_ok :: "task \<Rightarrow> bool" where
  "task_ok tk \<longleftrightarrow>
     (\<forall>tenant. tk_phase tk \<in> {Authenticated tenant, Admitted tenant} \<longrightarrow>
        rq_tenant_id (tk_rq tk) = Some (t_id tenant) \<and> rq_model (tk_rq tk) = route_model (tk_route tk)) \<and>
     (tk_phase tk = Arrived \<longrightarrow> rq_tenant_id (tk_rq tk) = None \<and> rq_model (tk_rq tk) = None) \<and>
     (\<forall>reply. tk_phase tk = Answered (Inr reply) \<longrightarrow> rq_tenant_id (tk_rq tk) \<noteq> None) \<and>
     (\<forall>tid. rq_tenant_id (tk_rq tk) = Some tid \<longrightarrow>
        rh_x_tenant_id (tk_headers tk) \<in> {None, Some tid} \<and> rq_model (tk_rq tk) = route_model (tk_route tk))"

lemma task_ok_new [inv_intros]: "task_ok (new_task token h route)"
  by (simp add: task_ok_def new_task_def new_request_def)

lemma current_tenant_header:
  assumes "current_tenant w gw rq h = (gw', rq', Inr tenant)"
  shows "rh_x_tenant_id h \<in> {None, Some (t_id tenant)}" "rq' = rq\<lparr>rq_tenant_id := Some (t_id tenant)\<rparr>"
  using assms by (rule current_tenant_Inr; blast)+

lemma current_tenant_refused: "current_tenant w gw rq h = (gw', rq', Inl e) \<Longrightarrow> rq' = rq"
  by (auto simp: current_tenant_def Let_def split: option.splits if_splits prod.splits sum.splits)

lemma task_ok_advance [inv_intros]:
  assumes "advance w gw tk = (gw', tk')" and "task_ok tk"
  shows "task_ok tk'"
proof -
  note same = advance_route [OF assms(1)]
  from assms(1) show ?thesis
  proof (cases rule: advance_cases)
    case (auth rq' res)
    have new: "rq_tenant_id (tk_rq tk) = None" "rq_model (tk_rq tk) = None"
      using assms(2) auth(1) by (simp_all add: task_ok_def)
    show ?thesis
    proof (cases res)
      case (Inl e)
      with current_tenant_refused auth(2) have "rq' = tk_rq tk" by metis
      with Inl auth new show ?thesis by (simp add: task_ok_def)
    next
      case (Inr tenant)
      note ct = current_tenant_header [OF auth(2) [unfolded Inr]]
      have "rq_tenant_id (tk_rq tk') = Some (t_id tenant)" "rq_model (tk_rq tk') = route_model (tk_route tk)"
        using auth(4) Inr ct(2) new by (auto split: option.splits)
      with ct(1) auth(3) Inr same show ?thesis by (auto simp: task_ok_def)
    qed
  next
    case (enforce tenant endpoint res)
    with assms(2) same show ?thesis by (cases res) (auto simp: task_ok_def)
  next
    case (answer tenant)
    with assms(2) same show ?thesis by (auto simp: task_ok_def)
  qed (use assms(2) same in \<open>auto simp: task_ok_def\<close>)
qed

definition service_inv :: "('h, 'r) platform \<Rightarrow> ('h, 'r) service \<Rightarrow> bool" where
  "service_inv pf s \<longleftrightarrow>
     (let gw = sv_gateway s
      in store_inv (gw_store gw) \<and> auth_inv (gw_auth gw) \<and> reg_inv (gw_registry gw) \<and>
         (\<forall>k t r. map_of (au_cache (gw_auth gw)) k = Some (t, r) \<longrightarrow> t \<le> sv_clock s) \<and>
         (\<forall>n tk. sv_tasks s n = Some tk \<longrightarrow> task_ok tk))"

lemma service_invD:
  assumes "service_inv pf s"
  shows "store_inv (gw_store (sv_gateway s))" "auth_inv (gw_auth (sv_gateway s))" "reg_inv (gw_registry (sv_gateway s))"
    "\<And>k t r. map_of (au_cache (gw_auth (sv_gateway s))) k = Some (t, r) \<Longrightarrow> t \<le> sv_clock s"
    "\<And>n tk. sv_tasks s n = Some tk \<Longrightarrow> task_ok tk"
  using assms unfolding service_inv_def Let_def by blast+

lemma advance_auth_inv:
  assumes "advance w gw tk = (gw', tk')" and "auth_inv (gw_auth gw)"
    and "\<And>k t r. map_of (au_cache (gw_auth gw)) k = Some (t, r) \<Longrightarrow> t \<le> wd_monotonic w"
  shows "auth_inv (gw_auth gw')" "map_of (au_cache (gw_auth gw')) k = Some (t, r) \<Longrightarrow> t \<le> wd_monotonic w"
    "au_cache_ttl (gw_auth gw') = au_cache_ttl (gw_auth gw)"
proof -
  show "auth_inv (gw_auth gw')" "au_cache_ttl (gw_auth gw') = au_cache_ttl (gw_auth gw)"
    using advance_keeps(4) [OF assms(1)] assms(2) auth_authenticate_inv auth_authenticate_ttl by metis+
  assume "map_of (au_cache (gw_auth gw')) k = Some (t, r)"
  with advance_keeps(4) [OF assms(1)] show "t \<le> wd_monotonic w"
    using auth_authenticate_entries [OF assms(2)] assms(3) by (metis order_refl)
qed

lemma world_at_simps [simp]:
  "wd_monotonic (world_at pf now env) = now" "wd_utc (world_at pf now env) = now + pf_offset pf"
  "wd_seconds (world_at pf now env) = now + pf_offset pf" "wd_verify (world_at pf now env) = pf_verify pf"
  "wd_redis (world_at pf now env) = pf_redis pf" "wd_backend (world_at pf now env) = env"
  by (simp_all add: world_at_def)

lemma service_inv_step: "service_step pf op s s' \<Longrightarrow> service_inv pf s \<Longrightarrow> service_inv pf s'"
proof (induction rule: service_step.induct)
  case (tick s now)
  then show ?case by (force simp: service_inv_def Let_def)
next
  case (arrive s n token h route)
  then show ?case by (simp add: service_inv_def Let_def task_ok_new)
next
  case (proceed s n tk env gw' tk')
  note inv = service_invD [OF proceed.prems]
  note adv = advance_keeps [OF proceed.hyps(2)] advance_auth_inv [OF proceed.hyps(2) inv(2)]
  show ?case
    unfolding service_inv_def Let_def using inv adv task_ok_advance [OF proceed.hyps(2)] proceed.hyps(1) by auto
next
  case (probe i s env)
  then show ?case by (auto simp: service_inv_def Let_def intro: inv_intros)
next
  case (drained i s c grace ok)
  then show ?case by (auto simp: service_inv_def Let_def intro: inv_intros)
next
  case (admin s cmd st' code out)
  then have "store_inv st'"
    using run_admin_inv [of "gw_store (sv_gateway s)" pf "sv_clock s + pf_offset pf" cmd] by (simp add: service_inv_def Let_def)
  with admin show ?case by (simp add: service_inv_def Let_def)
qed

lemma service_inv_start [inv_intros]:
  assumes "store_inv (gw_store gw)" and "gw_auth gw = authenticator ttl m" and "1 \<le> m" and "reg_inv (gw_registry gw)"
  shows "service_inv pf (service_start gw now)"
  using assms auth_inv_authenticator [of m ttl]
  by (auto simp: service_inv_def service_start_def Let_def authenticator_def)

lemma service_inv_run: "service_run pf ops s s' \<Longrightarrow> service_inv pf s \<Longrightarrow> service_inv pf s'"
  by (erule run_invariant [where P = "\<lambda>_. True"]) (auto intro: service_inv_step)

lemma run_clock: "service_run pf ops s s' \<Longrightarrow> sv_clock s \<le> sv_clock s'"
  by (induction rule: service_run.induct) (auto elim!: service_stepE)

text \<open>
  C17. The invariant of the running service, over every interleaving: the tables of the store are well-formed,
  the cache holds each key once, within its bound and with no stamp of the future, the registry still serves
  exactly the models it was loaded with, and the log fields of every request name the tenant that its key and
  its headers name, and the model it asked for, from its authentication to its answer.
\<close>

theorem service_wellformed:
  assumes "service_run pf ops (service_start gw now) s" and "store_inv (gw_store gw)"
    and "gw_auth gw = authenticator ttl m" and "1 \<le> m" and "reg_inv (gw_registry gw)"
  shows "store_inv (gw_store (sv_gateway s)) \<and> auth_inv (gw_auth (sv_gateway s)) \<and>
    (\<forall>k t r. map_of (au_cache (gw_auth (sv_gateway s))) k = Some (t, r) \<longrightarrow> now \<le> t \<and> t \<le> sv_clock s) \<and>
    reg_inv (gw_registry (sv_gateway s)) \<and>
    rg_by_model (gw_registry (sv_gateway s)) = rg_by_model (gw_registry gw) \<and>
    (\<forall>n tk. sv_tasks s n = Some tk \<longrightarrow> task_ok tk)"
proof -
  have inv: "service_inv pf s"
    by (rule service_inv_run [OF assms(1) service_inv_start [OF assms(2-5)]])
  let ?Q = "\<lambda>s. service_inv pf s \<and> rg_by_model (gw_registry (sv_gateway s)) = rg_by_model (gw_registry gw) \<and> now \<le> sv_clock s \<and>
    (\<forall>k t r. map_of (au_cache (gw_auth (sv_gateway s))) k = Some (t, r) \<longrightarrow> now \<le> t)"
  have "?Q s"
  proof (rule run_invariant [OF assms(1), where P = "\<lambda>_. True"])
    show "?Q (service_start gw now)"
      using service_inv_start [OF assms(2-5)] assms(3) by (simp add: service_start_def authenticator_def)
  next
    fix op and s s' :: "('a, 'b) service"
    assume step: "service_step pf op s s'" and Q: "?Q s"
    then have inv: "service_inv pf s" and "service_inv pf s'" using service_inv_step by blast+
    moreover from step Q have "rg_by_model (gw_registry (sv_gateway s')) = rg_by_model (gw_registry gw) \<and> now \<le> sv_clock s' \<and>
        (\<forall>k t r. map_of (au_cache (gw_auth (sv_gateway s'))) k = Some (t, r) \<longrightarrow> now \<le> t)"
    proof (induction rule: service_step.induct)
      case (proceed s n tk env gw' tk')
      have "now \<le> t" if "map_of (au_cache (gw_auth gw')) k = Some (t, r)" for k t r
        using that advance_keeps(4) [OF proceed.hyps(2)] auth_authenticate_entries [OF service_invD(2)] proceed.prems
        by (metis world_at_simps(1))
      with proceed advance_keeps(1) [OF proceed.hyps(2)] show ?case by simp
    qed auto
    ultimately show "?Q s'" by blast
  qed simp
  with inv show ?thesis
    using service_invD [OF inv] by blast
qed

subsection \<open>Revocation\<close>

text \<open>A key that no active tenant holds, neither as its current nor as a rotated one.\<close>

definition key_dead :: "('h \<Rightarrow> string \<Rightarrow> verify_outcome) \<Rightarrow> 'h tenant_store \<Rightarrow> string \<Rightarrow> bool" where
  "key_dead hv st key \<longleftrightarrow>
     (\<forall>row \<in> set (st_tenants st). active_row row \<longrightarrow> hv (tr_api_key_hash row) key \<noteq> Verified) \<and>
     (\<forall>g \<in> set (st_grace st). hv (gr_old_api_key_hash g) key \<noteq> Verified)"

lemma key_dead_authenticate:
  assumes "hv_total hv" and "key_dead hv st key"
  shows "store_authenticate hv now st key = Inr None"
proof -
  have "find (\<lambda>r. hv (tr_api_key_hash r) key = Verified) (filter active_row (st_tenants st)) = None"
    "find (\<lambda>g. now \<le> gr_expires_at g \<and> hv (gr_old_api_key_hash g) key = Verified) (st_grace st) = None"
    using assms(2) by (auto simp: key_dead_def find_None_all)
  then show ?thesis by (simp add: store_authenticate_eq [OF assms(1)])
qed

fun issued_key :: "service_op \<Rightarrow> string option" where
  "issued_key (Admin (AdminCreate token tid display models)) = Some (generate_api_key token)"
| "issued_key (Admin (AdminRotate token tid)) = Some (generate_api_key token)"
| "issued_key _ = None"

lemma key_dead_admin:
  assumes "key_dead (pf_verify pf) st key" and "issued_key (Admin cmd) \<noteq> Some key"
    and "\<And>other. pf_verify pf (pf_hash pf other) key = Verified \<Longrightarrow> other = key"
  shows "key_dead (pf_verify pf) (fst (run_admin pf now st cmd)) key"
proof (cases cmd)
  case (AdminCreate token tid display models)
  with assms show ?thesis
    by (auto simp: run_admin_store store_create_fst key_dead_def)
next
  case (AdminRotate token tid)
  have fresh: "pf_verify pf (pf_hash pf (generate_api_key token)) key \<noteq> Verified"
    using assms(2,3) AdminRotate by auto
  show ?thesis
  proof (cases "find (\<lambda>r. tr_id r = tid \<and> active_row r) (st_tenants st)")
    case None
    with assms(1) AdminRotate show ?thesis by (simp add: run_admin_store store_rotate_key_def)
  next
    case (Some row)
    with assms(1) have "pf_verify pf (tr_api_key_hash row) key \<noteq> Verified"
      by (auto simp: key_dead_def dest: find_SomeD)
    with Some assms(1) fresh AdminRotate show ?thesis
      by (auto simp: run_admin_store store_rotate_key_def Let_def key_dead_def set_grace_replace)
  qed
next
  case (AdminDelete tid confirm)
  with assms(1) show ?thesis
    by (auto simp: run_admin_store store_soft_delete_def Let_def key_dead_def)
qed

text \<open>From a moment on the key is dead and the cache has nothing about it that is younger.\<close>

definition revoked :: "('h, 'r) platform \<Rightarrow> string \<Rightarrow> time \<Rightarrow> ('h, 'r) service \<Rightarrow> bool" where
  "revoked pf key since s \<longleftrightarrow>
     key_dead (pf_verify pf) (gw_store (sv_gateway s)) key \<and>
     (\<forall>t r. map_of (au_cache (gw_auth (sv_gateway s))) key = Some (t, r) \<longrightarrow> t \<le> since)"

lemma revoked_step:
  assumes "service_step pf op s s'" and "revoked pf key since s \<and> service_inv pf s" and "issued_key op \<noteq> Some key"
    and "hv_total (pf_verify pf)" and "\<And>other. pf_verify pf (pf_hash pf other) key = Verified \<Longrightarrow> other = key"
  shows "revoked pf key since s' \<and> service_inv pf s'"
proof
  show "service_inv pf s'" using assms(1,2) service_inv_step by blast
  have inv: "auth_inv (gw_auth (sv_gateway s))" using assms(2) service_invD(2) by blast
  from assms(1-3) show "revoked pf key since s'"
  proof (induction rule: service_step.induct)
    case (proceed s n tk env gw' tk')
    have "t \<le> since" if "map_of (au_cache (gw_auth gw')) key = Some (t, r)" for t r
    proof -
      have inv: "auth_inv (gw_auth (sv_gateway s))" using proceed service_invD(2) by blast
      have "store_authenticate (pf_verify pf) (sv_clock s + pf_offset pf) (gw_store (sv_gateway s)) key = Inr None"
        using key_dead_authenticate [OF assms(4)] proceed by (simp add: revoked_def)
      with that advance_keeps(4) [OF proceed.hyps(2)] auth_authenticate_entries [OF inv]
      have "map_of (au_cache (gw_auth (sv_gateway s))) key = Some (t, r)" by fastforce
      with proceed show ?thesis by (simp add: revoked_def)
    qed
    with proceed advance_keeps(2) [OF proceed.hyps(2)] show ?case by (simp add: revoked_def)
  next
    case (admin s cmd st' code out)
    then have "key_dead (pf_verify pf) st' key"
      using key_dead_admin [OF _ _ assms(5), where pf = pf and st = "gw_store (sv_gateway s)" and cmd = cmd and now = "sv_clock s + pf_offset pf"]
      by (simp add: revoked_def)
    with admin show ?case by (simp add: revoked_def)
  qed (auto simp: revoked_def)
qed

lemma service_ttl:
  assumes "service_run pf ops s s'" and "service_inv pf s"
  shows "au_cache_ttl (gw_auth (sv_gateway s')) = au_cache_ttl (gw_auth (sv_gateway s))"
  using assms
proof (induction rule: service_run.induct)
  case (run_snoc ops s s' op s'')
  have inv: "service_inv pf s'" using run_snoc service_inv_run by blast
  from run_snoc(2) have "au_cache_ttl (gw_auth (sv_gateway s'')) = au_cache_ttl (gw_auth (sv_gateway s'))"
  proof cases
    case (proceed n tk env gw' tk')
    then show ?thesis
      using advance_auth_inv(3) [OF proceed(4) service_invD(2) [OF inv]] service_invD(4) [OF inv] by simp
  qed simp_all
  with run_snoc show ?case by simp
qed simp


subsection \<open>Limits\<close>

text \<open>The requests counted under one tenant, endpoint and window, in the order in which they were.\<close>

definition charges_in :: "string \<Rightarrow> string \<Rightarrow> int \<Rightarrow> charge list \<Rightarrow> charge list" where
  "charges_in tid endpoint bucket cs =
     filter (\<lambda>c. ch_tenant c = tid \<and> ch_endpoint c = endpoint \<and> map_option snd (ch_limit c) = Some bucket) cs"

definition rate_inv :: "('r \<Rightarrow> string \<Rightarrow> int) \<Rightarrow> string \<Rightarrow> string \<Rightarrow> int \<Rightarrow> 'r \<Rightarrow> charge list \<Rightarrow> bool" where
  "rate_inv cnt tid endpoint bucket r cs \<longleftrightarrow>
     cnt r (rl_key tid endpoint bucket) = int (length (charges_in tid endpoint bucket cs)) \<and>
     (\<forall>i < length (charges_in tid endpoint bucket cs).
        ch_admitted (charges_in tid endpoint bucket cs ! i) \<longleftrightarrow>
          int i < fst (the (ch_limit (charges_in tid endpoint bucket cs ! i))))"

lemma known_endpoint: "route_endpoint route = Some e \<Longrightarrow> e \<in> set (dict_keys default_limits)"
  by (auto simp: route_endpoint_def default_limits_def split: route.splits)

lemma endpoint_no_colon: "e \<in> set (dict_keys default_limits) \<Longrightarrow> CHR '':'' \<notin> set e"
  by (auto simp: default_limits_def)

lemma rate_inv_snoc:
  assumes "rate_inv cnt tid endpoint bucket r cs"
    and "map_option snd (ch_limit c) = Some bucket \<and> ch_tenant c = tid \<and> ch_endpoint c = endpoint \<Longrightarrow>
      cnt r' (rl_key tid endpoint bucket) = cnt r (rl_key tid endpoint bucket) + 1 \<and>
      (ch_admitted c \<longleftrightarrow> cnt r (rl_key tid endpoint bucket) < fst (the (ch_limit c)))"
    and "\<not> (map_option snd (ch_limit c) = Some bucket \<and> ch_tenant c = tid \<and> ch_endpoint c = endpoint) \<Longrightarrow>
      cnt r' (rl_key tid endpoint bucket) = cnt r (rl_key tid endpoint bucket)"
  shows "rate_inv cnt tid endpoint bucket r' (cs @ [c])"
  using assms by (auto simp: rate_inv_def charges_in_def nth_append less_Suc_eq)

lemma charge_step:
  assumes "redis_counts (wd_redis w) cnt" and "0 \<le> wd_seconds w" and "0 \<le> bucket"
    and "e \<in> set (dict_keys default_limits)" and "endpoint \<in> set (dict_keys default_limits)"
    and "enforce_rate_limit w gw tenant e = (gw', res)"
    and "c = \<lparr>ch_tenant = t_id tenant, ch_endpoint = e, ch_limit = limit_of tenant e (wd_seconds w), ch_admitted = is_ok res\<rparr>"
    and "rate_inv cnt tid endpoint bucket (gw_redis gw) cs"
  shows "rate_inv cnt tid endpoint bucket (gw_redis gw') (cs @ [c])"
proof -
  have rl: "rl_enforce (wd_redis w) (gw_fail_open gw) (wd_seconds w) (gw_redis gw) tenant e = (gw_redis gw', res)"
    using enforce_redis [of w gw tenant e] assms(6) by (simp add: prod_eq_iff)
  show ?thesis
  proof (cases "limit_of tenant e (wd_seconds w)")
    case None
    then have "gw_redis gw' = gw_redis gw"
      using rl by (auto simp: limit_of_def rl_enforce_def split: option.splits sum.splits)
    with None assms(7,8) show ?thesis by (intro rate_inv_snoc [OF assms(8)]) auto
  next
    case (Some lb)
    then obtain spec most window where lim: "limit_for tenant e = Some spec" "parse_limit spec = Inr (most, window)"
        "lb = (most, wd_seconds w div window)"
      by (auto simp: limit_of_def split: option.splits sum.splits)
    let ?key = "rl_key (t_id tenant) e (wd_seconds w div window)"
    obtain r' where r': "cnt r' = (cnt (gw_redis gw))(?key := cnt (gw_redis gw) ?key + 1)" "gw_redis gw' = r'"
        "is_ok res \<longleftrightarrow> cnt (gw_redis gw) ?key < most"
      using rl_enforce_counts [OF assms(1) lim(1,2) refl, where now = "wd_seconds w" and fail_open = "gw_fail_open gw"
          and r = "gw_redis gw"] rl by auto
    have "0 < window" using parse_limit_Inr(2) [OF lim(2)] by auto
    then have "rl_key tid endpoint bucket = ?key \<longleftrightarrow> tid = t_id tenant \<and> endpoint = e \<and> bucket = wd_seconds w div window"
      using assms(2,3) endpoint_no_colon [OF assms(4)] endpoint_no_colon [OF assms(5)]
      by (intro rl_key_inject) (auto simp: pos_imp_zdiv_nonneg_iff)
    with r' Some lim(3) assms(7) show ?thesis by (intro rate_inv_snoc [OF assms(8)]) auto
  qed
qed

lemma advance_redis:
  assumes "advance w gw tk = (gw', tk')"
  shows "charges_of w gw tk = [] \<and> gw_redis gw' = gw_redis gw \<or>
    (\<exists>tenant e res. route_endpoint (tk_route tk) = Some e \<and> enforce_rate_limit w gw tenant e = (gw', res) \<and>
       charges_of w gw tk = [\<lparr>ch_tenant = t_id tenant, ch_endpoint = e, ch_limit = limit_of tenant e (wd_seconds w),
         ch_admitted = is_ok res\<rparr>])"
  using assms
proof (cases rule: advance_cases)
  case (auth rq' res)
  then show ?thesis using current_tenant_keeps(3) [OF auth(2)] by (simp add: charges_of_def)
next
  case (enforce tenant endpoint res)
  then show ?thesis by (auto simp: charges_of_def)
qed (auto simp: charges_of_def)


subsection \<open>Health\<close>

text \<open>The registry keeps its index, and each adapter is the result of its own probes and drained clients.\<close>

definition health_inv :: "('h, 'r) platform \<Rightarrow> Registry \<Rightarrow> ('h, 'r) service \<Rightarrow> bool" where
  "health_inv pf reg s \<longleftrightarrow>
     rg_by_model (gw_registry (sv_gateway s)) = rg_by_model reg \<and>
     length (rg_adapters (gw_registry (sv_gateway s))) = length (rg_adapters reg) \<and>
     (\<forall>i < length (rg_adapters reg).
        adapter_run (pf_threshold pf) (rg_adapters reg ! i) (sv_probes s i) (adapter_at (sv_gateway s) i))"

lemma health_inv_step: "service_step pf op s s' \<Longrightarrow> health_inv pf reg s \<Longrightarrow> health_inv pf reg s'"
proof (induction rule: service_step.induct)
  case (proceed s n tk env gw' tk')
  then show ?case using advance_keeps(1) [OF proceed.hyps(2)] by (simp add: health_inv_def adapter_at_def)
next
  case (probe i s env)
  then show ?case
    by (auto simp: health_inv_def adapter_at_def check_adapter_probe nth_list_update intro: adapter_run.probe)
next
  case (drained i s c grace ok)
  then show ?case
    by (auto simp: health_inv_def adapter_at_def nth_list_update intro: adapter_run.drained)
qed (simp_all add: health_inv_def adapter_at_def)

text \<open>
  C6. Fail-fast in the running service: at every moment of every run, a request for a model its tenant may
  use, with the capability, is forwarded to the backend that declares it exactly while the latest probes of
  this backend have not failed a threshold of times in a row, and otherwise answered with 503, whatever happened
  to other backends; the client it is sent with was made for the latest recovery, and is neither closed nor
  waiting to be closed.
\<close>

theorem service_fails_fast:
  assumes "service_run pf ops (service_start gw now) s" and "from_config getenv timeout cfg = Inr (gw_registry gw)"
    and "1 \<le> pf_threshold pf" and "get_backend_for (gw_registry gw) model_id = Inr (i, bm)"
    and "visible_to tenant model_id" and "cap \<in> set (bm_capabilities bm)"
  shows "let reg = gw_registry (sv_gateway s); adapter = rg_adapters reg ! i
    in (if int (fail_streak (sv_probes s i)) < pf_threshold pf
        then resolve reg model_id tenant cap = Inr (adapter, bm)
        else \<exists>g. resolve reg model_id tenant cap = Inl (Gw g) \<and> ge_class g = BackendUnavailableError) \<and>
       hc_generation (ad_client adapter) = recoveries (pf_threshold pf) (sv_probes s i) \<and>
       ad_client adapter \<notin> set (retired_clients adapter)"
proof -
  let ?reg = "gw_registry (sv_gateway s)"
  have idx: "map_of (rg_by_model (gw_registry gw)) model_id = Some (i, bm)"
    using assms(4) by (auto simp: get_backend_for_def split: option.splits)
  then have i: "i < length (rg_adapters (gw_registry gw))"
    using from_config_inv [OF assms(2)] by (force simp: reg_inv_def dest: map_of_SomeD)
  have "health_inv pf (gw_registry gw) (service_start gw now)"
    by (auto intro: adapter_run.start simp: health_inv_def service_start_def adapter_at_def)
  then have "health_inv pf (gw_registry gw) s"
    by (rule run_invariant [OF assms(1), where P = "\<lambda>_. True"]) (auto intro: health_inv_step)
  then have index: "rg_by_model ?reg = rg_by_model (gw_registry gw)"
    and run: "adapter_run (pf_threshold pf) (rg_adapters (gw_registry gw) ! i) (sv_probes s i) (rg_adapters ?reg ! i)"
    using i by (auto simp: health_inv_def adapter_at_def)
  obtain k n u r key where new: "rg_adapters (gw_registry gw) ! i = new_adapter k n u r key"
    using from_config_adapters [OF assms(2) i] .
  have health: "ad_healthy (rg_adapters ?reg ! i) \<longleftrightarrow> int (fail_streak (sv_probes s i)) < pf_threshold pf"
    and gen: "hc_generation (ad_client (rg_adapters ?reg ! i)) = recoveries (pf_threshold pf) (sv_probes s i)"
    and inv: "client_inv (rg_adapters ?reg ! i)"
    using adapter_run_health [OF run [unfolded new] assms(3)] adapter_run_generation [OF run [unfolded new] assms(3)]
      adapter_run_clients [OF run [unfolded new]] by blast+
  have retired: "ad_client (rg_adapters ?reg ! i) \<notin> set (retired_clients (rg_adapters ?reg ! i))"
    using inv by (force simp: client_inv_def retired_generations_def)
  have lookup: "get_backend_for ?reg model_id = Inr (i, bm)"
    using idx index by (simp add: get_backend_for_def)
  have "refusal ?reg model_id tenant cap = Some BackendUnavailableError" if "\<not> ad_healthy (rg_adapters ?reg ! i)"
    using that idx index assms(5,6) by (simp add: refusal_def)
  then have "\<exists>g. resolve ?reg model_id tenant cap = Inl (Gw g) \<and> ge_class g = BackendUnavailableError"
    if "\<not> ad_healthy (rg_adapters ?reg ! i)"
    using that resolve_refusal(2) by metis
  then show ?thesis
    unfolding Let_def using health gen retired lookup assms(5,6) by (auto simp: resolve_Inr)
qed

subsection \<open>Progress\<close>

fun turns_left :: "phase \<Rightarrow> nat" where
  "turns_left Arrived = 3"
| "turns_left (Authenticated tenant) = 2"
| "turns_left (Admitted tenant) = 1"
| "turns_left (Answered res) = 0"

fun turn_of :: "nat \<Rightarrow> service_op \<Rightarrow> bool" where
  "turn_of n (Proceed m env) = (m = n)"
| "turn_of n _ = False"

lemma turns_advance: "advance w gw tk = (gw', tk') \<Longrightarrow> turns_left (tk_phase tk') \<le> turns_left (tk_phase tk) - 1"
  by (cases rule: advance_cases, assumption) (auto split: sum.split)

lemma turns_run:
  assumes "service_run pf ops s s'" and "sv_tasks s n = Some tk"
  shows "\<exists>tk'. sv_tasks s' n = Some tk' \<and>
    turns_left (tk_phase tk') \<le> turns_left (tk_phase tk) - length (filter (turn_of n) ops) \<and>
    (\<forall>res. tk_phase tk = Answered res \<longrightarrow> tk' = tk)"
  using assms
proof (induction rule: service_run.induct)
  case (run_snoc ops s s' op s'')
  then obtain tk1 where tk1: "sv_tasks s' n = Some tk1"
    "turns_left (tk_phase tk1) \<le> turns_left (tk_phase tk) - length (filter (turn_of n) ops)"
    "\<forall>res. tk_phase tk = Answered res \<longrightarrow> tk1 = tk" by blast
  from run_snoc(2) show ?case
  proof cases
    case (proceed m tk0 env gw' tk')
    show ?thesis
    proof (cases "m = n")
      case True
      with proceed tk1(1) have adv: "advance (world_at pf (sv_clock s') env) (sv_gateway s') tk1 = (gw', tk')" by simp
      have "tk' = tk" if "tk_phase tk = Answered res" for res
        using adv tk1(3) that by (auto simp: advance_def)
      with turns_advance [OF adv] tk1(2) True proceed show ?thesis by auto
    qed (use proceed tk1 in auto)
  qed (use tk1 in auto)
qed simp


subsection \<open>Witnesses\<close>

definition sample_platform :: "(string, string \<Rightarrow> int) platform" where
  "sample_platform = \<lparr>pf_verify = plain_hv, pf_hash = (\<lambda>k. k), pf_redis = map_redis, pf_offset = 0, pf_threshold = 2\<rparr>"

definition sample_service :: "(string, string \<Rightarrow> int) service" where
  "sample_service = service_start sample_gateway 5"

definition sample_task :: task where
  "sample_task = new_task ''t'' sample_headers (ToChat sample_chat_request)"

lemma sample_gateway_simps:
  "gw_store sample_gateway = sample_store" "gw_auth sample_gateway = authenticator 100 1"
  "gw_registry sample_gateway = sample_registry" "gw_redis sample_gateway = (\<lambda>_. 0)"
  by (simp_all add: sample_gateway_def)

lemma run_one: "service_step pf op s s' \<Longrightarrow> service_run pf [op] s s'"
  using run_snoc [OF run_nil] by fastforce

lemma sample_archived:
  "service_step sample_platform (Admin (AdminDelete ''telcoss'' True)) sample_service (sample_service\<lparr>sv_gateway :=
     sample_gateway\<lparr>gw_store := sample_store\<lparr>st_tenants := [sample_row\<lparr>tr_deleted_at := Some 5, tr_updated_at := 5\<rparr>]\<rparr>\<rparr>\<rparr>)"
proof -
  have "run_admin sample_platform 5 sample_store (AdminDelete ''telcoss'' True) =
      (sample_store\<lparr>st_tenants := [sample_row\<lparr>tr_deleted_at := Some 5, tr_updated_at := 5\<rparr>]\<rparr>, 0, [''ARCHIVED telcoss''])"
    by (simp add: run_admin_def cli_delete_def store_soft_delete_def sample_store_def sample_row_def Let_def)
  then show ?thesis
    using service_step.admin [of sample_platform sample_service "AdminDelete ''telcoss'' True"]
    by (simp add: sample_service_def service_start_def sample_platform_def sample_gateway_simps)
qed

lemma service_wellformed_witness:
  "\<exists>s. service_run sample_platform [Admin (AdminDelete ''telcoss'' True)] sample_service s \<and>
     store_inv (gw_store (sv_gateway s)) \<and> auth_inv (gw_auth (sv_gateway s))"
proof -
  note run = run_one [OF sample_archived, unfolded sample_service_def]
  have "store_inv (gw_store sample_gateway)" "reg_inv (gw_registry sample_gateway)"
    using sample_store_inv from_config_inv [OF sample_registry_loads] by (simp_all add: sample_gateway_simps)
  from service_wellformed [OF run this(1) sample_gateway_simps(2) _ this(2)] run show ?thesis
    unfolding sample_service_def by (metis order_refl)
qed


lemma sample_arrives:
  "service_step pf (Arrive 0 ''t'' sample_headers (ToChat sample_chat_request)) sample_service
     (sample_service\<lparr>sv_tasks := (\<lambda>_. None)(0 \<mapsto> sample_task)\<rparr>)"
  using service_step.arrive [of sample_service 0]
  by (simp add: sample_service_def service_start_def sample_task_def)

lemma proceed_step:
  assumes "sv_tasks s n = Some tk"
  obtains gw' tk' where "advance (world_at pf (sv_clock s) env) (sv_gateway s) tk = (gw', tk')"
    "service_step pf (Proceed n env) s (s\<lparr>sv_gateway := gw', sv_tasks := (sv_tasks s)(n \<mapsto> tk'),
      sv_charges := sv_charges s @ charges_of (world_at pf (sv_clock s) env) (sv_gateway s) tk\<rparr>)"
  by (cases "advance (world_at pf (sv_clock s) env) (sv_gateway s) tk") (use assms service_step.proceed that in blast)


lemma sample_authenticated:
  "advance (world_at sample_platform 5 env) sample_gateway sample_task =
     (sample_gateway\<lparr>gw_auth := \<lparr>au_cache_ttl = 100, au_cache_max = 1, au_cache = [(''tnk_live_a'', 5, sample_any)]\<rparr>\<rparr>,
      sample_task\<lparr>tk_rq := (new_request ''req_t'')\<lparr>rq_tenant_id := Some ''telcoss'', rq_model := Some ''t-pro''\<rparr>,
        tk_phase := Authenticated sample_any\<rparr>)"
proof -
  have "current_tenant (world_at sample_platform 5 env) sample_gateway (new_request ''req_t'') sample_headers =
      (sample_gateway\<lparr>gw_auth := \<lparr>au_cache_ttl = 100, au_cache_max = 1, au_cache = [(''tnk_live_a'', 5, sample_any)]\<rparr>\<rparr>,
       (new_request ''req_t'')\<lparr>rq_tenant_id := Some ''telcoss''\<rparr>, Inr sample_any)"
    unfolding current_tenant_def Let_def bearer_prefix_length
    using sample_key sample_bearer sample_authenticates
    by (simp add: sample_headers_def sample_platform_def sample_gateway_simps)
       (simp add: sample_any_def row_to_record_def sample_row_def)
  then show ?thesis
    by (simp add: advance_def sample_task_def new_task_def route_model_def sample_chat_request_def)
qed


lemma service_fails_fast_witness:
  "\<exists>s g. service_run sample_platform [Probe 1 (\<lambda>_. HttpTimeout, 5), Probe 1 (\<lambda>_. HttpTimeout, 6)] sample_service s \<and>
     resolve (gw_registry (sv_gateway s)) ''bge-m3'' sample_any Embeddings = Inl (Gw g) \<and> ge_class g = BackendUnavailableError"
proof -
  have failed: "\<not> probe_ok (\<lambda>_. HttpTimeout, t) a" for t a
    by (auto simp: probe_ok_def adapter_health_def probe_status_def split: sum.splits adapter_kind.splits)
  obtain s1 where s1: "service_step sample_platform (Probe 1 (\<lambda>_. HttpTimeout, 5)) sample_service s1"
      "sv_probes s1 1 = [False]" "length (rg_adapters (gw_registry (sv_gateway s1))) = 2"
    using service_step.probe [of 1 sample_service sample_platform "(\<lambda>_. HttpTimeout, 5)"] failed
    by (fastforce simp: sample_service_def service_start_def sample_gateway_simps sample_registry_def)
  obtain s2 where s2: "service_step sample_platform (Probe 1 (\<lambda>_. HttpTimeout, 6)) s1 s2" "sv_probes s2 1 = [False, False]"
    using service_step.probe [of 1 s1 sample_platform "(\<lambda>_. HttpTimeout, 6)"] failed s1(2,3) by fastforce
  have run: "service_run sample_platform [Probe 1 (\<lambda>_. HttpTimeout, 5), Probe 1 (\<lambda>_. HttpTimeout, 6)]
      (service_start sample_gateway 5) s2"
    using run_snoc [OF run_one [OF s1(1)] s2(1)] by (simp add: sample_service_def)
  have loads: "from_config (\<lambda>_. None) 900 sample_config = Inr (gw_registry sample_gateway)" "1 \<le> pf_threshold sample_platform"
    by (simp_all add: sample_registry_loads sample_gateway_simps sample_platform_def)
  have "get_backend_for (gw_registry sample_gateway) ''bge-m3'' = Inr (1, \<lparr>bm_id = ''bge-m3'', bm_backend_model_name = ''bge'',
     bm_capabilities = [Embeddings]\<rparr>)" "visible_to sample_any ''bge-m3''"
    by (simp_all add: sample_gateway_simps sample_registry_def sample_config_def reg_of_def index_entry_def get_backend_for_def
        visible_to_def sample_any_def row_to_record_def sample_row_def)
  from service_fails_fast [OF run loads this, of Embeddings] run s2(2) show ?thesis
    by (auto simp: Let_def fail_streak_def sample_platform_def sample_service_def)
qed

end
