(* ===== verification/Llm_Providers.thy ===== *)
theory Llm_Providers
  imports Backend
begin

text \<open>
  The client SDK's side of the gateway contract (\<open>client-sdks/python/vams_llm_client\<close>): the response models,
  the errors and the three providers. The HTTP client and the \<open>openai\<close> and \<open>anthropic\<close> packages are parameters
  with a state of their own; Pydantic's validation of a chat response and of a list of floats, the JSON
  writer and \<open>repr\<close> are parameters too. An \<open>AttributeError\<close> on a value of the wrong type is a
  \<open>TypeError\<close> of the model.
\<close>

subsection \<open>Models and errors\<close>

datatype vams_error =
    ProviderNotConfigured string
  | CapabilityNotAvailable string
  | ModelNotAvailable string
  | ProviderDependencyMissing string
  | PlatformError string "int option"
  | PyError exn

record SdkMessage =
  sm_role :: string
  sm_content :: string

record SdkChoice =
  sc_index :: int
  sc_message :: SdkMessage
  sc_finish_reason :: "string option"

record SdkUsage =
  su_prompt_tokens :: int
  su_completion_tokens :: int
  su_total_tokens :: int

record SdkChatResponse =
  sr_id :: string
  sr_model :: string
  sr_choices :: "SdkChoice list"
  sr_usage :: SdkUsage

definition default_usage :: SdkUsage where
  "default_usage = \<lparr>su_prompt_tokens = 0, su_completion_tokens = 0, su_total_tokens = 0\<rparr>"

definition response_content :: "SdkChatResponse \<Rightarrow> string" where
  "response_content r = (case sr_choices r of [] \<Rightarrow> [] | c # _ \<Rightarrow> sm_content (sc_message c))"

type_synonym vector = "pyfloat list"

record EmbeddingItem =
  ei_index :: int
  ei_embedding :: vector

record SdkEmbeddings =
  se_model :: string
  se_data :: "EmbeddingItem list"

definition vectors :: "SdkEmbeddings \<Rightarrow> vector list" where
  "vectors r = map ei_embedding (sort_key ei_index (se_data r))"

record RerankItem =
  ri_index :: int
  ri_relevance_score :: pyfloat
  ri_document :: "string option"

record SdkRerank =
  sk_model :: string
  sk_results :: "RerankItem list"

subsection \<open>Dynamic values\<close>

text \<open>\<open>v[k]\<close>, \<open>v.get(k, d)\<close> and iteration over a decoded JSON value.\<close>

definition py_item :: "json \<Rightarrow> string \<Rightarrow> exn + json" where
  "py_item v k = (case v of JObj d \<Rightarrow> item_get d k | _ \<Rightarrow> Inl (TypeError ''indices must be integers''))"

definition py_get :: "json \<Rightarrow> string \<Rightarrow> json \<Rightarrow> exn + json" where
  "py_get v k d =
     (case v of JObj flds \<Rightarrow> Inr (case map_of flds k of None \<Rightarrow> d | Some x \<Rightarrow> x)
      | _ \<Rightarrow> Inl (TypeError ''object has no attribute get''))"

definition py_iter :: "json \<Rightarrow> exn + json list" where
  "py_iter v =
     (case v of JList xs \<Rightarrow> Inr xs | JStr s \<Rightarrow> Inr (map (\<lambda>c. JStr [c]) s) | JObj d \<Rightarrow> Inr (map (JStr \<circ> fst) d)
      | _ \<Rightarrow> Inl (TypeError ''object is not iterable''))"

text \<open>Pydantic's check of a field declared \<open>str\<close>, or \<open>str | None\<close>.\<close>

definition str_field :: "json \<Rightarrow> exn + string" where
  "str_field v = (case v of JStr s \<Rightarrow> Inr s | _ \<Rightarrow> Inl (ValueError ''Input should be a valid string''))"

definition opt_str_field :: "json \<Rightarrow> exn + string option" where
  "opt_str_field v = (case v of JNull \<Rightarrow> Inr None | _ \<Rightarrow> rmap Some (str_field v))"

definition is_falsy :: "json \<Rightarrow> bool" where
  "is_falsy v \<longleftrightarrow> v = JNull \<or> v = JBool False \<or> v = JInt 0 \<or> v = JFloat (Fin 0) \<or> v = JStr [] \<or> v = JList []
     \<or> v = JObj []"

text \<open>The library functions the providers call on data, with the number parsers of the gateway's model.\<close>

record codecs =
  cd_numbers :: number_parsers
  cd_dumps :: "json \<Rightarrow> string"
  cd_validate_chat :: "json \<Rightarrow> exn + SdkChatResponse"
  cd_float_list :: "json list \<Rightarrow> exn + vector"

subsection \<open>The platform provider\<close>

record BasicInfraProvider =
  bi_base_url :: string
  bi_headers :: "(string, string) pydict"
  bi_timeout :: rat

definition basic_infra_provider :: "string \<Rightarrow> string \<Rightarrow> BasicInfraProvider" where
  "basic_infra_provider base_url api_key =
     \<lparr>bi_base_url = rstrip_where (\<lambda>c. c = CHR ''/'') base_url,
      bi_headers = [(''Authorization'', ''Bearer '' @ api_key)], bi_timeout = 900\<rparr>"

record platform_request =
  pq_client :: BasicInfraProvider
  pq_path :: string
  pq_json :: json

text \<open>
  What \<open>httpx\<close> does with a request: an \<open>HTTPError\<close>, another exception, or a status with the body
  decoded by \<open>resp.json()\<close> and as text.
\<close>

datatype platform_reply =
    HttpError string
  | OtherException exn
  | Response int "exn + json" string

type_synonym 'w platform = "platform_request \<Rightarrow> 'w \<Rightarrow> 'w \<times> platform_reply"

text \<open>\<open>str(resp.json()["error"]["message"])\<close>, else the first 200 characters of the text.\<close>

definition error_message :: "codecs \<Rightarrow> exn + json \<Rightarrow> string \<Rightarrow> exn + string" where
  "error_message cd body text =
     (case rbind body (\<lambda>v. rbind (py_item v ''error'') (\<lambda>e. py_item e ''message'')) of
        Inr m \<Rightarrow> Inr (py_str (np_repr (cd_numbers cd)) m)
      | Inl (ValueError _) \<Rightarrow> Inr (take 200 text)
      | Inl (KeyError _) \<Rightarrow> Inr (take 200 text)
      | Inl (TypeError _) \<Rightarrow> Inr (take 200 text)
      | Inl e \<Rightarrow> Inl e)"

definition platform_post ::
  "'w platform \<Rightarrow> codecs \<Rightarrow> BasicInfraProvider \<Rightarrow> string \<Rightarrow> (string, json) pydict \<Rightarrow> 'w \<Rightarrow> 'w \<times> (vams_error + json)"
where
  "platform_post http cd p path payload w =
     (case http \<lparr>pq_client = p, pq_path = path, pq_json = JObj payload\<rparr> w of
        (w', HttpError msg) \<Rightarrow> (w', Inl (PlatformError (''basic-infra platform unreachable: '' @ msg) None))
      | (w', OtherException e) \<Rightarrow> (w', Inl (PyError e))
      | (w', Response status body text) \<Rightarrow>
          (w', if status \<ge> 400
               then (case error_message cd body text of
                 Inl e \<Rightarrow> Inl (PyError e)
               | Inr m \<Rightarrow> Inl (PlatformError (''basic-infra returned HTTP '' @ show_int status @ '': '' @ m) (Some status)))
               else (case body of Inl e \<Rightarrow> Inl (PyError e) | Inr v \<Rightarrow> Inr v)))"

definition py_result :: "exn + 'a \<Rightarrow> vams_error + 'a" where
  "py_result r = (case r of Inl e \<Rightarrow> Inl (PyError e) | Inr a \<Rightarrow> Inr a)"

definition then_parse :: "('e + 'a \<Rightarrow> 'f + 'b) \<Rightarrow> 'w \<times> ('e + 'a) \<Rightarrow> 'w \<times> ('f + 'b)" where
  "then_parse f wr = (case wr of (w, r) \<Rightarrow> (w, f r))"

record chat_args =
  ca_model :: string
  ca_messages :: "(string, json) pydict list"
  ca_response_format :: "(string, json) pydict option"
  ca_temperature :: pyfloat
  ca_max_tokens :: "int option"
  ca_extra :: "(string, json) pydict"

definition openai_kwargs :: "chat_args \<Rightarrow> (string, json) pydict" where
  "openai_kwargs a =
     AList.updates (map fst (ca_extra a)) (map snd (ca_extra a))
       ([(''model'', JStr (ca_model a)), (''messages'', JList (map JObj (ca_messages a))),
         (''temperature'', JFloat (ca_temperature a))]
        @ opt_field ''response_format'' JObj (ca_response_format a)
        @ opt_field ''max_tokens'' JInt (ca_max_tokens a))"

definition basic_infra_chat ::
  "'w platform \<Rightarrow> codecs \<Rightarrow> BasicInfraProvider \<Rightarrow> chat_args \<Rightarrow> 'w \<Rightarrow> 'w \<times> (vams_error + SdkChatResponse)"
where
  "basic_infra_chat http cd p a w =
     then_parse (\<lambda>r. rbind r (\<lambda>v. py_result (cd_validate_chat cd v)))
       (platform_post http cd p ''/chat/completions'' (openai_kwargs a) w)"

definition parse_embedding :: "codecs \<Rightarrow> json \<Rightarrow> exn + EmbeddingItem" where
  "parse_embedding cd d =
     rbind (py_item d ''index'') (\<lambda>i. rbind (py_int (np_int (cd_numbers cd)) i) (\<lambda>index.
     rbind (py_item d ''embedding'') (\<lambda>e. rbind (py_iter e) (\<lambda>xs.
     rmap (\<lambda>v. \<lparr>ei_index = index, ei_embedding = v\<rparr>) (cd_float_list cd xs)))))"

definition parse_embeddings :: "codecs \<Rightarrow> string \<Rightarrow> json \<Rightarrow> exn + SdkEmbeddings" where
  "parse_embeddings cd model data =
     rbind (py_item data ''data'') (\<lambda>ds. rbind (py_iter ds) (\<lambda>ds.
     rbind (rmap_list (parse_embedding cd) ds) (\<lambda>items.
     rbind (py_get data ''model'' (JStr model)) (\<lambda>m.
     rmap (\<lambda>m. \<lparr>se_model = m, se_data = items\<rparr>) (str_field m)))))"

definition basic_infra_embeddings ::
  "'w platform \<Rightarrow> codecs \<Rightarrow> BasicInfraProvider \<Rightarrow> string \<Rightarrow> string list \<Rightarrow> 'w \<Rightarrow> 'w \<times> (vams_error + SdkEmbeddings)"
where
  "basic_infra_embeddings http cd p model inputs w =
     then_parse (\<lambda>r. rbind r (\<lambda>v. py_result (parse_embeddings cd model v)))
       (platform_post http cd p ''/embeddings''
         [(''model'', JStr model), (''input'', JList (map JStr inputs))] w)"

text \<open>\<open>(r.get("document") or {}).get("text")\<close>\<close>

definition document_text :: "json \<Rightarrow> exn + json" where
  "document_text r =
     rbind (py_get r ''document'' JNull) (\<lambda>d. py_get (if is_falsy d then JObj [] else d) ''text'' JNull)"

definition parse_rerank_item :: "codecs \<Rightarrow> json \<Rightarrow> exn + RerankItem" where
  "parse_rerank_item cd r =
     rbind (py_item r ''index'') (\<lambda>i. rbind (py_int (np_int (cd_numbers cd)) i) (\<lambda>index.
     rbind (py_item r ''relevance_score'') (\<lambda>s. rbind (py_float (np_float (cd_numbers cd)) s) (\<lambda>score.
     rbind (document_text r) (\<lambda>d.
     rmap (\<lambda>d. \<lparr>ri_index = index, ri_relevance_score = score, ri_document = d\<rparr>) (opt_str_field d))))))"

definition parse_rerank :: "codecs \<Rightarrow> string \<Rightarrow> json \<Rightarrow> exn + SdkRerank" where
  "parse_rerank cd model data =
     rbind (py_item data ''results'') (\<lambda>rs. rbind (py_iter rs) (\<lambda>rs.
     rbind (rmap_list (parse_rerank_item cd) rs) (\<lambda>items.
     rbind (py_get data ''model'' (JStr model)) (\<lambda>m.
     rmap (\<lambda>m. \<lparr>sk_model = m, sk_results = items\<rparr>) (str_field m)))))"

record rerank_args =
  ra_model :: string
  ra_query :: string
  ra_documents :: "string list"
  ra_top_n :: "int option"
  ra_return_documents :: bool

definition basic_infra_rerank ::
  "'w platform \<Rightarrow> codecs \<Rightarrow> BasicInfraProvider \<Rightarrow> rerank_args \<Rightarrow> 'w \<Rightarrow> 'w \<times> (vams_error + SdkRerank)"
where
  "basic_infra_rerank http cd p a w =
     then_parse (\<lambda>r. rbind r (\<lambda>v. py_result (parse_rerank cd (ra_model a) v)))
       (platform_post http cd p ''/rerank''
         ([(''model'', JStr (ra_model a)), (''query'', JStr (ra_query a)),
           (''documents'', JList (map JStr (ra_documents a))), (''return_documents'', JBool (ra_return_documents a))]
          @ opt_field ''top_n'' JInt (ra_top_n a)) w)"

subsection \<open>The OpenAI provider\<close>

text \<open>The attributes of the package's response objects that the provider reads.\<close>

record openai_choice =
  oa_index :: int
  oa_role :: string
  oa_content :: "string option"
  oa_finish_reason :: "string option"

record openai_chat_reply =
  oa_id :: "string option"
  oa_model :: string
  oa_choices :: "openai_choice list"

record openai_embeddings =
  oe_model :: string
  oe_data :: "(int \<times> vector) list"

record OpenAIProvider =
  op_api_key :: string
  op_base_url :: "string option"

definition openai_provider_chat ::
  "((string, json) pydict \<Rightarrow> 'w \<Rightarrow> 'w \<times> (exn + openai_chat_reply)) \<Rightarrow> chat_args \<Rightarrow> 'w \<Rightarrow> 'w \<times> (vams_error + SdkChatResponse)"
where
  "openai_provider_chat create a w =
     then_parse (\<lambda>r. py_result (rmap (\<lambda>resp.
         \<lparr>sr_id = (case oa_id resp of None \<Rightarrow> [] | Some i \<Rightarrow> i), sr_model = oa_model resp,
          sr_choices = map (\<lambda>c. \<lparr>sc_index = oa_index c,
              sc_message = \<lparr>sm_role = oa_role c, sm_content = (case oa_content c of None \<Rightarrow> [] | Some t \<Rightarrow> t)\<rparr>,
              sc_finish_reason = oa_finish_reason c\<rparr>) (oa_choices resp),
          sr_usage = default_usage\<rparr>) r))
       (create (openai_kwargs a) w)"

definition openai_provider_embeddings ::
  "(string \<Rightarrow> string list \<Rightarrow> 'w \<Rightarrow> 'w \<times> (exn + openai_embeddings)) \<Rightarrow> string \<Rightarrow> string list \<Rightarrow> 'w
    \<Rightarrow> 'w \<times> (vams_error + SdkEmbeddings)"
where
  "openai_provider_embeddings create model inputs w =
     then_parse (\<lambda>r. py_result (rmap (\<lambda>resp.
         \<lparr>se_model = oe_model resp,
          se_data = map (\<lambda>(i, v). \<lparr>ei_index = i, ei_embedding = v\<rparr>) (oe_data resp)\<rparr>) r))
       (create model inputs w)"

definition openai_rerank :: "rerank_args \<Rightarrow> 'w \<Rightarrow> 'w \<times> (vams_error + SdkRerank)" where
  "openai_rerank a w = (w, Inl (CapabilityNotAvailable ''OpenAI has no rerank endpoint''))"

subsection \<open>The Anthropic provider\<close>

definition default_max_tokens :: int where
  "default_max_tokens = 1024"

text \<open>A block of an Anthropic message, and the message, with every attribute optional.\<close>

record anthropic_block =
  ab_type :: "string option"
  ab_name :: "string option"
  ab_input :: "json option"
  ab_text :: "string option"

record anthropic_message =
  am_id :: "string option"
  am_model :: "string option"
  am_content :: "anthropic_block list"
  am_stop_reason :: "string option"

record AnthropicProvider =
  an_api_key :: string
  an_base_url :: "string option"

fun split_system ::
  "(json \<Rightarrow> string) \<Rightarrow> (string, json) pydict list \<Rightarrow> exn + string list \<times> (string, json) pydict list"
where
  "split_system repr [] = Inr ([], [])"
| "split_system repr (message # messages) =
     (if map_of message ''role'' = Some (JStr ''system'')
      then rmap (\<lambda>(system, conversation).
             (py_str repr (case map_of message ''content'' of None \<Rightarrow> JStr [] | Some c \<Rightarrow> c) # system, conversation))
             (split_system repr messages)
      else rbind (item_get message ''role'') (\<lambda>role. rbind (item_get message ''content'') (\<lambda>content.
             rmap (\<lambda>(system, conversation). (system, [(''role'', role), (''content'', content)] # conversation))
               (split_system repr messages))))"

definition system_text :: "string list \<Rightarrow> string" where
  "system_text parts = py_join [CHR 10, CHR 10] parts"

text \<open>\<open>tool_name\<close> is the JSON value of the schema's name, \<open>JNull\<close> for \<open>None\<close>.\<close>

definition tool_call :: "json \<Rightarrow> anthropic_block \<Rightarrow> bool" where
  "tool_call tool_name block \<longleftrightarrow> ab_type block = Some ''tool_use'' \<and>
     (tool_name = JNull \<or> (case ab_name block of None \<Rightarrow> JNull | Some n \<Rightarrow> JStr n) = tool_name)"

definition extract_content :: "(json \<Rightarrow> string) \<Rightarrow> anthropic_block list \<Rightarrow> json \<Rightarrow> string" where
  "extract_content dumps blocks tool_name =
     (case find (tool_call tool_name) blocks of
        Some block \<Rightarrow> dumps (case ab_input block of None \<Rightarrow> JObj [] | Some i \<Rightarrow> i)
      | None \<Rightarrow> concat (map (\<lambda>block. case ab_text block of None \<Rightarrow> [] | Some t \<Rightarrow> t)
          (filter (\<lambda>block. ab_type block = Some ''text'') blocks)))"

text \<open>The \<open>tools\<close> and \<open>tool_choice\<close> entries of a structured request, with the tool's name.\<close>

definition forced_tool ::
  "(string, json) pydict option \<Rightarrow> exn + json \<times> (string, json) pydict"
where
  "forced_tool response_format =
     (case response_format of
        None \<Rightarrow> Inr (JNull, [])
      | Some rf \<Rightarrow>
          if map_of rf ''type'' \<noteq> Some (JStr ''json_schema'') then Inr (JNull, [])
          else rbind (item_get rf ''json_schema'') (\<lambda>schema.
               rbind (py_get schema ''name'' (JStr ''structured_output'')) (\<lambda>name.
               rmap (\<lambda>input_schema.
                   (name, [(''tools'', JList [JObj [(''name'', name),
                        (''description'', JStr ''Return the result strictly in this JSON schema.''),
                        (''input_schema'', input_schema)]]),
                      (''tool_choice'', JObj [(''type'', JStr ''tool''), (''name'', name)])]))
                 (py_item schema ''schema''))))"

definition anthropic_kwargs ::
  "chat_args \<Rightarrow> string \<Rightarrow> (string, json) pydict list \<Rightarrow> (string, json) pydict \<Rightarrow> (string, json) pydict"
where
  "anthropic_kwargs a system conversation tools =
     AList.updates (map fst (ca_extra a)) (map snd (ca_extra a))
       ([(''model'', JStr (ca_model a)), (''messages'', JList (map JObj conversation)),
         (''max_tokens'', JInt (case ca_max_tokens a of None \<Rightarrow> default_max_tokens
            | Some n \<Rightarrow> if n = 0 then default_max_tokens else n)),
         (''temperature'', JFloat (ca_temperature a))]
        @ (if system \<noteq> [] then [(''system'', JStr system)] else [])
        @ tools)"

definition anthropic_chat ::
  "((string, json) pydict \<Rightarrow> 'w \<Rightarrow> 'w \<times> (exn + anthropic_message)) \<Rightarrow> codecs \<Rightarrow> chat_args \<Rightarrow> 'w
    \<Rightarrow> 'w \<times> (vams_error + SdkChatResponse)"
where
  "anthropic_chat create cd a w =
     (case rbind (split_system (np_repr (cd_numbers cd)) (ca_messages a)) (\<lambda>(system, conversation).
           rmap (\<lambda>(tool_name, tools). (tool_name, anthropic_kwargs a (system_text system) conversation tools))
             (forced_tool (ca_response_format a))) of
        Inl e \<Rightarrow> (w, Inl (PyError e))
      | Inr (tool_name, kwargs) \<Rightarrow>
          then_parse (\<lambda>r. py_result (rmap (\<lambda>resp.
              \<lparr>sr_id = (case am_id resp of None \<Rightarrow> [] | Some i \<Rightarrow> i),
               sr_model = (case am_model resp of None \<Rightarrow> ca_model a | Some m \<Rightarrow> m),
               sr_choices = [\<lparr>sc_index = 0,
                 sc_message = \<lparr>sm_role = ''assistant'',
                   sm_content = extract_content (cd_dumps cd) (am_content resp) tool_name\<rparr>,
                 sc_finish_reason = am_stop_reason resp\<rparr>],
               sr_usage = default_usage\<rparr>) r))
            (create kwargs w))"

definition anthropic_embeddings :: "string \<Rightarrow> string list \<Rightarrow> 'w \<Rightarrow> 'w \<times> (vams_error + SdkEmbeddings)" where
  "anthropic_embeddings model inputs w = (w, Inl (CapabilityNotAvailable ''Anthropic has no embeddings endpoint''))"

definition anthropic_rerank :: "rerank_args \<Rightarrow> 'w \<Rightarrow> 'w \<times> (vams_error + SdkRerank)" where
  "anthropic_rerank a w = (w, Inl (CapabilityNotAvailable ''Anthropic has no rerank endpoint''))"

subsection \<open>What the gateway sends\<close>

text \<open>\<open>model_dump()\<close> of the gateway's response models; absent values are written as null.\<close>

definition nullable :: "string option \<Rightarrow> json" where
  "nullable x = (case x of None \<Rightarrow> JNull | Some s \<Rightarrow> JStr s)"

fun error_type_str :: "ErrorType \<Rightarrow> string" where
  "error_type_str invalid_request_error = ''invalid_request_error''"
| "error_type_str authentication_error = ''authentication_error''"
| "error_type_str permission_error = ''permission_error''"
| "error_type_str not_found_error = ''not_found_error''"
| "error_type_str rate_limit_error = ''rate_limit_error''"
| "error_type_str api_error = ''api_error''"
| "error_type_str backend_error = ''backend_error''"

definition dump_envelope :: "ErrorEnvelope \<Rightarrow> json" where
  "dump_envelope env =
     (let d = env_error env
      in JObj [(''error'', JObj [(''message'', JStr (ed_message d)), (''type'', JStr (error_type_str (ed_type d))),
           (''code'', nullable (ed_code d)), (''param'', nullable (ed_param d))])])"

definition dump_embedding_response :: "EmbeddingResponse \<Rightarrow> json" where
  "dump_embedding_response r =
     JObj [(''object'', JStr ''list''),
       (''data'', JList (map (\<lambda>d. JObj [(''object'', JStr ''embedding''), (''index'', JInt (edt_index d)),
          (''embedding'', JList (map JFloat (edt_embedding d)))]) (ep_data r))),
       (''model'', JStr (ep_model r)),
       (''usage'', JObj [(''prompt_tokens'', JInt (eu_prompt_tokens (ep_usage r))),
          (''total_tokens'', JInt (eu_total_tokens (ep_usage r)))])]"

definition dump_rerank_response :: "RerankResponse \<Rightarrow> json" where
  "dump_rerank_response r =
     JObj [(''id'', JStr (rp_id r)), (''object'', JStr ''rerank''), (''model'', JStr (rp_model r)),
       (''results'', JList (map (\<lambda>x. JObj [(''index'', JInt (rs_index x)),
          (''relevance_score'', JFloat (rs_relevance_score x)),
          (''document'', case rs_document x of None \<Rightarrow> JNull | Some t \<Rightarrow> JObj [(''text'', JStr t)])]) (rp_results r)))]"

definition error_answer :: "gw_error \<Rightarrow> string \<Rightarrow> platform_reply" where
  "error_answer e text =
     (let r = error_response e in Response (er_status r) (Inr (dump_envelope (er_content r))) text)"

subsection \<open>Reading it back\<close>

text \<open>Validation of a \<open>list[float]\<close> keeps a list of JSON numbers as it is (Pydantic's documentation).\<close>

definition floats_kept :: "codecs \<Rightarrow> bool" where
  "floats_kept cd \<longleftrightarrow> (\<forall>v. cd_float_list cd (map JFloat v) = Inr v)"

lemmas dynamic_defs = py_item_def py_get_def py_iter_def item_get_def str_field_def opt_str_field_def

lemma rmap_list_map: "(\<And>x. x \<in> set xs \<Longrightarrow> f (g x) = Inr (h x)) \<Longrightarrow> rmap_list f (map g xs) = Inr (map h xs)"
  by (induction xs) simp_all

lemma parse_embeddings_dump:
  assumes "floats_kept cd"
  shows "parse_embeddings cd model (dump_embedding_response r) =
    Inr \<lparr>se_model = ep_model r, se_data = map (\<lambda>d. \<lparr>ei_index = edt_index d, ei_embedding = edt_embedding d\<rparr>) (ep_data r)\<rparr>"
proof -
  have "rmap_list (parse_embedding cd) (map (\<lambda>d. JObj [(''object'', JStr ''embedding''), (''index'', JInt (edt_index d)),
          (''embedding'', JList (map JFloat (edt_embedding d)))]) (ep_data r)) =
      Inr (map (\<lambda>d. \<lparr>ei_index = edt_index d, ei_embedding = edt_embedding d\<rparr>) (ep_data r))"
    using assms by (intro rmap_list_map) (simp add: parse_embedding_def dynamic_defs floats_kept_def)
  then show ?thesis
    by (simp add: parse_embeddings_def dump_embedding_response_def dynamic_defs)
qed

lemma parse_rerank_dump:
  "parse_rerank cd model (dump_rerank_response r) =
    Inr \<lparr>sk_model = rp_model r, sk_results = map (\<lambda>x. \<lparr>ri_index = rs_index x, ri_relevance_score = rs_relevance_score x,
           ri_document = rs_document x\<rparr>) (rp_results r)\<rparr>"
proof -
  have "rmap_list (parse_rerank_item cd) (map (\<lambda>x. JObj [(''index'', JInt (rs_index x)),
          (''relevance_score'', JFloat (rs_relevance_score x)),
          (''document'', case rs_document x of None \<Rightarrow> JNull | Some t \<Rightarrow> JObj [(''text'', JStr t)])]) (rp_results r)) =
      Inr (map (\<lambda>x. \<lparr>ri_index = rs_index x, ri_relevance_score = rs_relevance_score x,
           ri_document = rs_document x\<rparr>) (rp_results r))"
    by (intro rmap_list_map)
       (simp add: parse_rerank_item_def document_text_def is_falsy_def dynamic_defs split: option.split)
  then show ?thesis
    by (simp add: parse_rerank_def dump_rerank_response_def dynamic_defs)
qed

lemma post_success:
  "http \<lparr>pq_client = p, pq_path = path, pq_json = JObj payload\<rparr> w = (w', Response 200 (Inr v) text) \<Longrightarrow>
     platform_post http cd p path payload w = (w', Inr v)"
  by (simp add: platform_post_def)

lemma post_error_answer:
  assumes "http \<lparr>pq_client = p, pq_path = path, pq_json = JObj payload\<rparr> w = (w', error_answer e text)"
  shows "platform_post http cd p path payload w =
    (w', Inl (PlatformError (''basic-infra returned HTTP '' @ show_int (status_code (ge_class e)) @ '': '' @ ge_message e)
      (Some (status_code (ge_class e)))))"
proof -
  have "status_code (ge_class e) \<ge> 400" by (cases "ge_class e") simp_all
  with assms show ?thesis
    by (simp add: platform_post_def error_answer_def error_response_def dump_envelope_def error_message_def
        dynamic_defs py_str_def Let_def)
qed

lemma tei_vectors_indexed:
  "rmap_list (tei_vector fparse a) (enumerate n vs) = Inr xs \<Longrightarrow> map edt_index xs = map int [n..<n + length xs]"
proof (induction vs arbitrary: n xs)
  case (Cons v vs)
  then obtain y ys where y: "tei_vector fparse a (n, v) = Inr y"
      and ys: "rmap_list (tei_vector fparse a) (enumerate (Suc n) vs) = Inr ys" "xs = y # ys"
    by (auto simp: rbind_Inr_iff rmap_Inr_iff)
  have "edt_index y = int n"
    using y by (auto simp: tei_vector_def rmap_Inr_iff split: json.splits)
  with Cons.IH [OF ys(1)] ys(2) show ?case by (simp add: upt_conv_Cons del: upt.simps)
qed simp

lemma tei_embedding_shape:
  assumes "tei_embedding send fparse a request = Inr resp"
  shows "ep_model resp = er_model request" "map edt_index (ep_data resp) = map int [0..<length (ep_data resp)]"
proof -
  obtain data where d: "(case data of
           JList vs \<Rightarrow>
             rbind (rmap_list (tei_vector fparse a) (enumerate 0 vs))
               (\<lambda>vectors. Inr \<lparr>ep_data = vectors, ep_model = er_model request,
                  ep_usage = \<lparr>eu_prompt_tokens = int (sum_list (map length (input_list (er_input request)))) div 4,
                    eu_total_tokens = int (sum_list (map length (input_list (er_input request)))) div 4\<rparr>\<rparr>)
         | _ \<Rightarrow> Inl (Gw (gateway_error GatewayError
             (ad_name a @ '' returned an unexpected /embed payload'') None None))) = Inr resp"
    using assms unfolding tei_embedding_def Let_def rbind_Inr_iff by blast
  then obtain vs where "rmap_list (tei_vector fparse a) (enumerate 0 vs) = Inr (ep_data resp)"
      "ep_model resp = er_model request"
    by (cases data) (auto simp: rbind_Inr_iff)
  then show "ep_model resp = er_model request" "map edt_index (ep_data resp) = map int [0..<length (ep_data resp)]"
    using tei_vectors_indexed [of fparse a 0 vs "ep_data resp"] by simp_all
qed

lemma vectors_in_order:
  assumes "map edt_index ds = map int [0..<length ds]"
  shows "vectors \<lparr>se_model = m, se_data = map (\<lambda>d. \<lparr>ei_index = edt_index d, ei_embedding = edt_embedding d\<rparr>) ds\<rparr> =
    map edt_embedding ds"
proof -
  have "sorted (map ei_index (map (\<lambda>d. \<lparr>ei_index = edt_index d, ei_embedding = edt_embedding d\<rparr>) ds))"
    using assms by (simp add: comp_def sorted_iff_nth_mono)
  then show ?thesis by (simp add: vectors_def sort_key_id_if_sorted comp_def)
qed


text \<open>
  C33. An error of the gateway arrives as an error of the SDK: whatever \<open>GatewayError\<close> the gateway answers a chat,
  embeddings or rerank request with, the provider raises \<open>PlatformError\<close> with the status code of the error's
  class and its message, and sends nothing else.
\<close>

theorem gateway_errors_reach_the_client:
  assumes "\<forall>request w. http request w = (f w, error_answer e text)"
  shows "(let err = PlatformError (''basic-infra returned HTTP '' @ show_int (status_code (ge_class e)) @ '': '' @ ge_message e)
        (Some (status_code (ge_class e)))
     in basic_infra_chat http cd p a w = (f w, Inl err) \<and>
        basic_infra_embeddings http cd p model inputs w = (f w, Inl err) \<and>
        basic_infra_rerank http cd p ra w = (f w, Inl err))"
  using post_error_answer [OF assms [rule_format]]
  by (simp add: basic_infra_chat_def basic_infra_embeddings_def basic_infra_rerank_def then_parse_def Let_def)

subsection \<open>Translation to Anthropic\<close>

definition system_message :: "(string, json) pydict \<Rightarrow> bool" where
  "system_message m \<longleftrightarrow> map_of m ''role'' = Some (JStr ''system'')"

definition system_part :: "(json \<Rightarrow> string) \<Rightarrow> (string, json) pydict \<Rightarrow> string" where
  "system_part repr m = py_str repr (case map_of m ''content'' of None \<Rightarrow> JStr [] | Some c \<Rightarrow> c)"

definition turn :: "(string, json) pydict \<Rightarrow> (string, json) pydict" where
  "turn m = [(''role'', the (map_of m ''role'')), (''content'', the (map_of m ''content''))]"

definition complete_message :: "(string, json) pydict \<Rightarrow> bool" where
  "complete_message m \<longleftrightarrow> system_message m \<or> map_of m ''role'' \<noteq> None \<and> map_of m ''content'' \<noteq> None"

lemma split_system_complete:
  "list_all complete_message ms \<Longrightarrow> split_system repr ms =
     Inr (map (system_part repr) (filter system_message ms), map turn (filter (Not \<circ> system_message) ms))"
  by (induction ms)
     (auto simp: complete_message_def system_message_def system_part_def turn_def item_get_def)

lemma split_system_incomplete:
  "\<not> list_all complete_message ms \<Longrightarrow> \<exists>k. split_system repr ms = Inl (KeyError k)"
proof (induction ms)
  case (Cons m ms)
  show ?case
  proof (cases "complete_message m")
    case True
    with Cons obtain k where "split_system repr ms = Inl (KeyError k)" by auto
    with True show ?thesis by (auto simp: complete_message_def system_message_def item_get_def)
  next
    case False
    then show ?thesis
      by (auto simp: complete_message_def system_message_def item_get_def split: option.splits)
  qed
qed simp

definition json_schema_format :: "string \<Rightarrow> json \<Rightarrow> (string, json) pydict" where
  "json_schema_format name schema =
     [(''type'', JStr ''json_schema''), (''json_schema'', JObj [(''name'', JStr name), (''schema'', schema)])]"

text \<open>
  A structured request to Anthropic forces the tool and returns its input: the system messages become the
  \<open>system\<close> text, all others stay in the conversation in order, \<open>max_tokens\<close> is never zero, one tool carries
  the requested schema and is the only choice; the content of the reply is the JSON of the input of the first
  call of that tool, or the reply's text when there is none. A message without role or content raises
  \<open>KeyError\<close> before anything is sent.
\<close>

theorem anthropic_structured_output:
  assumes "ca_extra a = []" and "ca_response_format a = Some (json_schema_format name schema)"
  shows "if list_all complete_message (ca_messages a)
    then \<exists>kw. map_of kw ''messages'' = Some (JList (map (JObj \<circ> turn) (filter (Not \<circ> system_message) (ca_messages a)))) \<and>
      map_of kw ''system'' = (case system_text (map (system_part (np_repr (cd_numbers cd))) (filter system_message (ca_messages a)))
        of [] \<Rightarrow> None | text \<Rightarrow> Some (JStr text)) \<and>
      (\<exists>n. map_of kw ''max_tokens'' = Some (JInt n) \<and> n \<noteq> 0) \<and>
      map_of kw ''tools'' = Some (JList [JObj [(''name'', JStr name),
        (''description'', JStr ''Return the result strictly in this JSON schema.''), (''input_schema'', schema)]]) \<and>
      map_of kw ''tool_choice'' = Some (JObj [(''type'', JStr ''tool''), (''name'', JStr name)]) \<and>
      (\<forall>w. \<exists>r. anthropic_chat create cd a w = (fst (create kw w), r) \<and>
        (case snd (create kw w) of
           Inl e \<Rightarrow> r = Inl (PyError e)
         | Inr resp \<Rightarrow> rmap response_content r = Inr
             (case find (\<lambda>b. ab_type b = Some ''tool_use'' \<and> ab_name b = Some name) (am_content resp) of
                Some b \<Rightarrow> cd_dumps cd (case ab_input b of None \<Rightarrow> JObj [] | Some i \<Rightarrow> i)
              | None \<Rightarrow> concat (map (\<lambda>b. case ab_text b of None \<Rightarrow> [] | Some t \<Rightarrow> t)
                  (filter (\<lambda>b. ab_type b = Some ''text'') (am_content resp))))))
    else \<forall>w. \<exists>k. anthropic_chat create cd a w = (w, Inl (PyError (KeyError k)))"
proof -
  let ?repr = "np_repr (cd_numbers cd)"
  have tool: "forced_tool (ca_response_format a) = Inr (JStr name,
      [(''tools'', JList [JObj [(''name'', JStr name),
          (''description'', JStr ''Return the result strictly in this JSON schema.''), (''input_schema'', schema)]]),
       (''tool_choice'', JObj [(''type'', JStr ''tool''), (''name'', JStr name)])])" (is "_ = Inr (_, ?tools)")
    using assms(2) by (simp add: forced_tool_def json_schema_format_def dynamic_defs)
  have call: "tool_call (JStr name) = (\<lambda>b. ab_type b = Some ''tool_use'' \<and> ab_name b = Some name)"
    by (auto simp: tool_call_def fun_eq_iff split: option.split)
  show ?thesis
  proof (cases "list_all complete_message (ca_messages a)")
    case True
    let ?kw = "anthropic_kwargs a (system_text (map (system_part ?repr) (filter system_message (ca_messages a))))
      (map turn (filter (Not \<circ> system_message) (ca_messages a))) ?tools"
    have run: "anthropic_chat create cd a w = then_parse (\<lambda>r. py_result (rmap (\<lambda>resp.
              \<lparr>sr_id = (case am_id resp of None \<Rightarrow> [] | Some i \<Rightarrow> i),
               sr_model = (case am_model resp of None \<Rightarrow> ca_model a | Some m \<Rightarrow> m),
               sr_choices = [\<lparr>sc_index = 0,
                 sc_message = \<lparr>sm_role = ''assistant'',
                   sm_content = extract_content (cd_dumps cd) (am_content resp) (JStr name)\<rparr>,
                 sc_finish_reason = am_stop_reason resp\<rparr>],
               sr_usage = default_usage\<rparr>) r)) (create ?kw w)" for w
      using tool by (simp add: anthropic_chat_def split_system_complete [OF True])
    have reply: "\<exists>r. anthropic_chat create cd a w = (fst (create ?kw w), r) \<and>
        (case snd (create ?kw w) of
           Inl e \<Rightarrow> r = Inl (PyError e)
         | Inr resp \<Rightarrow> rmap response_content r = Inr
             (case find (\<lambda>b. ab_type b = Some ''tool_use'' \<and> ab_name b = Some name) (am_content resp) of
                Some b \<Rightarrow> cd_dumps cd (case ab_input b of None \<Rightarrow> JObj [] | Some i \<Rightarrow> i)
              | None \<Rightarrow> concat (map (\<lambda>b. case ab_text b of None \<Rightarrow> [] | Some t \<Rightarrow> t)
                  (filter (\<lambda>b. ab_type b = Some ''text'') (am_content resp)))))" for w
      unfolding run then_parse_def
      by (cases "create ?kw w", cases "snd (create ?kw w)")
         (auto simp: py_result_def response_content_def extract_content_def call)
    have lookups: "map_of ?kw ''messages'' = Some (JList (map (JObj \<circ> turn) (filter (Not \<circ> system_message) (ca_messages a))))"
      "map_of ?kw ''tools'' = Some (JList [JObj [(''name'', JStr name),
        (''description'', JStr ''Return the result strictly in this JSON schema.''), (''input_schema'', schema)]])"
      "map_of ?kw ''tool_choice'' = Some (JObj [(''type'', JStr ''tool''), (''name'', JStr name)])"
      "\<exists>n. map_of ?kw ''max_tokens'' = Some (JInt n) \<and> n \<noteq> 0"
      using assms(1) by (auto simp: anthropic_kwargs_def default_max_tokens_def split: option.split)
    have system: "map_of ?kw ''system'' =
        (case system_text (map (system_part ?repr) (filter system_message (ca_messages a))) of
           [] \<Rightarrow> None | text \<Rightarrow> Some (JStr text))"
      using assms(1) by (auto simp: anthropic_kwargs_def split: list.split)
    show ?thesis
      unfolding if_P [OF True] by (rule exI [of _ ?kw], intro conjI allI lookups system reply)
  next
    case False
    from split_system_incomplete [OF this, of ?repr] obtain k where "split_system ?repr (ca_messages a) = Inl (KeyError k)"
      by blast
    with False show ?thesis by (auto simp: anthropic_chat_def)
  qed
qed

subsection \<open>Witnesses\<close>

definition sample_codecs :: codecs where
  "sample_codecs = \<lparr>cd_numbers = no_parsers, cd_dumps = (\<lambda>v. case v of JStr s \<Rightarrow> s | _ \<Rightarrow> ''{}''),
     cd_validate_chat = (\<lambda>v. Inl (ValueError ''choices'')),
     cd_float_list = rmap_list (\<lambda>v. case v of JFloat f \<Rightarrow> Inr f | _ \<Rightarrow> Inl (ValueError ''float''))\<rparr>"

lemma sample_floats_kept: "floats_kept sample_codecs"
proof -
  have "rmap_list (\<lambda>v. case v of JFloat f \<Rightarrow> Inr f | _ \<Rightarrow> Inl (ValueError ''float'')) (map JFloat v) = Inr (map (\<lambda>x. x) v)" for v
    by (rule rmap_list_map) simp
  then show ?thesis by (simp add: floats_kept_def sample_codecs_def)
qed

definition sample_embeddings :: EmbeddingResponse where
  "sample_embeddings = \<lparr>ep_data = [\<lparr>edt_index = 0, edt_embedding = [Fin 1]\<rparr>, \<lparr>edt_index = 1, edt_embedding = [Fin 2, Nan]\<rparr>],
     ep_model = ''bge-m3'', ep_usage = \<lparr>eu_prompt_tokens = 0, eu_total_tokens = 0\<rparr>\<rparr>"

lemma sample_tei_runs:
  "tei_embedding (\<lambda>q. HttpReply 200 (Inr (JList [JList [JFloat (Fin 1)], JList [JInt 2, JFloat Nan]]))) (np_float no_parsers)
     (sample_adapter Tei) \<lparr>er_model = ''bge-m3'', er_input = Many [''a'', ''b''], er_dimensions = None\<rparr> = Inr sample_embeddings"
  by (simp add: tei_embedding_def tei_vector_def input_list_def request_json_def lift_py_def sample_embeddings_def Let_def)


lemma gateway_errors_reach_the_client_witness:
  "basic_infra_chat (\<lambda>q w. (Suc w, error_answer (model_not_found ''Model not found: x'') [])) sample_codecs
     (basic_infra_provider ''http://gw/v1'' ''k'')
     \<lparr>ca_model = ''x'', ca_messages = [], ca_response_format = None, ca_temperature = Fin 0, ca_max_tokens = None, ca_extra = []\<rparr> 0
   = (1, Inl (PlatformError ''basic-infra returned HTTP 404: Model not found: x'' (Some 404)))"
proof -
  let ?e = "model_not_found ''Model not found: x''"
  have code: "show_int 404 = ''404''" by code_simp
  have e: "status_code (ge_class ?e) = 404" "ge_message ?e = ''Model not found: x''"
    by (simp_all add: model_not_found_def gateway_error_def)
  have "\<forall>q w. (\<lambda>q w. (Suc w, error_answer ?e [])) q w = (Suc w, error_answer ?e [])" by simp
  from gateway_errors_reach_the_client [OF this, unfolded Let_def e code, THEN conjunct1] show ?thesis by simp
qed

definition sample_message :: "string \<Rightarrow> string \<Rightarrow> (string, json) pydict" where
  "sample_message role text = [(''role'', JStr role), (''content'', JStr text)]"

definition sample_chat_args :: chat_args where
  "sample_chat_args = \<lparr>ca_model = ''claude-haiku-4-5'',
     ca_messages = [sample_message ''system'' ''Be brief.'', sample_message ''user'' ''hi''],
     ca_response_format = Some (json_schema_format ''answer'' (JObj [])), ca_temperature = Fin 0,
     ca_max_tokens = Some 0, ca_extra = []\<rparr>"

definition sample_anthropic :: "(string, json) pydict \<Rightarrow> nat \<Rightarrow> nat \<times> (exn + anthropic_message)" where
  "sample_anthropic kw w = (Suc w, Inr \<lparr>am_id = None, am_model = None,
     am_content = [\<lparr>ab_type = Some ''text'', ab_name = None, ab_input = None, ab_text = Some ''ok''\<rparr>,
       \<lparr>ab_type = Some ''tool_use'', ab_name = Some ''answer'', ab_input = Some (JStr ''42''), ab_text = None\<rparr>],
     am_stop_reason = Some ''tool_use''\<rparr>)"

lemma anthropic_structured_output_witness:
  "\<exists>kw r. map_of kw ''system'' = Some (JStr ''Be brief.'') \<and>
     anthropic_chat sample_anthropic sample_codecs sample_chat_args 0 = (1, r) \<and> rmap response_content r = Inr ''42''"
proof -
  have args: "ca_extra sample_chat_args = []"
    "ca_response_format sample_chat_args = Some (json_schema_format ''answer'' (JObj []))"
    by (simp_all add: sample_chat_args_def)
  have ok: "list_all complete_message (ca_messages sample_chat_args)"
    by (simp add: sample_chat_args_def sample_message_def complete_message_def)
  have sys: "system_text (map (system_part (np_repr (cd_numbers sample_codecs)))
      (filter system_message (ca_messages sample_chat_args))) = ''Be brief.''"
    by (simp add: sample_chat_args_def sample_message_def system_message_def system_part_def system_text_def py_str_def)
  from anthropic_structured_output [OF args, of sample_codecs sample_anthropic, unfolded if_P [OF ok] sys]
  obtain kw where kw: "map_of kw ''system'' = Some (JStr ''Be brief.'')"
      "\<exists>r. anthropic_chat sample_anthropic sample_codecs sample_chat_args 0 = (fst (sample_anthropic kw 0), r) \<and>
        (case snd (sample_anthropic kw 0) of
           Inl e \<Rightarrow> r = Inl (PyError e)
         | Inr resp \<Rightarrow> rmap response_content r = Inr
             (case find (\<lambda>b. ab_type b = Some ''tool_use'' \<and> ab_name b = Some ''answer'') (am_content resp) of
                Some b \<Rightarrow> cd_dumps sample_codecs (case ab_input b of None \<Rightarrow> JObj [] | Some i \<Rightarrow> i)
              | None \<Rightarrow> concat (map (\<lambda>b. case ab_text b of None \<Rightarrow> [] | Some t \<Rightarrow> t)
                  (filter (\<lambda>b. ab_type b = Some ''text'') (am_content resp)))))"
    by auto
  then show ?thesis by (auto simp: sample_anthropic_def sample_codecs_def)
qed

end
