(* ===== verification/Wire.thy ===== *)
theory Wire
  imports Llm_Providers Router "HOL-Library.Monad_Syntax"
begin

text \<open>
  The wire types of the gateway: the JSON schemas that the classes of \<open>app/schemas/\<close> declare (and
  \<open>docs/api/openapi.yaml\<close> publishes), which values conform to them, and how a request of exactly these types is
  read into its class. The client SDK builds its payloads without these classes, so that the agreement of the
  two sides is a theorem and not a shared definition.
\<close>

subsection \<open>Schemas\<close>

datatype schema =
    AnyValue
  | AString
  | AnInteger
  | ANumber
  | ABoolean
  | ANull
  | AnEnum "string list"
  | IntBetween int "int option"
  | Between rat rat
  | AnArray nat "nat option" schema
  | AnyOf "schema list"
  | AnObject "(string \<times> bool \<times> schema) list"
  | AMap schema

text \<open>
  A number is finite: JSON has no other, and the response class refuses to render one. The entries of an
  object say whether the field is required; other fields are ignored.
\<close>

function (sequential) conforms :: "schema \<Rightarrow> json \<Rightarrow> bool" where
  "conforms AnyValue v = True"
| "conforms AString (JStr s) = True"
| "conforms AnInteger (JInt i) = True"
| "conforms ANumber (JInt i) = True"
| "conforms ANumber (JFloat (Fin q)) = True"
| "conforms ABoolean (JBool b) = True"
| "conforms ANull JNull = True"
| "conforms (AnEnum xs) (JStr s) = (s \<in> set xs)"
| "conforms (IntBetween lo hi) (JInt i) = (lo \<le> i \<and> (case hi of None \<Rightarrow> True | Some n \<Rightarrow> i \<le> n))"
| "conforms (Between lo hi) (JInt i) = (lo \<le> of_int i \<and> of_int i \<le> hi)"
| "conforms (Between lo hi) (JFloat (Fin q)) = (lo \<le> q \<and> q \<le> hi)"
| "conforms (AnArray lo hi s) (JList vs) =
     (lo \<le> length vs \<and> (case hi of None \<Rightarrow> True | Some n \<Rightarrow> length vs \<le> n) \<and> list_all (conforms s) vs)"
| "conforms (AnyOf ss) v = list_ex (\<lambda>s. conforms s v) ss"
| "conforms (AnObject entries) (JObj kvs) =
     list_all (\<lambda>f. case map_of kvs (fst f) of None \<Rightarrow> \<not> fst (snd f) | Some v \<Rightarrow> conforms (snd (snd f)) v) entries"
| "conforms (AMap s) (JObj kvs) = list_all (\<lambda>e. conforms s (snd e)) kvs"
| "conforms s v = False"
  by pat_completeness auto

termination
proof (relation "measure (\<lambda>(s, v). size s)", goal_cases)
  case (4 entries kvs f v)
  then have "size (snd (snd f)) \<le> size_list (size_prod (\<lambda>_. 0) (size_prod (\<lambda>_. 0) size)) entries"
    by (induction entries) (auto split: prod.splits)
  then show ?case by simp
qed (auto intro!: le_imp_less_Suc size_list_estimation')

abbreviation nullable_schema :: "schema \<Rightarrow> schema" where
  "nullable_schema s \<equiv> AnyOf [s, ANull]"

definition chat_message_schema :: schema where
  "chat_message_schema = AnObject
     [(''role'', True, AnEnum [''system'', ''user'', ''assistant'']), (''content'', True, AString),
      (''name'', False, nullable_schema AString)]"

definition json_schema_spec_schema :: schema where
  "json_schema_spec_schema = AnObject
     [(''name'', True, AString), (''schema'', True, AMap AnyValue), (''strict'', False, ABoolean),
      (''description'', False, nullable_schema AString)]"

definition response_format_schema :: schema where
  "response_format_schema = AnyOf
     [AnObject [(''type'', True, AnEnum [''json_object''])],
      AnObject [(''type'', True, AnEnum [''json_schema'']), (''json_schema'', True, json_schema_spec_schema)],
      AnObject [(''type'', False, AnEnum [''text''])]]"

definition stop_schema :: schema where
  "stop_schema = AnyOf [AnArray 0 None AString, AString, ANull]"

definition chat_request_schema :: schema where
  "chat_request_schema = AnObject
     [(''model'', True, AString), (''messages'', True, AnArray 0 None chat_message_schema),
      (''temperature'', False, Between 0 2), (''top_p'', False, Between 0 1),
      (''max_tokens'', False, nullable_schema (IntBetween 1 None)), (''stop'', False, stop_schema),
      (''seed'', False, nullable_schema AnInteger), (''n'', False, IntBetween 1 (Some 1)),
      (''response_format'', False, nullable_schema response_format_schema)]"

definition completion_request_schema :: schema where
  "completion_request_schema = AnObject
     [(''model'', True, AString), (''prompt'', True, AnyOf [AString, AnArray 0 None AString]),
      (''temperature'', False, Between 0 2), (''top_p'', False, Between 0 1),
      (''max_tokens'', False, nullable_schema (IntBetween 1 None)), (''stop'', False, stop_schema),
      (''seed'', False, nullable_schema AnInteger), (''n'', False, IntBetween 1 (Some 1))]"

definition embedding_request_schema :: schema where
  "embedding_request_schema = AnObject
     [(''model'', True, AString), (''input'', True, AnyOf [AString, AnArray 1 None AString]),
      (''dimensions'', False, nullable_schema (IntBetween 1 None))]"

definition rerank_request_schema :: schema where
  "rerank_request_schema = AnObject
     [(''model'', True, AString), (''query'', True, AString), (''documents'', True, AnArray 1 (Some 1000) AString),
      (''top_n'', False, nullable_schema (IntBetween 1 None)), (''return_documents'', False, ABoolean)]"

definition embedding_response_schema :: schema where
  "embedding_response_schema = AnObject
     [(''object'', True, AnEnum [''list'']),
      (''data'', True, AnArray 0 None (AnObject [(''object'', True, AnEnum [''embedding'']), (''index'', True, AnInteger),
         (''embedding'', True, AnArray 0 None ANumber)])),
      (''model'', True, AString),
      (''usage'', True, AnObject [(''prompt_tokens'', True, AnInteger), (''total_tokens'', True, AnInteger)])]"

definition rerank_response_schema :: schema where
  "rerank_response_schema = AnObject
     [(''id'', True, AString), (''object'', True, AnEnum [''rerank'']), (''model'', True, AString),
      (''results'', True, AnArray 0 None (AnObject [(''index'', True, AnInteger), (''relevance_score'', True, Between 0 1),
         (''document'', False, nullable_schema (AnObject [(''text'', True, AString)]))]))]"

definition error_envelope_schema :: schema where
  "error_envelope_schema = AnObject [(''error'', True, AnObject
     [(''message'', True, AString),
      (''type'', True, AnEnum [''invalid_request_error'', ''authentication_error'', ''permission_error'', ''not_found_error'',
         ''rate_limit_error'', ''api_error'', ''backend_error'']),
      (''code'', False, nullable_schema AString), (''param'', False, nullable_schema AString)])]"

definition model_list_schema :: schema where
  "model_list_schema = AnObject
     [(''object'', True, AnEnum [''list'']),
      (''data'', True, AnArray 0 None (AnObject [(''id'', True, AString), (''object'', True, AnEnum [''model'']),
         (''created'', False, nullable_schema AnInteger), (''owned_by'', True, AString),
         (''capabilities'', True, AnArray 0 None
            (AnEnum [''chat'', ''completions'', ''embeddings'', ''rerank'', ''structured'']))]))]"

definition tenant_identity_schema :: schema where
  "tenant_identity_schema = AnObject
     [(''tenant_id'', True, AString), (''display_name'', True, AString), (''allowed_models'', True, AnArray 0 None AString),
      (''rate_limits'', False, AMap AString)]"

subsection \<open>What the gateway writes\<close>

definition dump_model :: "Model \<Rightarrow> json" where
  "dump_model m = JObj [(''id'', JStr (m_id m)), (''object'', JStr ''model''), (''created'', JNull),
     (''owned_by'', JStr (m_owned_by m)), (''capabilities'', JList (map (\<lambda>c. JStr (cap_str c)) (m_capabilities m)))]"

definition dump_model_list :: "Model list \<Rightarrow> json" where
  "dump_model_list ms = JObj [(''object'', JStr ''list''), (''data'', JList (map dump_model ms))]"

definition dump_tenant_identity :: "TenantIdentity \<Rightarrow> json" where
  "dump_tenant_identity t = JObj [(''tenant_id'', JStr (ti_tenant_id t)), (''display_name'', JStr (ti_display_name t)),
     (''allowed_models'', JList (map JStr (ti_allowed_models t))),
     (''rate_limits'', JObj (map (\<lambda>(k, v). (k, JStr v)) (ti_rate_limits t)))]"

definition finite_float :: "pyfloat \<Rightarrow> bool" where
  "finite_float x = (case x of Fin q \<Rightarrow> True | _ \<Rightarrow> False)"

lemmas wire_schemas = chat_message_schema_def json_schema_spec_schema_def response_format_schema_def stop_schema_def
  chat_request_schema_def completion_request_schema_def embedding_request_schema_def rerank_request_schema_def
  embedding_response_schema_def rerank_response_schema_def error_envelope_schema_def model_list_schema_def
  tenant_identity_schema_def

lemma conforms_simps [simp]:
  "conforms (AnyOf ss) v \<longleftrightarrow> (\<exists>s \<in> set ss. conforms s v)"
  "conforms (AnArray lo hi s) (JList vs) \<longleftrightarrow>
     lo \<le> length vs \<and> (case hi of None \<Rightarrow> True | Some n \<Rightarrow> length vs \<le> n) \<and> (\<forall>v \<in> set vs. conforms s v)"
  by (simp_all add: list_ex_iff list_all_iff)

declare conforms.simps(12,13) [simp del]

lemma conforms_number: "conforms ANumber (JFloat x) \<longleftrightarrow> finite_float x"
  by (cases x) (simp_all add: finite_float_def)

lemma envelope_conforms: "conforms error_envelope_schema (dump_envelope e)"
proof -
  have "error_type_str t \<in> {''invalid_request_error'', ''authentication_error'', ''permission_error'', ''not_found_error'',
         ''rate_limit_error'', ''api_error'', ''backend_error''}" for t
    by (cases t) simp_all
  moreover have "conforms (nullable_schema AString) (nullable x)" for x
    by (simp add: nullable_def split: option.split)
  ultimately show ?thesis
    by (simp add: error_envelope_schema_def dump_envelope_def Let_def)
qed

lemma model_list_conforms: "conforms model_list_schema (dump_model_list ms)"
proof -
  have "cap_str c \<in> {''chat'', ''completions'', ''embeddings'', ''rerank'', ''structured''}" for c
    by (cases c) simp_all
  then show ?thesis
    by (simp add: model_list_schema_def dump_model_list_def dump_model_def)
qed

lemma tenant_identity_conforms: "conforms tenant_identity_schema (dump_tenant_identity t)"
  by (simp add: tenant_identity_schema_def dump_tenant_identity_def list_all_iff split_beta)

lemma embedding_response_conforms:
  "conforms embedding_response_schema (dump_embedding_response r) \<longleftrightarrow>
     (\<forall>d \<in> set (ep_data r). list_all finite_float (edt_embedding d))"
  by (simp add: embedding_response_schema_def dump_embedding_response_def conforms_number list_all_iff)

lemma rerank_response_conforms:
  assumes "tei_rerank send np token a request = Inr resp"
  shows "conforms rerank_response_schema (dump_rerank_response resp)"
proof -
  obtain items parsed where parsed: "rmap_list (rerank_item np a (rr_return_documents request)) items = Inr parsed"
    and resp: "rp_results resp = (case rr_top_n request of None \<Rightarrow> sort_by_score parsed | Some n \<Rightarrow> py_prefix n (sort_by_score parsed))"
    by (rule tei_rerank_results [OF assms])
  have "set (rp_results resp) \<subseteq> set parsed"
    unfolding resp by (auto simp: sort_by_score_def py_prefix_def split: option.splits if_splits dest: in_set_takeD)
  moreover have "\<exists>q. rs_relevance_score x = Fin q \<and> 0 \<le> q \<and> q \<le> 1" if "x \<in> set parsed" for x
    using rmap_list_image [OF parsed that] rerank_item_score by metis
  ultimately have "\<exists>q. rs_relevance_score x = Fin q \<and> 0 \<le> q \<and> q \<le> 1" if "x \<in> set (rp_results resp)" for x
    using that by blast
  then show ?thesis
    by (fastforce simp: rerank_response_schema_def dump_rerank_response_def split: option.split)
qed

text \<open>
  C28. Every answer of the gateway conforms to its published schema: the error envelope of every gateway error,
  the model listing, a tenant's identity, and every rerank response its adapter makes, whose scores are finite
  and within [0, 1] whatever the backend sent; an embedding response conforms exactly when all its numbers are
  finite, which the adapter passes on from the backend unchecked.
\<close>

theorem responses_conform:
  assumes "tei_rerank send np token a request = Inr rk"
  shows "conforms rerank_response_schema (dump_rerank_response rk) \<and>
    conforms error_envelope_schema (dump_envelope (er_content (error_response g))) \<and>
    conforms model_list_schema (dump_model_list ms) \<and>
    conforms tenant_identity_schema (dump_tenant_identity identity) \<and>
    (conforms embedding_response_schema (dump_embedding_response er) \<longleftrightarrow>
       (\<forall>d \<in> set (ep_data er). list_all finite_float (edt_embedding d)))"
  using rerank_response_conforms [OF assms] envelope_conforms model_list_conforms tenant_identity_conforms
    embedding_response_conforms by blast

subsection \<open>What the gateway forwards\<close>

lemma opt_field_None [simp]: "opt_field k f None = []"
  and opt_field_Some [simp]: "opt_field k f (Some x) = [(k, f x)]"
  by (simp_all add: opt_field_def)

lemma lookup_opt_field: "map_of (opt_field k f x) k' = (if k' = k then map_option f x else None)"
  by (cases x) auto

lemma message_conforms: "conforms chat_message_schema (dump_message m)"
  by (cases "cm_role m"; cases "cm_name m") (simp_all add: chat_message_schema_def dump_message_def)

lemma stop_conforms: "conforms stop_schema (dump_one_or_many v)" "conforms (AnyOf [AString, AnArray 0 None AString]) (dump_one_or_many v)"
  by (cases v; auto simp: stop_schema_def dump_one_or_many_def)+

lemma spec_conforms: "conforms json_schema_spec_schema (dump_schema_spec spec)"
  by (cases "js_description spec") (simp_all add: json_schema_spec_schema_def dump_schema_spec_def list_all_iff)

lemma format_conforms: "conforms response_format_schema (dump_response_format f)"
  by (cases f) (simp_all add: response_format_schema_def dump_response_format_def spec_conforms)

lemma between_conforms: "fl_between lo hi x \<Longrightarrow> conforms (Between lo hi) (JFloat x)"
  by (cases x) (auto simp: fl_between_def)

lemma chat_dump_conforms:
  assumes "valid_chat_request r"
  shows "conforms chat_request_schema (JObj (AList.update ''model'' (JStr m) (dump_chat_request r)))"
  using assms message_conforms between_conforms stop_conforms(1) format_conforms
  by (cases "cr_max_tokens r"; cases "cr_stop r"; cases "cr_seed r"; cases "cr_response_format r")
     (simp_all add: chat_request_schema_def dump_chat_request_def valid_chat_request_def lookup_update at_least_1_def)

lemma completion_dump_conforms:
  assumes "valid_completion_request r"
  shows "conforms completion_request_schema (JObj (AList.update ''model'' (JStr m) (dump_completion_request r)))"
  using assms between_conforms stop_conforms
  by (cases "lr_max_tokens r"; cases "lr_stop r"; cases "lr_seed r")
     (simp_all add: completion_request_schema_def dump_completion_request_def valid_completion_request_def
       lookup_update at_least_1_def)

text \<open>An object without repeated keys and without a null.\<close>

definition clean_object :: "(string, json) pydict \<Rightarrow> bool" where
  "clean_object d \<longleftrightarrow> wf_dict d \<and> JNull \<notin> snd ` set d"

lemma chat_dump_clean: "clean_object (AList.update ''model'' (JStr m) (dump_chat_request r))"
  by (cases "cr_max_tokens r"; cases "cr_stop r"; cases "cr_seed r"; cases "cr_response_format r")
     (auto simp: clean_object_def wf_dict_def dump_chat_request_def dump_one_or_many_def dump_response_format_def
       split: one_or_many.split ResponseFormat.split)

lemma completion_dump_clean: "clean_object (AList.update ''model'' (JStr m) (dump_completion_request r))"
  by (cases "lr_max_tokens r"; cases "lr_stop r"; cases "lr_seed r")
     (auto simp: clean_object_def wf_dict_def dump_completion_request_def dump_one_or_many_def split: one_or_many.splits)


subsection \<open>How a request is read\<close>

text \<open>
  Reading a body whose fields already have the declared types (what pydantic coerces beyond that is its own):
  an absent field takes its default, other fields are ignored, and \<open>None\<close> is a validation error.
\<close>

fun read_string :: "json \<Rightarrow> string option" where
  "read_string (JStr s) = Some s"
| "read_string v = None"

fun read_integer :: "json \<Rightarrow> int option" where
  "read_integer (JInt i) = Some i"
| "read_integer v = None"

fun read_boolean :: "json \<Rightarrow> bool option" where
  "read_boolean (JBool b) = Some b"
| "read_boolean v = None"

fun read_float :: "json \<Rightarrow> pyfloat option" where
  "read_float (JInt i) = Some (Fin (of_int i))"
| "read_float (JFloat x) = Some x"
| "read_float v = None"

fun those_list :: "('a \<Rightarrow> 'b option) \<Rightarrow> 'a list \<Rightarrow> 'b list option" where
  "those_list f [] = Some []"
| "those_list f (x # xs) = do { y \<leftarrow> f x; ys \<leftarrow> those_list f xs; Some (y # ys) }"

fun read_list :: "(json \<Rightarrow> 'a option) \<Rightarrow> json \<Rightarrow> 'a list option" where
  "read_list f (JList vs) = those_list f vs"
| "read_list f v = None"

definition required :: "(json \<Rightarrow> 'a option) \<Rightarrow> (string, json) pydict \<Rightarrow> string \<Rightarrow> 'a option" where
  "required f kvs k = (case map_of kvs k of None \<Rightarrow> None | Some v \<Rightarrow> f v)"

definition with_default :: "'a \<Rightarrow> (json \<Rightarrow> 'a option) \<Rightarrow> (string, json) pydict \<Rightarrow> string \<Rightarrow> 'a option" where
  "with_default d f kvs k = (case map_of kvs k of None \<Rightarrow> Some d | Some v \<Rightarrow> f v)"

definition optional :: "(json \<Rightarrow> 'a option) \<Rightarrow> (string, json) pydict \<Rightarrow> string \<Rightarrow> 'a option option" where
  "optional f kvs k = with_default None (\<lambda>v. if v = JNull then Some None else map_option Some (f v)) kvs k"

fun read_role :: "json \<Rightarrow> Role option" where
  "read_role (JStr s) =
     (if s = ''system'' then Some System else if s = ''user'' then Some User
      else if s = ''assistant'' then Some Assistant else None)"
| "read_role v = None"

fun read_message :: "json \<Rightarrow> ChatMessage option" where
  "read_message (JObj kvs) = do {
     role \<leftarrow> required read_role kvs ''role'';
     content \<leftarrow> required read_string kvs ''content'';
     name \<leftarrow> optional read_string kvs ''name'';
     Some \<lparr>cm_role = role, cm_content = content, cm_name = name\<rparr> }"
| "read_message v = None"

fun read_one_or_many :: "json \<Rightarrow> one_or_many option" where
  "read_one_or_many (JStr s) = Some (One s)"
| "read_one_or_many (JList vs) = map_option Many (those_list read_string vs)"
| "read_one_or_many v = None"

fun read_dict :: "json \<Rightarrow> (string, json) pydict option" where
  "read_dict (JObj kvs) = Some kvs"
| "read_dict v = None"

fun read_schema_spec :: "json \<Rightarrow> JsonSchemaSpec option" where
  "read_schema_spec (JObj kvs) = do {
     name \<leftarrow> required read_string kvs ''name'';
     definition \<leftarrow> (if map_of kvs ''schema'' = None then required read_dict kvs ''json_schema_def''
                  else required read_dict kvs ''schema'');
     strict \<leftarrow> with_default True read_boolean kvs ''strict'';
     description \<leftarrow> optional read_string kvs ''description'';
     Some \<lparr>js_name = name, js_json_schema_def = definition, js_strict = strict, js_description = description\<rparr> }"
| "read_schema_spec v = None"

fun read_response_format :: "json \<Rightarrow> ResponseFormat option" where
  "read_response_format (JObj kvs) =
     (case map_of kvs ''type'' of
        None \<Rightarrow> Some TextFormat
      | Some (JStr t) \<Rightarrow>
          if t = ''json_object'' then Some JsonObjectFormat
          else if t = ''json_schema'' then map_option JsonSchemaFormat (required read_schema_spec kvs ''json_schema'')
          else if t = ''text'' then Some TextFormat else None
      | Some _ \<Rightarrow> None)"
| "read_response_format v = None"

definition validated :: "('a \<Rightarrow> bool) \<Rightarrow> 'a \<Rightarrow> 'a option" where
  "validated valid r = (if valid r then Some r else None)"

fun read_chat_request :: "json \<Rightarrow> ChatCompletionRequest option" where
  "read_chat_request (JObj kvs) = do {
     model \<leftarrow> required read_string kvs ''model'';
     messages \<leftarrow> required (read_list read_message) kvs ''messages'';
     temperature \<leftarrow> with_default (Fin (1/10)) read_float kvs ''temperature'';
     top_p \<leftarrow> with_default (Fin 1) read_float kvs ''top_p'';
     max_tokens \<leftarrow> optional read_integer kvs ''max_tokens'';
     stop \<leftarrow> optional read_one_or_many kvs ''stop'';
     seed \<leftarrow> optional read_integer kvs ''seed'';
     n \<leftarrow> with_default 1 read_integer kvs ''n'';
     response_format \<leftarrow> optional read_response_format kvs ''response_format'';
     validated valid_chat_request \<lparr>cr_model = model, cr_messages = messages, cr_temperature = temperature,
       cr_top_p = top_p, cr_max_tokens = max_tokens, cr_stop = stop, cr_seed = seed, cr_n = n,
       cr_response_format = response_format\<rparr> }"
| "read_chat_request v = None"

fun read_completion_request :: "json \<Rightarrow> CompletionRequest option" where
  "read_completion_request (JObj kvs) = do {
     model \<leftarrow> required read_string kvs ''model'';
     prompt \<leftarrow> required read_one_or_many kvs ''prompt'';
     temperature \<leftarrow> with_default (Fin (1/10)) read_float kvs ''temperature'';
     top_p \<leftarrow> with_default (Fin 1) read_float kvs ''top_p'';
     max_tokens \<leftarrow> optional read_integer kvs ''max_tokens'';
     stop \<leftarrow> optional read_one_or_many kvs ''stop'';
     seed \<leftarrow> optional read_integer kvs ''seed'';
     n \<leftarrow> with_default 1 read_integer kvs ''n'';
     validated valid_completion_request \<lparr>lr_model = model, lr_prompt = prompt, lr_temperature = temperature,
       lr_top_p = top_p, lr_max_tokens = max_tokens, lr_stop = stop, lr_seed = seed, lr_n = n\<rparr> }"
| "read_completion_request v = None"

fun read_embedding_request :: "json \<Rightarrow> EmbeddingRequest option" where
  "read_embedding_request (JObj kvs) = do {
     model \<leftarrow> required read_string kvs ''model'';
     input \<leftarrow> required read_one_or_many kvs ''input'';
     dimensions \<leftarrow> optional read_integer kvs ''dimensions'';
     validated valid_embedding_request \<lparr>er_model = model, er_input = input, er_dimensions = dimensions\<rparr> }"
| "read_embedding_request v = None"

fun read_rerank_request :: "json \<Rightarrow> RerankRequest option" where
  "read_rerank_request (JObj kvs) = do {
     model \<leftarrow> required read_string kvs ''model'';
     query \<leftarrow> required read_string kvs ''query'';
     documents \<leftarrow> required (read_list read_string) kvs ''documents'';
     top_n \<leftarrow> optional read_integer kvs ''top_n'';
     return_documents \<leftarrow> with_default False read_boolean kvs ''return_documents'';
     validated valid_rerank_request \<lparr>rr_model = model, rr_query = query, rr_documents = documents,
       rr_top_n = top_n, rr_return_documents = return_documents\<rparr> }"
| "read_rerank_request v = None"

lemmas reading = required_def with_default_def optional_def

lemma those_list_map [simp]: "(\<And>x. f (g x) = Some (h x)) \<Longrightarrow> those_list f (map g xs) = Some (map h xs)"
  by (induction xs) auto

lemma those_strings [simp]: "those_list read_string (map JStr xs) = Some xs"
  using those_list_map [of read_string JStr "\<lambda>x. x"] by simp

lemma read_dump_message [simp]: "read_message (dump_message m) = Some m"
  by (cases "cm_role m"; cases "cm_name m") (simp_all add: dump_message_def reading)

lemma read_dump_messages [simp]: "those_list read_message (map dump_message ms) = Some ms"
  using those_list_map [of read_message dump_message "\<lambda>m. m"] by simp

lemma read_dump_one_or_many [simp]: "read_one_or_many (dump_one_or_many v) = Some v" "dump_one_or_many v \<noteq> JNull"
  by (cases v; simp add: dump_one_or_many_def)+

lemma read_dump_spec [simp]: "read_schema_spec (dump_schema_spec spec) = Some spec"
  by (cases "js_description spec") (simp_all add: dump_schema_spec_def reading)

lemma read_dump_format [simp]: "read_response_format (dump_response_format f) = Some f" "dump_response_format f \<noteq> JNull"
  by (cases f; simp add: dump_response_format_def reading)+

lemma read_dump_chat:
  "read_chat_request (JObj (dump_chat_request r)) = (if valid_chat_request r then Some r else None)"
proof (cases r)
  case (fields model messages temperature top_p max_tokens stop seed n fmt)
  then show ?thesis
    by (cases max_tokens; cases stop; cases seed; cases fmt) (simp_all add: dump_chat_request_def reading validated_def)
qed

lemma read_dump_completion:
  "read_completion_request (JObj (dump_completion_request r)) = (if valid_completion_request r then Some r else None)"
proof (cases r)
  case (fields model prompt temperature top_p max_tokens stop seed n)
  then show ?thesis
    by (cases max_tokens; cases stop; cases seed) (simp_all add: dump_completion_request_def reading validated_def)
qed

text \<open>
  Reading inverts dumping, for chat and completion requests with every combination of absent fields: what a
  gateway forwards is read by another one as the very same request (under its name of the model), and a value
  that violates a constraint is read by none.
\<close>

theorem requests_roundtrip:
  "read_chat_request (JObj (dump_chat_request r)) = (if valid_chat_request r then Some r else None) \<and>
   read_completion_request (JObj (dump_completion_request c)) = (if valid_completion_request c then Some c else None)"
  by (rule conjI [OF read_dump_chat read_dump_completion])

subsection \<open>From the client SDK to the gateway\<close>

text \<open>
  C19. What the SDK sends is what the gateway reads: the payloads of a chat, an embeddings and a rerank call
  arrive as the requests with exactly the caller's arguments and the gateway's defaults for the rest, provided
  they satisfy its constraints, and are rejected as invalid otherwise; each payload is the only thing the call posts.
\<close>

theorem sdk_requests_arrive:
  assumes "ca_extra a = []" and "map JObj (ca_messages a) = map dump_message ms"
    and "map_option JObj (ca_response_format a) = map_option dump_response_format fmt"
  shows "(let r = \<lparr>cr_model = ca_model a, cr_messages = ms, cr_temperature = ca_temperature a, cr_top_p = Fin 1,
            cr_max_tokens = ca_max_tokens a, cr_stop = None, cr_seed = None, cr_n = 1, cr_response_format = fmt\<rparr>
      in \<exists>payload. read_chat_request (JObj payload) = validated valid_chat_request r \<and>
        (\<forall>http cd p w. basic_infra_chat http cd p a w = then_parse (\<lambda>x. rbind x (\<lambda>v. py_result (cd_validate_chat cd v)))
          (platform_post http cd p ''/chat/completions'' payload w))) \<and>
    (let r = \<lparr>er_model = model, er_input = Many inputs, er_dimensions = None\<rparr>
      in \<exists>payload. read_embedding_request (JObj payload) = validated valid_embedding_request r \<and>
        (\<forall>http cd p w. basic_infra_embeddings http cd p model inputs w = then_parse (\<lambda>x. rbind x (\<lambda>v. py_result (parse_embeddings cd model v)))
          (platform_post http cd p ''/embeddings'' payload w))) \<and>
    (let r = \<lparr>rr_model = ra_model ra, rr_query = ra_query ra, rr_documents = ra_documents ra, rr_top_n = ra_top_n ra,
            rr_return_documents = ra_return_documents ra\<rparr>
      in \<exists>payload. read_rerank_request (JObj payload) = validated valid_rerank_request r \<and>
        (\<forall>http cd p w. basic_infra_rerank http cd p ra w = then_parse (\<lambda>x. rbind x (\<lambda>v. py_result (parse_rerank cd (ra_model ra) v)))
          (platform_post http cd p ''/rerank'' payload w)))"
proof -
  have fmt: "map_option read_response_format (map_option JObj (ca_response_format a)) = map_option Some fmt"
    unfolding assms(3) by (cases fmt) simp_all
  have "read_chat_request (JObj (openai_kwargs a)) = validated valid_chat_request
     \<lparr>cr_model = ca_model a, cr_messages = ms, cr_temperature = ca_temperature a, cr_top_p = Fin 1,
      cr_max_tokens = ca_max_tokens a, cr_stop = None, cr_seed = None, cr_n = 1, cr_response_format = fmt\<rparr>"
    using assms(1,2) fmt
    by (cases "ca_max_tokens a"; cases "ca_response_format a"; cases fmt) (simp_all add: openai_kwargs_def reading)
  moreover have "read_rerank_request (JObj ([(''model'', JStr (ra_model ra)), (''query'', JStr (ra_query ra)),
      (''documents'', JList (map JStr (ra_documents ra))), (''return_documents'', JBool (ra_return_documents ra))]
        @ opt_field ''top_n'' JInt (ra_top_n ra))) = validated valid_rerank_request
     \<lparr>rr_model = ra_model ra, rr_query = ra_query ra, rr_documents = ra_documents ra, rr_top_n = ra_top_n ra,
      rr_return_documents = ra_return_documents ra\<rparr>"
    by (cases "ra_top_n ra") (simp_all add: reading)
  moreover have "read_embedding_request (JObj [(''model'', JStr model), (''input'', JList (map JStr inputs))]) =
      validated valid_embedding_request \<lparr>er_model = model, er_input = Many inputs, er_dimensions = None\<rparr>"
    by (simp add: reading)
  ultimately show ?thesis
    unfolding Let_def basic_infra_chat_def basic_infra_embeddings_def basic_infra_rerank_def by blast
qed

subsection \<open>Witnesses\<close>

definition sample_completion_request :: CompletionRequest where
  "sample_completion_request = \<lparr>lr_model = ''t-pro'', lr_prompt = One ''hi'', lr_temperature = Fin 1, lr_top_p = Fin 1,
     lr_max_tokens = Some 5, lr_stop = Some (Many [''.'']), lr_seed = None, lr_n = 1\<rparr>"


lemma responses_conform_witness:
  "conforms rerank_response_schema (dump_rerank_response \<lparr>rp_id = ''rerank_t'', rp_model = ''bge'',
     rp_results = [\<lparr>rs_index = 1, rs_relevance_score = Fin 1, rs_document = None\<rparr>]\<rparr>)"
  using responses_conform [OF sample_rerank_runs] by blast

definition sample_sdk_args :: chat_args where
  "sample_sdk_args = \<lparr>ca_model = ''t-pro'', ca_messages = [sample_message ''user'' ''hi''], ca_response_format = None,
     ca_temperature = Fin 1, ca_max_tokens = Some 5, ca_extra = []\<rparr>"

lemma sdk_requests_arrive_witness:
  "\<exists>payload r. read_chat_request (JObj payload) = Some r \<and> cr_max_tokens r = Some 5 \<and> cr_top_p r = Fin 1"
proof -
  let ?ms = "[\<lparr>cm_role = User, cm_content = ''hi'', cm_name = None\<rparr>]"
  have args: "ca_extra sample_sdk_args = []" "map JObj (ca_messages sample_sdk_args) = map dump_message ?ms"
    "map_option JObj (ca_response_format sample_sdk_args) = map_option dump_response_format None"
    by (simp_all add: sample_sdk_args_def sample_message_def dump_message_def)
  show ?thesis
    using conjunct1 [OF sdk_requests_arrive [OF args]]
    by (force simp: Let_def validated_def sample_sdk_args_def valid_chat_request_def fl_between_def at_least_1_def)
qed

end
