(* ===== verification/Blob_Port.thy ===== *)
theory Blob_Port
  imports Prelude
begin

text \<open>
  The blob store port (\<open>storage/ports/\<close>): the values the adapters exchange with their callers,
  the errors, and the contract of \<open>BlobStorePort\<close> as a locale, with what every client may rely on.
  Bytes are lists of characters.
\<close>

type_synonym bytes = "char list"

datatype blob_exn =
    BlobStoreError string
  | BlobNotFound string string
  | BlobAlreadyExists string string
  | TenantIsolationError string
  | BlobStoreUnavailable string
  | BlobStoreConfigError string
  | StorePy exn

text \<open>\<open>isinstance(e, BlobStoreError)\<close>: every class of the hierarchy, but no other exception.\<close>

fun is_blob_store_error :: "blob_exn \<Rightarrow> bool" where
  "is_blob_store_error (StorePy e) = False"
| "is_blob_store_error _ = True"

record BlobRef =
  br_tenant_id :: string
  br_key :: string
  br_etag :: string
  br_size :: int
  br_content_type :: "string option"

record BlobMetadata =
  bmd_tenant_id :: string
  bmd_key :: string
  bmd_size :: int
  bmd_etag :: string
  bmd_last_modified :: int
  bmd_content_type :: "string option"
  bmd_user_metadata :: "(string, string) pydict"

text \<open>
  A blob that was read: its description, and the chunks that reading its stream to the end at
  that moment yields, or the exception it raises.
\<close>

record BlobData =
  bl_tenant_id :: string
  bl_key :: string
  bl_size :: int
  bl_content_type :: "string option"
  bl_etag :: string
  bl_stream :: "exn + bytes list"

definition blob_bytes :: "BlobData \<Rightarrow> exn + bytes" where
  "blob_bytes d = rmap concat (bl_stream d)"

text \<open>What \<open>put\<close> is given: bytes, or an iterator that yields chunks and may then raise.\<close>

datatype payload = Bytes bytes | Chunks "bytes list" "exn option"

text \<open>Reading in chunks of at most \<open>n\<close> bytes until the source is empty.\<close>

function read_chunks :: "nat \<Rightarrow> bytes \<Rightarrow> bytes list" where
  "read_chunks n b = (if b = [] \<or> n = 0 then [] else take n b # read_chunks n (drop n b))"
  by pat_completeness auto
termination by (relation "measure (\<lambda>(n, b). length b)") auto

declare read_chunks.simps [simp del]

lemma concat_read_chunks: "0 < n \<Longrightarrow> concat (read_chunks n b) = b"
proof (induction n b rule: read_chunks.induct)
  case (1 n b)
  then show ?case by (subst read_chunks.simps) simp
qed

lemma read_chunks_bounds: "c \<in> set (read_chunks n b) \<Longrightarrow> c \<noteq> [] \<and> length c \<le> n"
proof (induction n b rule: read_chunks.induct)
  case (1 n b)
  then show ?case by (subst (asm) (2) read_chunks.simps) (auto split: if_splits)
qed

subsection \<open>The contract\<close>

text \<open>
  A store over states \<open>'s\<close>. \<open>content\<close> is what it holds, by tenant and key, on the addresses
  \<open>addr\<close> the contract speaks about. A failed write changes nothing that can be read.
\<close>

locale blob_store =
  fixes inv :: "'s \<Rightarrow> bool"
    and addr :: "string \<Rightarrow> string \<Rightarrow> bool"
    and content :: "'s \<Rightarrow> string \<Rightarrow> string \<Rightarrow> bytes option"
    and put :: "'s \<Rightarrow> string \<Rightarrow> string \<Rightarrow> bytes \<Rightarrow> string option \<Rightarrow> bool \<Rightarrow> 's \<times> (blob_exn + BlobRef)"
    and get :: "'s \<Rightarrow> string \<Rightarrow> string \<Rightarrow> blob_exn + BlobData"
    and delete :: "'s \<Rightarrow> string \<Rightarrow> string \<Rightarrow> 's \<times> (blob_exn + unit)"
  assumes put_inv: "inv s \<Longrightarrow> addr t k \<Longrightarrow> put s t k b ct ifn = (s', res) \<Longrightarrow> inv s'"
    and put_content: "inv s \<Longrightarrow> addr t k \<Longrightarrow> put s t k b ct ifn = (s', res) \<Longrightarrow> addr t' k' \<Longrightarrow>
      content s' t' k' = (if is_ok res \<and> t' = t \<and> k' = k then Some b else content s t' k')"
    and put_exclusive: "inv s \<Longrightarrow> addr t k \<Longrightarrow> content s t k \<noteq> None \<Longrightarrow>
      put s t k b ct True = (s', res) \<Longrightarrow> res = Inl (BlobAlreadyExists t k)"
    and delete_inv: "inv s \<Longrightarrow> addr t k \<Longrightarrow> delete s t k = (s', del) \<Longrightarrow> inv s'"
    and delete_content: "inv s \<Longrightarrow> addr t k \<Longrightarrow> delete s t k = (s', del) \<Longrightarrow> addr t' k' \<Longrightarrow>
      content s' t' k' = (if is_ok del \<and> t' = t \<and> k' = k then None else content s t' k')"
    and get_present: "inv s \<Longrightarrow> addr t k \<Longrightarrow> get s t k = Inr d \<Longrightarrow> blob_bytes d = Inr b \<Longrightarrow>
      content s t k = Some b"

text \<open>Operations of clients of several tenants on one store.\<close>

datatype store_op = PutOp string string bytes "string option" bool | DeleteOp string string

fun op_tenant :: "store_op \<Rightarrow> string" where
  "op_tenant (PutOp t k b ct ifn) = t"
| "op_tenant (DeleteOp t k) = t"

fun op_key :: "store_op \<Rightarrow> string" where
  "op_key (PutOp t k b ct ifn) = k"
| "op_key (DeleteOp t k) = k"

fun run_op ::
  "('s \<Rightarrow> string \<Rightarrow> string \<Rightarrow> bytes \<Rightarrow> string option \<Rightarrow> bool \<Rightarrow> 's \<times> (blob_exn + BlobRef))
    \<Rightarrow> ('s \<Rightarrow> string \<Rightarrow> string \<Rightarrow> 's \<times> (blob_exn + unit)) \<Rightarrow> 's \<Rightarrow> store_op \<Rightarrow> 's \<times> bool"
where
  "run_op put delete s (PutOp t k b ct ifn) = (case put s t k b ct ifn of (s', res) \<Rightarrow> (s', is_ok res))"
| "run_op put delete s (DeleteOp t k) = (case delete s t k of (s', res) \<Rightarrow> (s', is_ok res))"

fun run_ops ::
  "('s \<Rightarrow> string \<Rightarrow> string \<Rightarrow> bytes \<Rightarrow> string option \<Rightarrow> bool \<Rightarrow> 's \<times> (blob_exn + BlobRef))
    \<Rightarrow> ('s \<Rightarrow> string \<Rightarrow> string \<Rightarrow> 's \<times> (blob_exn + unit)) \<Rightarrow> 's \<Rightarrow> store_op list \<Rightarrow> 's \<times> bool list"
where
  "run_ops put delete s [] = (s, [])"
| "run_ops put delete s (x # xs) =
     (let (s', ok) = run_op put delete s x; (s'', oks) = run_ops put delete s' xs in (s'', ok # oks))"

text \<open>What a history of operations and their successes says one address holds.\<close>

fun op_effect :: "store_op \<Rightarrow> bool \<Rightarrow> string \<Rightarrow> string \<Rightarrow> bytes option \<Rightarrow> bytes option" where
  "op_effect (PutOp t k b ct ifn) ok t' k' c = (if ok \<and> t' = t \<and> k' = k then Some b else c)"
| "op_effect (DeleteOp t k) ok t' k' c = (if ok \<and> t' = t \<and> k' = k then None else c)"

fun history_content :: "store_op list \<Rightarrow> bool list \<Rightarrow> string \<Rightarrow> string \<Rightarrow> bytes option \<Rightarrow> bytes option" where
  "history_content (x # xs) (ok # oks) t k c = history_content xs oks t k (op_effect x ok t k c)"
| "history_content _ _ t k c = c"

context blob_store
begin

lemma run_op_content:
  assumes "inv s" "addr (op_tenant x) (op_key x)" "run_op put delete s x = (s', ok)"
  shows "inv s' \<and> (\<forall>t k. addr t k \<longrightarrow> content s' t k = op_effect x ok t k (content s t k))"
proof (cases x)
  case (PutOp t k b ct ifn)
  then obtain res where r: "put s t k b ct ifn = (s', res)" "ok = is_ok res"
    using assms(3) by (auto split: prod.splits)
  with PutOp assms(1,2) show ?thesis
    using put_inv [OF _ _ r(1)] put_content [OF _ _ r(1)] by simp
next
  case (DeleteOp t k)
  then obtain res where r: "delete s t k = (s', res)" "ok = is_ok res"
    using assms(3) by (auto split: prod.splits)
  with DeleteOp assms(1,2) show ?thesis
    using delete_inv [OF _ _ r(1)] delete_content [OF _ _ r(1)] by simp
qed

lemma run_ops_content:
  assumes "inv s" "\<forall>x \<in> set xs. addr (op_tenant x) (op_key x)" "run_ops put delete s xs = (s', oks)"
  shows "inv s' \<and> (\<forall>t k. addr t k \<longrightarrow> content s' t k = history_content xs oks t k (content s t k))"
  using assms
proof (induction xs arbitrary: s oks)
  case (Cons x xs)
  obtain s1 ok where one: "run_op put delete s x = (s1, ok)"
    by (cases "run_op put delete s x")
  then obtain oks' where rest: "run_ops put delete s1 xs = (s', oks')" and oks: "oks = ok # oks'"
    using Cons.prems(3) by (auto split: prod.splits)
  have "inv s1 \<and> (\<forall>t k. addr t k \<longrightarrow> content s1 t k = op_effect x ok t k (content s t k))"
    using Cons.prems(1,2) one by (intro run_op_content) auto
  with Cons.IH [OF _ _ rest] Cons.prems(2) show ?case by (simp add: oks)
qed simp

text \<open>A tenant reads what its own last successful operation on the key left, and nothing else.\<close>

lemma read_own_writes:
  assumes "inv s" "\<forall>x \<in> set xs. addr (op_tenant x) (op_key x)" "run_ops put delete s xs = (s', oks)"
    and "addr t k" "get s' t k = Inr d" "blob_bytes d = Inr b"
  shows "history_content xs oks t k (content s t k) = Some b"
  using run_ops_content [OF assms(1-3)] get_present [OF _ assms(4-6)] assms(4) by simp

lemma other_tenants_invisible:
  assumes "\<forall>x \<in> set xs. op_tenant x \<noteq> t"
  shows "history_content xs oks t k c = c"
  using assms
proof (induction xs oks t k c rule: history_content.induct)
  case (1 x xs ok oks t k c)
  then have "op_effect x ok t k c = c" by (cases x) auto
  with 1 show ?case by simp
qed auto

lemma tenant_isolation:
  assumes "inv s" "\<forall>x \<in> set xs. addr (op_tenant x) (op_key x) \<and> op_tenant x \<noteq> t"
    and "run_ops put delete s xs = (s', oks)" "addr t k" "get s' t k = Inr d" "blob_bytes d = Inr b"
  shows "content s t k = Some b"
  using read_own_writes [OF assms(1) _ assms(3-6)] other_tenants_invisible [of xs t oks k "content s t k"] assms(2)
  by auto

end

end
