(* ===== verification/Filesystem_Store.thy ===== *)
theory Filesystem_Store
  imports Blob_Port "HOL-Library.Countable"
begin

text \<open>
  The filesystem adapter (\<open>storage/adapters/filesystem.py\<close>) over a model of a directory tree without
  symbolic links: a dictionary from absolute paths to directories and files. SHA-256 and the JSON
  codec are parameters; disk failures other than those of the tree itself are not modelled.
\<close>

subsection \<open>The directory tree\<close>

type_synonym path = "string list"

datatype node = Dir | File bytes int

type_synonym fs = "(path, node) pydict"

definition node_at :: "fs \<Rightarrow> path \<Rightarrow> node option" where
  "node_at fs p = (if p = [] then Some Dir else map_of fs p)"

definition path_exists :: "fs \<Rightarrow> path \<Rightarrow> bool" where
  "path_exists fs p \<longleftrightarrow> node_at fs p \<noteq> None"

definition os_error :: "string \<Rightarrow> blob_exn" where
  "os_error msg = StorePy (ExternalError msg)"

text \<open>\<open>os.makedirs(p, exist_ok=True)\<close>, from the first component on.\<close>

fun makedirs :: "fs \<Rightarrow> path \<Rightarrow> path \<Rightarrow> blob_exn + fs" where
  "makedirs fs done [] = Inr fs"
| "makedirs fs done (x # xs) =
     (case node_at fs (done @ [x]) of
        None \<Rightarrow> makedirs (AList.update (done @ [x]) Dir fs) (done @ [x]) xs
      | Some Dir \<Rightarrow> makedirs fs (done @ [x]) xs
      | Some (File b t) \<Rightarrow> Inl (os_error ''NotADirectoryError''))"

definition write_file :: "fs \<Rightarrow> path \<Rightarrow> bytes \<Rightarrow> int \<Rightarrow> blob_exn + fs" where
  "write_file fs p b now =
     (case node_at fs p of
        Some Dir \<Rightarrow> Inl (os_error ''IsADirectoryError'')
      | _ \<Rightarrow> Inr (AList.update p (File b now) fs))"

definition os_replace :: "fs \<Rightarrow> path \<Rightarrow> path \<Rightarrow> blob_exn + fs" where
  "os_replace fs src dst =
     (case node_at fs dst of
        Some Dir \<Rightarrow> Inl (os_error ''IsADirectoryError'')
      | _ \<Rightarrow>
          (case node_at fs src of
             Some (File b t) \<Rightarrow> Inr (AList.update dst (File b t) (AList.delete src fs))
           | _ \<Rightarrow> Inl (os_error ''FileNotFoundError'')))"

definition os_remove :: "fs \<Rightarrow> path \<Rightarrow> blob_exn + fs" where
  "os_remove fs p =
     (case node_at fs p of
        Some (File b t) \<Rightarrow> Inr (AList.delete p fs)
      | Some Dir \<Rightarrow> Inl (os_error ''IsADirectoryError'')
      | None \<Rightarrow> Inl (os_error ''FileNotFoundError''))"

text \<open>\<open>..\<close> as the operating system follows it.\<close>

fun os_norm :: "path \<Rightarrow> path \<Rightarrow> path" where
  "os_norm acc [] = acc"
| "os_norm acc (x # xs) = os_norm (if x = ''..'' then butlast acc else acc @ [x]) xs"

text \<open>\<open>PurePosixPath(s)\<close>: its parts without the empty ones and the dots, and \<open>is_absolute\<close>.\<close>

definition pure_parts :: "string \<Rightarrow> path" where
  "pure_parts s = filter (\<lambda>c. c \<noteq> [] \<and> c \<noteq> ''.'') (py_split CHR ''/'' s)"

definition is_absolute :: "string \<Rightarrow> bool" where
  "is_absolute s \<longleftrightarrow> starts_with s ''/''"

definition with_suffix :: "path \<Rightarrow> string \<Rightarrow> path" where
  "with_suffix p ext = butlast p @ [last p @ ext]"

subsection \<open>The adapter\<close>

record fs_adapter =
  fa_root :: path

record codec =
  cd_sha256 :: "bytes \<Rightarrow> string"
  cd_dumps :: "json \<Rightarrow> bytes"
  cd_loads :: "bytes \<Rightarrow> exn + json"

definition meta_suffix :: string where
  "meta_suffix = ''.meta.json''"

definition filesystem_adapter :: "fs \<Rightarrow> path \<Rightarrow> blob_exn + fs_adapter" where
  "filesystem_adapter fs filesystem_root =
     (case node_at fs (os_norm [] filesystem_root) of
        None \<Rightarrow> Inl (BlobStoreConfigError ''Filesystem root does not exist'')
      | Some (File b t) \<Rightarrow> Inl (BlobStoreConfigError ''Filesystem root is not a directory'')
      | Some Dir \<Rightarrow> Inr \<lparr>fa_root = os_norm [] filesystem_root\<rparr>)"

definition fs_resolve :: "fs_adapter \<Rightarrow> string \<Rightarrow> string \<Rightarrow> blob_exn + path" where
  "fs_resolve a tenant_id key =
     (if tenant_id = [] \<or> CHR ''/'' \<in> set tenant_id \<or> tenant_id \<in> {''.'', ''..''}
      then Inl (TenantIsolationError (''Invalid tenant_id: '' @ tenant_id))
      else if is_absolute key \<or> ''..'' \<in> set (pure_parts key)
      then Inl (TenantIsolationError (''Invalid key (absolute or contains ..): '' @ key))
      else let candidate = os_norm [] (fa_root a @ [tenant_id] @ pure_parts key)
           in if take (length (fa_root a)) candidate \<noteq> fa_root a
              then Inl (TenantIsolationError ''Resolved path escapes filesystem root'')
              else Inr candidate)"

definition meta_path :: "path \<Rightarrow> path" where
  "meta_path blob_path = with_suffix blob_path meta_suffix"

definition compute_etag :: "codec \<Rightarrow> bytes \<Rightarrow> string" where
  "compute_etag cd b = cd_sha256 cd b"

definition meta_payload :: "string option \<Rightarrow> (string, string) pydict \<Rightarrow> string \<Rightarrow> int \<Rightarrow> json" where
  "meta_payload content_type metadata etag sz =
     JObj [(''content_type'', case content_type of None \<Rightarrow> JNull | Some c \<Rightarrow> JStr c),
           (''user_metadata'', JObj (map (\<lambda>(k, v). (k, JStr v)) metadata)),
           (''etag'', JStr etag), (''size'', JInt sz)]"

text \<open>The \<open>try\<close> block of \<open>put\<close>: the temporary file, then the atomic move, with the cleanup.\<close>

definition cleanup :: "fs \<Rightarrow> path \<Rightarrow> blob_exn \<Rightarrow> fs \<times> (blob_exn + 'a)" where
  "cleanup fs tmp exc =
     (if path_exists fs tmp
      then (case os_remove fs tmp of Inl e \<Rightarrow> (fs, Inl e) | Inr fs' \<Rightarrow> (fs', Inl exc))
      else (fs, Inl exc))"

definition payload_parts :: "payload \<Rightarrow> bytes \<times> exn option" where
  "payload_parts data = (case data of Bytes b \<Rightarrow> (b, None) | Chunks cs e \<Rightarrow> (concat cs, e))"

definition write_blob :: "int \<Rightarrow> fs \<Rightarrow> path \<Rightarrow> payload \<Rightarrow> fs \<times> (blob_exn + bytes)" where
  "write_blob now fs path data =
     (let tmp = with_suffix path ''.tmp'';
          (written, raised) = payload_parts data
      in case write_file fs tmp written now of
           Inl e \<Rightarrow> cleanup fs tmp e
         | Inr fs1 \<Rightarrow>
             (case raised of
                Some e \<Rightarrow> cleanup fs1 tmp (StorePy e)
              | None \<Rightarrow>
                  (case os_replace fs1 tmp path of
                     Inl e \<Rightarrow> cleanup fs1 tmp e
                   | Inr fs2 \<Rightarrow> (fs2, Inr written))))"

definition fs_put ::
  "codec \<Rightarrow> fs_adapter \<Rightarrow> int \<Rightarrow> fs \<Rightarrow> string \<Rightarrow> string \<Rightarrow> payload \<Rightarrow> string option
    \<Rightarrow> (string, string) pydict option \<Rightarrow> bool \<Rightarrow> fs \<times> (blob_exn + BlobRef)"
where
  "fs_put cd a now fs tenant_id key data content_type metadata if_none_match =
     (case fs_resolve a tenant_id key of
        Inl e \<Rightarrow> (fs, Inl e)
      | Inr path \<Rightarrow>
          if if_none_match \<and> path_exists fs path then (fs, Inl (BlobAlreadyExists tenant_id key))
          else (case makedirs fs [] (butlast path) of
             Inl e \<Rightarrow> (fs, Inl e)
           | Inr fs1 \<Rightarrow>
               (case write_blob now fs1 path data of
                  (fs2, Inl e) \<Rightarrow> (fs2, Inl e)
                | (fs2, Inr written) \<Rightarrow>
                    (let etag = cd_sha256 cd written;
                         size = int (length written);
                         text = cd_dumps cd (meta_payload content_type
                           (case metadata of None \<Rightarrow> [] | Some m \<Rightarrow> m) etag size)
                     in case write_file fs2 (meta_path path) text now of
                          Inl e \<Rightarrow> (fs2, Inl e)
                        | Inr fs3 \<Rightarrow>
                            (fs3, Inr \<lparr>br_tenant_id = tenant_id, br_key = key, br_etag = etag,
                                      br_size = size, br_content_type = content_type\<rparr>)))))"

text \<open>Reading back a metadata payload; an ill-typed one is a \<open>TypeError\<close> here.\<close>

definition ill_typed :: blob_exn where
  "ill_typed = StorePy (TypeError ''metadata'')"

fun json_text_opt :: "json option \<Rightarrow> blob_exn + string option" where
  "json_text_opt None = Inr None"
| "json_text_opt (Some JNull) = Inr None"
| "json_text_opt (Some (JStr s)) = Inr (Some s)"
| "json_text_opt (Some _) = Inl ill_typed"

fun json_text_dict :: "json option \<Rightarrow> blob_exn + (string, string) pydict" where
  "json_text_dict None = Inr []"
| "json_text_dict (Some (JObj d)) =
     rmap_list (\<lambda>(k, v). case v of JStr s \<Rightarrow> Inr (k, s) | _ \<Rightarrow> Inl ill_typed) d"
| "json_text_dict (Some _) = Inl ill_typed"

definition read_payload :: "string \<Rightarrow> string \<Rightarrow> int \<Rightarrow> json \<Rightarrow> blob_exn + BlobMetadata" where
  "read_payload tenant_id key mtime v =
     (case v of
        JObj d \<Rightarrow>
          rbind (case map_of d ''size'' of None \<Rightarrow> Inl (StorePy (KeyError ''size''))
                 | Some (JInt n) \<Rightarrow> Inr n | Some _ \<Rightarrow> Inl ill_typed) (\<lambda>size.
          rbind (case map_of d ''etag'' of None \<Rightarrow> Inl (StorePy (KeyError ''etag''))
                 | Some (JStr e) \<Rightarrow> Inr e | Some _ \<Rightarrow> Inl ill_typed) (\<lambda>etag.
          rbind (json_text_opt (map_of d ''content_type'')) (\<lambda>ct.
          rmap (\<lambda>um. \<lparr>bmd_tenant_id = tenant_id, bmd_key = key, bmd_size = size, bmd_etag = etag,
                 bmd_last_modified = mtime, bmd_content_type = ct, bmd_user_metadata = um\<rparr>)
            (json_text_dict (map_of d ''user_metadata'')))))
      | _ \<Rightarrow> Inl ill_typed)"

text \<open>Directories have a size and a modification time too, which play no role here.\<close>

definition load_meta :: "codec \<Rightarrow> fs \<Rightarrow> path \<Rightarrow> string \<Rightarrow> string \<Rightarrow> blob_exn + BlobMetadata" where
  "load_meta cd fs path tenant_id key =
     (let mtime = (case node_at fs path of Some (File b t) \<Rightarrow> t | _ \<Rightarrow> 0)
      in case node_at fs (meta_path path) of
           Some (File text t) \<Rightarrow>
             (case cd_loads cd text of
                Inl e \<Rightarrow> Inl (StorePy e)
              | Inr v \<Rightarrow> read_payload tenant_id key mtime v)
         | Some Dir \<Rightarrow> Inl (os_error ''IsADirectoryError'')
         | None \<Rightarrow>
             (case node_at fs path of
                Some (File b t) \<Rightarrow>
                  Inr \<lparr>bmd_tenant_id = tenant_id, bmd_key = key, bmd_size = int (length b),
                       bmd_etag = compute_etag cd b, bmd_last_modified = t,
                       bmd_content_type = None, bmd_user_metadata = []\<rparr>
              | _ \<Rightarrow> Inl (os_error ''IsADirectoryError'')))"

definition fs_stream :: "fs \<Rightarrow> path \<Rightarrow> exn + bytes list" where
  "fs_stream fs path =
     (case node_at fs path of
        Some (File b t) \<Rightarrow> Inr (read_chunks (1024 * 1024) b)
      | Some Dir \<Rightarrow> Inl (ExternalError ''IsADirectoryError'')
      | None \<Rightarrow> Inl (ExternalError ''FileNotFoundError''))"

definition fs_get :: "codec \<Rightarrow> fs_adapter \<Rightarrow> fs \<Rightarrow> string \<Rightarrow> string \<Rightarrow> blob_exn + BlobData" where
  "fs_get cd a fs tenant_id key =
     rbind (fs_resolve a tenant_id key) (\<lambda>path.
       if \<not> path_exists fs path then Inl (BlobNotFound tenant_id key)
       else rmap (\<lambda>meta. \<lparr>bl_tenant_id = tenant_id, bl_key = key, bl_size = bmd_size meta,
               bl_content_type = bmd_content_type meta, bl_etag = bmd_etag meta,
               bl_stream = fs_stream fs path\<rparr>)
         (load_meta cd fs path tenant_id key))"

definition fs_delete :: "fs_adapter \<Rightarrow> fs \<Rightarrow> string \<Rightarrow> string \<Rightarrow> fs \<times> (blob_exn + unit)" where
  "fs_delete a fs tenant_id key =
     (case fs_resolve a tenant_id key of
        Inl e \<Rightarrow> (fs, Inl e)
      | Inr path \<Rightarrow>
          (case (if path_exists fs path then os_remove fs path else Inr fs) of
             Inl e \<Rightarrow> (fs, Inl e)
           | Inr fs1 \<Rightarrow>
               if path_exists fs1 (meta_path path)
               then (case os_remove fs1 (meta_path path) of Inl e \<Rightarrow> (fs1, Inl e) | Inr fs2 \<Rightarrow> (fs2, Inr ()))
               else (fs1, Inr ())))"

definition fs_head :: "codec \<Rightarrow> fs_adapter \<Rightarrow> fs \<Rightarrow> string \<Rightarrow> string \<Rightarrow> blob_exn + BlobMetadata option" where
  "fs_head cd a fs tenant_id key =
     rbind (fs_resolve a tenant_id key) (\<lambda>path.
       if \<not> path_exists fs path then Inr None
       else rmap Some (load_meta cd fs path tenant_id key))"

text \<open>
  \<open>list\<close>: the files below the tenant's directory, in the order in which the walk meets them.
  The tenant id is joined to the root as it is.
\<close>

definition tenant_dir :: "fs_adapter \<Rightarrow> string \<Rightarrow> path" where
  "tenant_dir a tenant_id =
     os_norm [] ((if is_absolute tenant_id then [] else fa_root a) @ pure_parts tenant_id)"

definition walk :: "fs \<Rightarrow> path \<Rightarrow> path list" where
  "walk fs dir = map fst (filter (\<lambda>(p, n). strict_prefix dir p \<and> n \<noteq> Dir) fs)"

fun list_files :: "codec \<Rightarrow> fs \<Rightarrow> path \<Rightarrow> string \<Rightarrow> string \<Rightarrow> path list \<Rightarrow> BlobRef list \<times> blob_exn option" where
  "list_files cd fs dir tenant_id pre [] = ([], None)"
| "list_files cd fs dir tenant_id pre (p # ps) =
     (if ends_with (last p) meta_suffix then list_files cd fs dir tenant_id pre ps
      else let rel_key = py_join ''/'' (drop (length dir) p)
           in if pre \<noteq> [] \<and> \<not> starts_with rel_key pre then list_files cd fs dir tenant_id pre ps
              else (case load_meta cd fs p tenant_id rel_key of
                 Inl e \<Rightarrow> ([], Some e)
               | Inr meta \<Rightarrow>
                   (case list_files cd fs dir tenant_id pre ps of
                      (refs, e) \<Rightarrow> (\<lparr>br_tenant_id = tenant_id, br_key = rel_key, br_etag = bmd_etag meta,
                         br_size = bmd_size meta, br_content_type = bmd_content_type meta\<rparr> # refs, e))))"

definition fs_list :: "codec \<Rightarrow> fs_adapter \<Rightarrow> fs \<Rightarrow> string \<Rightarrow> string \<Rightarrow> BlobRef list \<times> blob_exn option" where
  "fs_list cd a fs tenant_id pre =
     (let dir = tenant_dir a tenant_id
      in if \<not> path_exists fs dir then ([], None)
         else if pre \<noteq> [] \<and> (is_absolute pre \<or> ''..'' \<in> set (pure_parts pre))
         then ([], Some (TenantIsolationError (''Invalid prefix: '' @ pre)))
         else list_files cd fs dir tenant_id pre (walk fs dir))"

definition fs_presigned_url :: "string \<Rightarrow> string \<Rightarrow> string \<Rightarrow> int \<Rightarrow> string option \<Rightarrow> blob_exn + string" where
  "fs_presigned_url tenant_id key op_name ttl_seconds content_type =
     Inl (BlobStoreError ''FilesystemAdapter does not support presigned URLs. Switch to MinioAdapter or S3Adapter for this functionality.'')"

subsection \<open>Paths: facts\<close>

lemma os_norm_id: "''..'' \<notin> set xs \<Longrightarrow> os_norm acc xs = acc @ xs"
  by (induction xs arbitrary: acc) auto

lemma os_norm_clean: "''..'' \<notin> set acc \<Longrightarrow> ''..'' \<notin> set (os_norm acc xs)"
  by (induction xs arbitrary: acc) (auto dest: in_set_butlastD)

definition adapter_ok :: "fs_adapter \<Rightarrow> bool" where
  "adapter_ok a \<longleftrightarrow> ''..'' \<notin> set (fa_root a)"

lemma filesystem_adapter_ok: "filesystem_adapter fs r = Inr a \<Longrightarrow> adapter_ok a \<and> node_at fs (fa_root a) = Some Dir"
  by (auto simp: filesystem_adapter_def adapter_ok_def os_norm_clean split: option.splits node.splits)

lemma fs_resolve_Inr:
  assumes "adapter_ok a"
  shows "fs_resolve a t k = Inr p \<longleftrightarrow>
    t \<noteq> [] \<and> CHR ''/'' \<notin> set t \<and> t \<noteq> ''.'' \<and> t \<noteq> ''..'' \<and> \<not> is_absolute k \<and> ''..'' \<notin> set (pure_parts k) \<and>
    p = fa_root a @ t # pure_parts k"
proof -
  have "os_norm [] (fa_root a @ [t] @ pure_parts k) = fa_root a @ t # pure_parts k"
    if "t \<noteq> ''..''" "''..'' \<notin> set (pure_parts k)"
    using assms that by (subst os_norm_id) (auto simp: adapter_ok_def)
  then show ?thesis by (auto simp: fs_resolve_def Let_def)
qed

lemma fs_resolve_nonempty: "adapter_ok a \<Longrightarrow> fs_resolve a t k = Inr p \<Longrightarrow> p \<noteq> []"
  by (simp add: fs_resolve_Inr)

lemma with_suffix_simps:
  assumes "p \<noteq> []" "e \<noteq> []"
  shows "with_suffix p e \<noteq> p" "with_suffix p e \<noteq> []" "butlast (with_suffix p e) = butlast p"
    "last (with_suffix p e) = last p @ e"
proof -
  have "last (with_suffix p e) = last p @ e" by (simp add: with_suffix_def)
  with assms(2) show "with_suffix p e \<noteq> p" by (metis append_self_conv)
qed (simp_all add: with_suffix_def)

subsection \<open>The tree operations: facts\<close>

lemma node_at_map: "p \<noteq> [] \<Longrightarrow> node_at fs p = map_of fs p"
  by (simp add: node_at_def)

lemma strict_prefix_shorter: "strict_prefix (xs @ [x]) p \<Longrightarrow> strict_prefix xs p"
  by (auto simp: strict_prefix_def prefix_def)

lemma strict_prefix_next: "strict_prefix xs (xs @ [x])"
  by (simp add: strict_prefix_def)

lemma makedirs_facts:
  assumes "makedirs fs done xs = Inr fs'"
  shows "(map_of fs p \<noteq> None \<longrightarrow> map_of fs' p = map_of fs p) \<and>
    (map_of fs p = None \<longrightarrow> map_of fs' p = None \<or>
       map_of fs' p = Some Dir \<and> strict_prefix done p \<and> prefix p (done @ xs)) \<and>
    (wf_dict fs \<longrightarrow> wf_dict fs') \<and> (node_at fs done = Some Dir \<longrightarrow> node_at fs' (done @ xs) = Some Dir)"
  using assms
proof (induction fs "done" xs rule: makedirs.induct)
  case (2 fs "done" x xs)
  show ?case
  proof (cases "node_at fs (done @ [x])")
    case None
    let ?fs1 = "AList.update (done @ [x]) Dir fs"
    have at: "node_at ?fs1 (done @ [x]) = Some Dir"
      by (simp add: node_at_def dict_simps)
    show ?thesis
      using 2(1) [OF None] 2(3) None at strict_prefix_shorter [of "done" x p] strict_prefix_next [of "done" x]
      by (auto simp: dict_simps node_at_def split: if_splits)
  next
    case (Some n)
    show ?thesis
    proof (cases n)
      case Dir
      with strict_prefix_shorter [of "done" x p] 2(2) [OF Some Dir] 2(3) Some Dir show ?thesis by auto
    next
      case (File b t)
      with 2(3) Some show ?thesis by simp
    qed
  qed
qed auto

definition file_at :: "fs \<Rightarrow> path \<Rightarrow> (bytes \<times> int) option" where
  "file_at fs p = (case map_of fs p of Some (File b t) \<Rightarrow> Some (b, t) | _ \<Rightarrow> None)"

lemma makedirs_file_at: "makedirs fs done xs = Inr fs' \<Longrightarrow> file_at fs' p = file_at fs p"
  using makedirs_facts [of fs "done" xs fs' p] by (auto simp: file_at_def split: option.splits)

text \<open>The two ways \<open>write_blob\<close> ends: the blob replaced, or the tree as before, the temporary file aside.\<close>

lemma cleanup_frame:
  assumes "cleanup fs tmp e = (fs', res)"
  shows "(\<exists>x. res = Inl x) \<and> (\<forall>p. p \<noteq> tmp \<longrightarrow> map_of fs' p = map_of fs p) \<and> (wf_dict fs \<longrightarrow> wf_dict fs') \<and>
    (tmp \<noteq> [] \<longrightarrow> map_of fs' tmp = (if map_of fs tmp = Some Dir then Some Dir else None))"
proof (cases "node_at fs tmp")
  case None
  with assms show ?thesis by (auto simp: cleanup_def path_exists_def node_at_def)
next
  case (Some n)
  with assms show ?thesis
    by (cases n) (auto simp: cleanup_def path_exists_def os_remove_def dict_simps, auto simp: node_at_def)
qed

lemma write_blob_cases:
  assumes "write_blob now fs path data = (fs', res)" "path \<noteq> []"
  shows "(\<forall>p. p \<noteq> path \<and> p \<noteq> with_suffix path ''.tmp'' \<longrightarrow> map_of fs' p = map_of fs p) \<and>
    (wf_dict fs \<longrightarrow> wf_dict fs') \<and>
    (case res of
       Inl e \<Rightarrow> map_of fs' path = map_of fs path \<and>
         map_of fs' (with_suffix path ''.tmp'') = (if map_of fs (with_suffix path ''.tmp'') = Some Dir then Some Dir else None)
     | Inr written \<Rightarrow> map_of fs path \<noteq> Some Dir \<and> snd (payload_parts data) = None \<and>
         written = fst (payload_parts data) \<and> map_of fs' path = Some (File written now) \<and>
         map_of fs' (with_suffix path ''.tmp'') = None)"
proof -
  let ?tmp = "with_suffix path ''.tmp''"
  have tmp: "?tmp \<noteq> path" "?tmp \<noteq> []"
    using with_suffix_simps [OF assms(2), of "''.tmp''"] by simp_all
  obtain written raised where parts: "payload_parts data = (written, raised)"
    by (cases "payload_parts data")
  show ?thesis
  proof (cases "map_of fs ?tmp = Some Dir")
    case True
    then have "cleanup fs ?tmp (os_error ''IsADirectoryError'') = (fs', res)"
      using assms(1) tmp parts by (simp add: write_blob_def write_file_def node_at_map)
    from cleanup_frame [OF this] True tmp show ?thesis by auto
  next
    case False
    let ?fs1 = "AList.update ?tmp (File written now) fs"
    have open_ok: "write_file fs ?tmp written now = Inr ?fs1"
      using False tmp by (auto simp: write_file_def node_at_map split: option.split node.split)
    have fs1: "map_of ?fs1 p = (if p = ?tmp then Some (File written now) else map_of fs p)" for p
      by (simp add: dict_simps)
    have failed: ?thesis if "cleanup ?fs1 ?tmp e = (fs', res)" for e
      using cleanup_frame [OF that] False tmp by (auto simp: fs1)
    show ?thesis
    proof (cases raised)
      case (Some e)
      with assms(1) parts open_ok show ?thesis
        by (intro failed [of "StorePy e"]) (simp add: write_blob_def Let_def)
    next
      case None
      show ?thesis
      proof (cases "map_of fs path = Some Dir")
        case True
        then have "os_replace ?fs1 ?tmp path = Inl (os_error ''IsADirectoryError'')"
          using tmp assms(2) by (simp add: os_replace_def node_at_map fs1)
        with assms(1) parts open_ok None show ?thesis
          by (intro failed [of "os_error ''IsADirectoryError''"]) (simp add: write_blob_def Let_def)
      next
        case nodir: False
        then have "os_replace ?fs1 ?tmp path =
            Inr (AList.update path (File written now) (AList.delete ?tmp ?fs1))"
          using tmp assms(2) by (auto simp: os_replace_def node_at_map fs1 split: option.split node.split)
        with assms(1) parts open_ok None
        have "fs' = AList.update path (File written now) (AList.delete ?tmp ?fs1)" "res = Inr written"
          by (simp_all add: write_blob_def Let_def)
        then show ?thesis
          using nodir parts None tmp by (simp add: dict_simps)
      qed
    qed
  qed
qed

subsection \<open>Writing: facts\<close>

definition tmp_path :: "path \<Rightarrow> path" where
  "tmp_path p = with_suffix p ''.tmp''"

lemma companion_paths:
  assumes "p \<noteq> []"
  shows "tmp_path p \<noteq> p" "meta_path p \<noteq> p" "meta_path p \<noteq> tmp_path p" "tmp_path p \<noteq> []" "meta_path p \<noteq> []"
    "butlast (tmp_path p) = butlast p" "butlast (meta_path p) = butlast p"
    "last (tmp_path p) = last p @ ''.tmp''" "last (meta_path p) = last p @ meta_suffix"
  using with_suffix_simps [OF assms, of "''.tmp''"] with_suffix_simps [OF assms, of meta_suffix]
  by (auto simp: tmp_path_def meta_path_def meta_suffix_def with_suffix_def)

text \<open>The text that \<open>put\<close> writes beside the blob.\<close>

definition meta_text ::
  "codec \<Rightarrow> string option \<Rightarrow> (string, string) pydict option \<Rightarrow> bytes \<Rightarrow> bytes"
where
  "meta_text cd ct md b = cd_dumps cd (meta_payload ct (case md of None \<Rightarrow> [] | Some m \<Rightarrow> m)
     (cd_sha256 cd b) (int (length b)))"

lemma fs_put_cases:
  assumes put: "fs_put cd a now fs t k data ct md ifn = (fs', res)"
    and path: "fs_resolve a t k = Inr path" "path \<noteq> []"
  shows "(\<forall>p. p \<notin> {path, tmp_path path, meta_path path} \<longrightarrow> map_of fs' p = map_of fs p \<or>
       map_of fs p = None \<and> map_of fs' p = Some Dir \<and> strict_prefix [] p \<and> prefix p (butlast path)) \<and>
    (wf_dict fs \<longrightarrow> wf_dict fs') \<and>
    (\<forall>q \<in> {path, tmp_path path, meta_path path}. map_of fs' q = Some Dir \<longrightarrow> map_of fs q = Some Dir) \<and>
    (case res of
       Inl e \<Rightarrow> file_at fs' path = file_at fs path \<and> file_at fs' (meta_path path) = file_at fs (meta_path path) \<or>
         map_of fs' (meta_path path) = Some Dir
     | Inr ref \<Rightarrow> snd (payload_parts data) = None \<and> \<not> (ifn \<and> path_exists fs path) \<and>
         map_of fs' path = Some (File (fst (payload_parts data)) now) \<and>
         map_of fs' (tmp_path path) = None \<and>
         map_of fs' (meta_path path) = Some (File (meta_text cd ct md (fst (payload_parts data))) now) \<and>
         ref = \<lparr>br_tenant_id = t, br_key = k, br_etag = cd_sha256 cd (fst (payload_parts data)),
                br_size = int (length (fst (payload_parts data))), br_content_type = ct\<rparr>)"
proof (cases "ifn \<and> path_exists fs path")
  case True
  with put path have "fs' = fs \<and> res = Inl (BlobAlreadyExists t k)" by (auto simp: fs_put_def)
  then show ?thesis by simp
next
  case fresh: False
  show ?thesis
  proof (cases "makedirs fs [] (butlast path)")
    case (Inl e)
    with put path fresh have "fs' = fs \<and> res = Inl e" by (auto simp: fs_put_def)
    then show ?thesis by simp
  next
    case (Inr fs1)
    note mk = makedirs_facts [OF Inr, simplified]
    have dirs: "map_of fs1 p = map_of fs p \<or>
        map_of fs p = None \<and> map_of fs1 p = Some Dir \<and> strict_prefix [] p \<and> prefix p (butlast path)" for p
      using mk [of p] by auto
    have files: "file_at fs1 p = file_at fs p" for p
      using makedirs_file_at [OF Inr] .
    obtain fs2 r where wb: "write_blob now fs1 path data = (fs2, r)"
      by (cases "write_blob now fs1 path data")
    have old: "map_of fs1 q = map_of fs q" if "q \<in> {path, tmp_path path, meta_path path}" for q
    proof -
      have "q \<noteq> []" "length q = length path"
        using that companion_paths [OF path(2)] path(2)
        by (auto simp: tmp_path_def meta_path_def with_suffix_def)
      then have "\<not> prefix q (butlast path)"
        using prefix_length_le [of q "butlast path"] path(2) by (cases path) auto
      with dirs [of q] show ?thesis by auto
    qed
    note w = write_blob_cases [OF wb path(2), folded tmp_path_def]
    note cp = companion_paths [OF path(2)]
    show ?thesis
    proof (cases r)
      case (Inl e)
      with put path fresh Inr wb have eq: "fs' = fs2" "res = Inl e" by (auto simp: fs_put_def)
      have "file_at fs2 path = file_at fs path" "file_at fs2 (meta_path path) = file_at fs (meta_path path)"
        using w Inl cp files [of path] files [of "meta_path path"] by (simp_all add: file_at_def)
      then show ?thesis
        using w dirs mk Inl old cp by (auto simp: eq)
    next
      case r: (Inr written)
      let ?text = "meta_text cd ct md written"
      have out: "(fs', res) = (case write_file fs2 (meta_path path) ?text now of
          Inl e \<Rightarrow> (fs2, Inl e)
        | Inr fs3 \<Rightarrow> (fs3, Inr \<lparr>br_tenant_id = t, br_key = k, br_etag = cd_sha256 cd written,
             br_size = int (length written), br_content_type = ct\<rparr>))"
        using put path fresh Inr wb r by (simp add: fs_put_def meta_text_def Let_def)
      show ?thesis
      proof (cases "map_of fs2 (meta_path path) = Some Dir")
        case True
        then have "fs' = fs2" "\<exists>e. res = Inl e"
          using out cp by (simp_all add: write_file_def node_at_map)
        then show ?thesis using w dirs mk True r old cp by auto
      next
        case False
        then have "write_file fs2 (meta_path path) ?text now = Inr (AList.update (meta_path path) (File ?text now) fs2)"
          using cp by (auto simp: write_file_def node_at_map split: option.split node.split)
        with out have "fs' = AList.update (meta_path path) (File ?text now) fs2"
          "res = Inr \<lparr>br_tenant_id = t, br_key = k, br_etag = cd_sha256 cd written,
             br_size = int (length written), br_content_type = ct\<rparr>"
          by simp_all
        then show ?thesis
          using w dirs mk r cp fresh old by (auto simp: dict_simps)
      qed
    qed
  qed
qed

lemma fs_delete_cases:
  assumes "fs_delete a fs t k = (fs', res)" and "fs_resolve a t k = Inr path" "path \<noteq> []"
  shows "(\<forall>p. p \<notin> {path, meta_path path} \<longrightarrow> map_of fs' p = map_of fs p) \<and>
    (wf_dict fs \<longrightarrow> wf_dict fs') \<and>
    (\<forall>q. map_of fs' q = Some Dir \<longrightarrow> map_of fs q = Some Dir) \<and>
    (case res of
       Inl e \<Rightarrow> map_of fs' path = map_of fs path \<or> map_of fs (meta_path path) = Some Dir
     | Inr _ \<Rightarrow> map_of fs' path = None \<and> map_of fs' (meta_path path) = None)"
proof -
  note cp = companion_paths [OF assms(3)]
  have remove: "os_remove fs0 p = (case map_of fs0 p of Some (File b t) \<Rightarrow> Inr (AList.delete p fs0)
      | Some Dir \<Rightarrow> Inl (os_error ''IsADirectoryError'') | None \<Rightarrow> Inl (os_error ''FileNotFoundError''))"
    if "p \<noteq> []" for fs0 p using that by (simp add: os_remove_def node_at_map)
  have exists: "path_exists fs0 p \<longleftrightarrow> map_of fs0 p \<noteq> None" if "p \<noteq> []" for fs0 p
    using that by (simp add: path_exists_def node_at_map)
  show ?thesis
    using assms(1,2) cp assms(3)
    by (cases "map_of fs path"; cases "map_of fs (meta_path path)")
       (auto simp: fs_delete_def remove exists dict_simps split: node.splits if_splits)
qed

lemma tenant_prefix:
  assumes "path = rt @ t # parts" "parts \<noteq> []" "q \<in> {path, tmp_path path, meta_path path}"
  shows "prefix (rt @ [t]) q"
proof -
  have "butlast q = rt @ t # butlast parts"
    using assms companion_paths [of path] by (auto simp: butlast_append)
  then have "prefix (rt @ [t]) (butlast q)" by simp
  then show ?thesis using prefix_order.trans prefixeq_butlast by blast
qed

lemma below_root:
  assumes "prefix p (rt @ t # xs)" "strict_prefix rt p"
  shows "prefix (rt @ [t]) p"
proof -
  obtain u where u: "p = rt @ u" "u \<noteq> []"
    using assms(2) by (auto simp: strict_prefix_def prefix_def)
  with assms(1) have "prefix u (t # xs)" by simp
  with u show ?thesis by (cases u) auto
qed

text \<open>
  On the filesystem a write or a delete of a tenant, with whatever arguments and outcome,
  changes nothing under the root outside that tenant's directory: no file of another tenant,
  and not the directory of another tenant either. The key must name something below the tenant
  (an empty one, which the adapter accepts, does not).
\<close>

theorem fs_writes_stay_in_tenant:
  assumes "adapter_ok a" and "pure_parts k \<noteq> []"
    and "strict_prefix (fa_root a) p" and "\<not> prefix (fa_root a @ [t]) p"
  shows "map_of (fst (fs_put cd a now fs t k data ct md ifn)) p = map_of fs p \<and>
    map_of (fst (fs_delete a fs t k)) p = map_of fs p"
proof (cases "fs_resolve a t k")
  case (Inl e)
  then show ?thesis by (simp add: fs_put_def fs_delete_def)
next
  case (Inr path)
  have path: "path = fa_root a @ t # pure_parts k" "path \<noteq> []"
    using Inr assms(1) by (simp_all add: fs_resolve_Inr)
  have out: "p \<notin> {path, tmp_path path, meta_path path}"
    using tenant_prefix [OF path(1) assms(2)] assms(4) by blast
  have "\<not> prefix p (butlast path)"
    using below_root [of p "fa_root a" t "butlast (pure_parts k)"] assms(2-4) by (auto simp: path butlast_append)
  then have "map_of fs' p = map_of fs p" if "fs_put cd a now fs t k data ct md ifn = (fs', res)" for fs' res
    using fs_put_cases [OF that Inr path(2)] out by blast
  moreover have "map_of fs' p = map_of fs p" if "fs_delete a fs t k = (fs', res)" for fs' res
    using fs_delete_cases [OF that Inr path(2)] out by blast
  ultimately show ?thesis by (metis prod.collapse)
qed

subsection \<open>The contract\<close>

text \<open>
  Names the adapter keeps for itself; keys in the normal form of their path without such names
  are the addresses the contract speaks about, and directories below a tenant have plain names.
\<close>

definition plain_name :: "string \<Rightarrow> bool" where
  "plain_name n \<longleftrightarrow> \<not> ends_with n ''.tmp'' \<and> \<not> ends_with n meta_suffix"

definition fs_addr :: "fs_adapter \<Rightarrow> string \<Rightarrow> string \<Rightarrow> bool" where
  "fs_addr a t k \<longleftrightarrow> adapter_ok a \<and> is_ok (fs_resolve a t k) \<and> pure_parts k \<noteq> [] \<and>
     list_all plain_name (pure_parts k) \<and> k = py_join ''/'' (pure_parts k)"

definition fs_inv :: "fs_adapter \<Rightarrow> fs \<Rightarrow> bool" where
  "fs_inv a fs \<longleftrightarrow>
     (\<forall>t rest. rest \<noteq> [] \<longrightarrow> map_of fs (fa_root a @ t # rest) = Some Dir \<longrightarrow> plain_name (last rest))"

definition fs_content :: "fs_adapter \<Rightarrow> fs \<Rightarrow> string \<Rightarrow> string \<Rightarrow> bytes option" where
  "fs_content a fs t k = map_option fst (file_at fs (fa_root a @ t # pure_parts k))"

definition fs_put_bytes ::
  "codec \<Rightarrow> fs_adapter \<Rightarrow> int \<Rightarrow> fs \<Rightarrow> string \<Rightarrow> string \<Rightarrow> bytes \<Rightarrow> string option \<Rightarrow> bool \<Rightarrow> fs \<times> (blob_exn + BlobRef)"
where
  "fs_put_bytes cd a now fs t k b ct ifn = fs_put cd a now fs t k (Bytes b) ct None ifn"

lemma fs_addr_path:
  assumes "fs_addr a t k"
  shows "fs_resolve a t k = Inr (fa_root a @ t # pure_parts k)" "pure_parts k \<noteq> []"
    "plain_name (last (pure_parts k))"
  using assms by (cases "fs_resolve a t k"; auto simp: fs_addr_def fs_resolve_Inr list_all_iff)+

lemma fs_addr_inject:
  assumes "fs_addr a t k" "fs_addr a t' k'"
  shows "fa_root a @ t # pure_parts k = fa_root a @ t' # pure_parts k' \<longleftrightarrow> t = t' \<and> k = k'"
  using assms unfolding fs_addr_def by auto

lemma plain_not_companion:
  assumes "plain_name (last q)" "p \<noteq> []"
  shows "q \<noteq> tmp_path p" "q \<noteq> meta_path p"
  using assms companion_paths [OF assms(2)] by (auto simp: plain_name_def)

lemma companion_not_dir:
  assumes "fs_inv a fs" "fs_addr a t k" "path = fa_root a @ t # pure_parts k"
  shows "map_of fs (tmp_path path) \<noteq> Some Dir" "map_of fs (meta_path path) \<noteq> Some Dir"
proof -
  have shape: "with_suffix path e = fa_root a @ t # (butlast (pure_parts k) @ [last (pure_parts k) @ e])" for e
    using fs_addr_path(2) [OF assms(2)] by (simp add: assms(3) with_suffix_def butlast_append)
  show "map_of fs (tmp_path path) \<noteq> Some Dir"
  proof
    assume "map_of fs (tmp_path path) = Some Dir"
    then have "plain_name (last (butlast (pure_parts k) @ [last (pure_parts k) @ ''.tmp'']))"
      using assms(1) unfolding fs_inv_def tmp_path_def shape by blast
    then show False by (simp add: plain_name_def)
  qed
  show "map_of fs (meta_path path) \<noteq> Some Dir"
  proof
    assume "map_of fs (meta_path path) = Some Dir"
    then have "plain_name (last (butlast (pure_parts k) @ [last (pure_parts k) @ meta_suffix]))"
      using assms(1) unfolding fs_inv_def meta_path_def shape by blast
    then show False by (simp add: plain_name_def)
  qed
qed

lemma parents_plain:
  assumes "fs_addr a t k" "rest \<noteq> []" "prefix (fa_root a @ t' # rest) (butlast (fa_root a @ t # pure_parts k))"
  shows "plain_name (last rest)"
proof -
  from assms(3) have "prefix rest (butlast (pure_parts k))"
    using fs_addr_path(2) [OF assms(1)] by (auto simp: butlast_append)
  then have "last rest \<in> set (butlast (pure_parts k))"
    using assms(2) set_mono_prefix by (metis last_in_set subsetD)
  then have "last rest \<in> set (pure_parts k)" by (rule in_set_butlastD)
  with assms(1) show ?thesis by (simp add: fs_addr_def list_all_iff)
qed

lemma fs_put_inv:
  assumes "fs_inv a fs" "fs_addr a t k" "fs_put_bytes cd a now fs t k b ct ifn = (fs', res)"
  shows "fs_inv a fs'"
  unfolding fs_inv_def
proof (intro allI impI)
  fix t' rest
  assume rest: "rest \<noteq> []" "map_of fs' (fa_root a @ t' # rest) = Some Dir"
  let ?p = "fa_root a @ t' # rest" and ?path = "fa_root a @ t # pure_parts k"
  have ne: "?path \<noteq> []" by simp
  note put = fs_put_cases [OF assms(3) [unfolded fs_put_bytes_def] fs_addr_path(1) [OF assms(2)] ne]
  show "plain_name (last rest)"
  proof (cases "map_of fs ?p = Some Dir")
    case True
    with assms(1) rest(1) show ?thesis unfolding fs_inv_def by blast
  next
    case False
    have "?p \<notin> {?path, tmp_path ?path, meta_path ?path}"
      using conjunct1 [OF conjunct2 [OF conjunct2 [OF put]]] rest(2) False by blast
    with conjunct1 [OF put] have "map_of fs' ?p = map_of fs ?p \<or> prefix ?p (butlast ?path)" by blast
    with rest(2) False have "prefix ?p (butlast ?path)" by simp
    then show ?thesis by (rule parents_plain [OF assms(2) rest(1)])
  qed
qed

lemma fs_put_content:
  assumes "fs_inv a fs" "fs_addr a t k" "fs_put_bytes cd a now fs t k b ct ifn = (fs', res)" "fs_addr a t' k'"
  shows "fs_content a fs' t' k' = (if is_ok res \<and> t' = t \<and> k' = k then Some b else fs_content a fs t' k')"
proof -
  let ?path = "fa_root a @ t # pure_parts k" and ?q = "fa_root a @ t' # pure_parts k'"
  note put = fs_put_cases [OF assms(3) [unfolded fs_put_bytes_def] fs_addr_path(1) [OF assms(2)], simplified]
  note nodir = companion_not_dir [OF assms(1,2) refl]
  have plain: "plain_name (last ?q)" "?path \<noteq> []"
    using fs_addr_path [OF assms(4)] by simp_all
  note other = plain_not_companion [OF plain]
  show ?thesis
  proof (cases "?q = ?path")
    case True
    then have same: "t' = t" "k' = k"
      using fs_addr_inject [OF assms(4,2)] by simp_all
    show ?thesis
    proof (cases res)
      case (Inl e)
      then have "file_at fs' ?path = file_at fs ?path"
        using put nodir by auto
      with Inl show ?thesis by (simp add: fs_content_def same)
    next
      case (Inr ref)
      then have "map_of fs' ?path = Some (File b now)"
        using put by (simp add: payload_parts_def)
      with Inr show ?thesis by (simp add: fs_content_def file_at_def same)
    qed
  next
    case False
    then have "map_of fs' ?q = map_of fs ?q \<or> map_of fs ?q = None \<and> map_of fs' ?q = Some Dir"
      using put other by blast
    then have "file_at fs' ?q = file_at fs ?q"
      by (auto simp: file_at_def)
    moreover have "\<not> (t' = t \<and> k' = k)" using False by auto
    ultimately show ?thesis by (auto simp: fs_content_def)
  qed
qed

lemma fs_put_exclusive:
  assumes "fs_addr a t k" "fs_content a fs t k \<noteq> None" "fs_put_bytes cd a now fs t k b ct True = (fs', res)"
  shows "res = Inl (BlobAlreadyExists t k)"
proof -
  have "path_exists fs (fa_root a @ t # pure_parts k)"
    using assms(2) by (auto simp: fs_content_def file_at_def path_exists_def node_at_def split: option.splits)
  with assms(3) fs_addr_path(1) [OF assms(1)] show ?thesis
    by (simp add: fs_put_bytes_def fs_put_def)
qed

lemma fs_delete_content:
  assumes "fs_inv a fs" "fs_addr a t k" "fs_delete a fs t k = (fs', res)" "fs_addr a t' k'"
  shows "fs_content a fs' t' k' = (if is_ok res \<and> t' = t \<and> k' = k then None else fs_content a fs t' k')"
proof -
  let ?path = "fa_root a @ t # pure_parts k" and ?q = "fa_root a @ t' # pure_parts k'"
  note del = fs_delete_cases [OF assms(3) fs_addr_path(1) [OF assms(2)], simplified]
  note nodir = companion_not_dir [OF assms(1,2) refl]
  have plain: "plain_name (last ?q)" "?path \<noteq> []"
    using fs_addr_path [OF assms(4)] by simp_all
  note other = plain_not_companion [OF plain]
  show ?thesis
  proof (cases "?q = ?path")
    case True
    then have same: "t' = t" "k' = k"
      using fs_addr_inject [OF assms(4,2)] by simp_all
    show ?thesis
      using del nodir by (cases res) (auto simp: fs_content_def file_at_def same)
  next
    case False
    then have "map_of fs' ?q = map_of fs ?q" using del other by blast
    moreover have "\<not> (t' = t \<and> k' = k)" using False by auto
    ultimately show ?thesis by (auto simp: fs_content_def file_at_def)
  qed
qed

lemma fs_delete_inv:
  assumes "fs_inv a fs" "fs_addr a t k" "fs_delete a fs t k = (fs', res)"
  shows "fs_inv a fs'"
  using assms(1) fs_delete_cases [OF assms(3) fs_addr_path(1) [OF assms(2)]] unfolding fs_inv_def by simp blast

lemma fs_get_content:
  assumes "fs_addr a t k" "fs_get cd a fs t k = Inr d" "blob_bytes d = Inr b"
  shows "fs_content a fs t k = Some b"
proof -
  have "bl_stream d = fs_stream fs (fa_root a @ t # pure_parts k)"
    using assms(2) fs_addr_path(1) [OF assms(1)]
    by (auto simp: fs_get_def rmap_Inr_iff split: if_splits)
  with assms(3) show ?thesis
    by (auto simp: blob_bytes_def fs_stream_def fs_content_def file_at_def node_at_def rmap_Inr_iff concat_read_chunks
        split: option.splits node.splits)
qed

interpretation fsys: blob_store "fs_inv a" "fs_addr a" "fs_content a"
  "fs_put_bytes cd a now" "fs_get cd a" "fs_delete a" for cd a now
proof (unfold_locales, goal_cases)
  case 1
  then show ?case by (rule fs_put_inv)
next
  case 2
  then show ?case by (rule fs_put_content)
next
  case 3
  then show ?case by (intro fs_put_exclusive)
next
  case 4
  then show ?case by (rule fs_delete_inv)
next
  case 5
  then show ?case by (rule fs_delete_content)
next
  case 6
  then show ?case by (intro fs_get_content)
qed

text \<open>
  C11. Tenant isolation on the filesystem: whatever successful or failed writes and deletes other
  tenants perform on their keys, a tenant reads from each of its keys exactly the bytes that
  the tree held for it before (for keys in normal form without the adapter's own suffixes).
\<close>

theorem fs_tenant_isolation:
  assumes "fs_inv a fs" and "\<forall>x \<in> set xs. fs_addr a (op_tenant x) (op_key x) \<and> op_tenant x \<noteq> t"
    and "run_ops (fs_put_bytes cd a now) (fs_delete a) fs xs = (fs', oks)"
    and "fs_addr a t k" and "fs_get cd a fs' t k = Inr d" and "blob_bytes d = Inr b"
  shows "\<exists>mtime. map_of fs (fa_root a @ t # pure_parts k) = Some (File b mtime)"
  using fsys.tenant_isolation [OF assms]
  by (auto simp: fs_content_def file_at_def split: option.splits node.splits)

text \<open>The codec reads back what it wrote.\<close>

definition codec_ok :: "codec \<Rightarrow> bool" where
  "codec_ok cd \<longleftrightarrow> (\<forall>v. cd_loads cd (cd_dumps cd v) = Inr v)"

lemma read_meta_payload:
  "read_payload t k mtime (meta_payload ct md e n) =
     Inr \<lparr>bmd_tenant_id = t, bmd_key = k, bmd_size = n, bmd_etag = e, bmd_last_modified = mtime,
          bmd_content_type = ct, bmd_user_metadata = md\<rparr>"
proof -
  have "rmap_list (\<lambda>(k, v). case v of JStr s \<Rightarrow> Inr (k, s) | _ \<Rightarrow> Inl ill_typed) (map (\<lambda>(k, v). (k, JStr v)) md) = Inr md"
    by (induction md) auto
  then show ?thesis
    by (cases ct) (simp_all add: read_payload_def meta_payload_def)
qed

text \<open>What \<open>get\<close> and \<open>head\<close> find where a blob and the text of its metadata are.\<close>

lemma stored_blob_reads:
  assumes "codec_ok cd" and "fs_resolve a t k = Inr path" and "path \<noteq> []"
    and "map_of fs path = Some (File body now)"
    and "map_of fs (meta_path path) = Some (File (meta_text cd ct md body) now')"
  shows "\<exists>d chunks. fs_get cd a fs t k = Inr d \<and> bl_stream d = Inr chunks \<and>
    concat chunks = body \<and> (\<forall>c \<in> set chunks. c \<noteq> [] \<and> length c \<le> 1024 * 1024) \<and>
    bl_etag d = cd_sha256 cd body \<and> bl_size d = int (length body) \<and> bl_content_type d = ct \<and>
    fs_head cd a fs t k = Inr (Some \<lparr>bmd_tenant_id = t, bmd_key = k, bmd_size = int (length body),
      bmd_etag = cd_sha256 cd body, bmd_last_modified = now, bmd_content_type = ct,
      bmd_user_metadata = (case md of None \<Rightarrow> [] | Some m \<Rightarrow> m)\<rparr>)"
proof -
  let ?md = "case md of None \<Rightarrow> [] | Some m \<Rightarrow> m"
  have "load_meta cd fs path t k = Inr \<lparr>bmd_tenant_id = t, bmd_key = k, bmd_size = int (length body),
      bmd_etag = cd_sha256 cd body, bmd_last_modified = now, bmd_content_type = ct, bmd_user_metadata = ?md\<rparr>"
    using assms companion_paths(5) [OF assms(3)]
    by (simp add: load_meta_def node_at_map meta_text_def codec_ok_def read_meta_payload)
  moreover have "path_exists fs path" "fs_stream fs path = Inr (read_chunks (1024 * 1024) body)"
    using assms(3,4) by (simp_all add: path_exists_def fs_stream_def node_at_map)
  moreover have "\<forall>c \<in> set (read_chunks (1024 * 1024) body). c \<noteq> [] \<and> length c \<le> 1024 * 1024"
    using read_chunks_bounds by blast
  ultimately show ?thesis
    using assms(2) concat_read_chunks [of "1024 * 1024" body] by (simp add: fs_get_def fs_head_def)
qed

lemma fs_put_reads_back:
  assumes "adapter_ok a" and "codec_ok cd"
    and "fs_put cd a now fs t k data ct md ifn = (fs', Inr ref)"
  shows "\<exists>d body chunks.
    payload_parts data = (body, None) \<and> fs_get cd a fs' t k = Inr d \<and> bl_stream d = Inr chunks \<and>
    concat chunks = body \<and> (\<forall>c \<in> set chunks. c \<noteq> [] \<and> length c \<le> 1024 * 1024) \<and>
    bl_etag d = cd_sha256 cd body \<and> bl_size d = int (length body) \<and> bl_content_type d = ct \<and>
    br_etag ref = bl_etag d \<and> br_size ref = bl_size d \<and>
    fs_head cd a fs' t k = Inr (Some \<lparr>bmd_tenant_id = t, bmd_key = k, bmd_size = int (length body),
      bmd_etag = cd_sha256 cd body, bmd_last_modified = now, bmd_content_type = ct,
      bmd_user_metadata = (case md of None \<Rightarrow> [] | Some m \<Rightarrow> m)\<rparr>)"
proof -
  obtain path where path: "fs_resolve a t k = Inr path"
    using assms(3) by (cases "fs_resolve a t k") (auto simp: fs_put_def)
  have ne: "path \<noteq> []" using fs_resolve_nonempty [OF assms(1) path] .
  obtain body where body: "payload_parts data = (body, None)"
    and at: "map_of fs' path = Some (File body now)"
      "map_of fs' (meta_path path) = Some (File (meta_text cd ct md body) now)"
    and ref: "br_etag ref = cd_sha256 cd body" "br_size ref = int (length body)"
    using fs_put_cases [OF assms(3) path ne] by (cases "payload_parts data") auto
  from stored_blob_reads [OF assms(2) path ne at] body ref show ?thesis by auto
qed

text \<open>
  A successful write on the filesystem can be read back at once, for any key the adapter
  accepts: \<open>get\<close> and \<open>head\<close> return the etag of the reference (the hash of the whole body), its
  size, the content type and the metadata of the call, and the stream yields the body that was
  written, in bounded chunks, whether it came as bytes or as a stream.
\<close>

theorem fs_put_get_roundtrip:
  assumes "adapter_ok a" and "codec_ok cd"
    and "fs_put cd a now fs t k data ct md ifn = (fs', Inr ref)"
  shows "\<exists>d body chunks.
    payload_parts data = (body, None) \<and> fs_get cd a fs' t k = Inr d \<and> bl_stream d = Inr chunks \<and>
    concat chunks = body \<and> (\<forall>c \<in> set chunks. c \<noteq> [] \<and> length c \<le> 1024 * 1024) \<and>
    bl_etag d = cd_sha256 cd body \<and> bl_size d = int (length body) \<and> bl_content_type d = ct \<and>
    br_etag ref = bl_etag d \<and> br_size ref = bl_size d \<and>
    fs_head cd a fs' t k = Inr (Some \<lparr>bmd_tenant_id = t, bmd_key = k, bmd_size = int (length body),
      bmd_etag = cd_sha256 cd body, bmd_last_modified = now, bmd_content_type = ct,
      bmd_user_metadata = (case md of None \<Rightarrow> [] | Some m \<Rightarrow> m)\<rparr>)"
  using assms by (rule fs_put_reads_back)

text \<open>
  A write destroys a neighbour: after a successful write of a key, the blob of the same tenant
  whose key has \<open>.tmp\<close> appended to the last component is gone, and the one with \<open>.meta.json\<close> appended
  holds the adapter's own metadata; neither key is refused when a caller writes to it.
\<close>

theorem fs_put_destroys_neighbours:
  assumes "adapter_ok a" and "fs_put cd a now fs t k data ct md ifn = (fs', Inr ref)"
    and "fs_resolve a t k = Inr path" and "fs_resolve a t k1 = Inr (with_suffix path ''.tmp'')"
    and "fs_resolve a t k2 = Inr (with_suffix path ''.meta.json'')"
  shows "fs_get cd a fs' t k1 = Inl (BlobNotFound t k1) \<and>
    map_of fs' (with_suffix path ''.meta.json'') =
      Some (File (meta_text cd ct md (fst (payload_parts data))) now)"
proof -
  have ne: "path \<noteq> []" using fs_resolve_nonempty [OF assms(1,3)] .
  note put = fs_put_cases [OF assms(2,3) ne, folded tmp_path_def]
  have "\<not> path_exists fs' (tmp_path path)"
    using put companion_paths(4) [OF ne] by (auto simp: path_exists_def node_at_map)
  with put assms(4) show ?thesis
    by (auto simp: fs_get_def tmp_path_def meta_path_def meta_suffix_def)
qed

subsection \<open>Listing\<close>

lemma list_files_keys:
  assumes "list_files cd fs dir t pre ps = (refs, None)"
  shows "map br_key refs = map (\<lambda>p. py_join ''/'' (drop (length dir) p))
      (filter (\<lambda>p. \<not> ends_with (last p) meta_suffix \<and>
         (pre = [] \<or> starts_with (py_join ''/'' (drop (length dir) p)) pre)) ps) \<and>
    (\<forall>r \<in> set refs. br_tenant_id r = t)"
  using assms
proof (induction ps arbitrary: refs)
  case (Cons p ps)
  show ?case
  proof (cases "ends_with (last p) meta_suffix \<or>
      pre \<noteq> [] \<and> \<not> starts_with (py_join ''/'' (drop (length dir) p)) pre")
    case True
    with Cons.prems have "list_files cd fs dir t pre ps = (refs, None)"
      by (auto simp: Let_def split: if_splits)
    from Cons.IH [OF this] True show ?thesis by auto
  next
    case False
    obtain refs' e where rec: "list_files cd fs dir t pre ps = (refs', e)"
      by (cases "list_files cd fs dir t pre ps")
    obtain meta where "load_meta cd fs p t (py_join ''/'' (drop (length dir) p)) = Inr meta"
      and e: "e = None"
      and refs: "refs = \<lparr>br_tenant_id = t, br_key = py_join ''/'' (drop (length dir) p), br_etag = bmd_etag meta,
         br_size = bmd_size meta, br_content_type = bmd_content_type meta\<rparr> # refs'"
      using Cons.prems False rec by (auto simp: Let_def split: sum.splits)
    from Cons.IH [OF rec [unfolded e]] False show ?thesis by (auto simp: refs)
  qed
qed simp

lemma walk_iff:
  assumes "wf_dict fs"
  shows "p \<in> set (walk fs dir) \<longleftrightarrow> strict_prefix dir p \<and> (\<exists>b m. map_of fs p = Some (File b m))"
proof -
  have mem: "(p, n) \<in> set fs \<longleftrightarrow> map_of fs p = Some n" for n
    using assms by (simp add: wf_dict_def)
  have "p \<in> set (walk fs dir) \<longleftrightarrow> (\<exists>n. (p, n) \<in> set fs \<and> strict_prefix dir p \<and> n \<noteq> Dir)"
    by (force simp: walk_def)
  also have "\<dots> \<longleftrightarrow> strict_prefix dir p \<and> (\<exists>b m. map_of fs p = Some (File b m))"
    unfolding mem by (metis node.distinct(1) node.exhaust)
  finally show ?thesis .
qed

lemma py_split_single: "c \<notin> set s \<Longrightarrow> py_split c s = [s]"
  by (induction s) auto

lemma pure_parts_name: "t \<noteq> [] \<Longrightarrow> CHR ''/'' \<notin> set t \<Longrightarrow> t \<noteq> ''.'' \<Longrightarrow> pure_parts t = [t]"
  by (simp add: pure_parts_def py_split_single)

lemma tenant_dir_valid:
  assumes "adapter_ok a" "t \<noteq> []" "CHR ''/'' \<notin> set t" "t \<noteq> ''.''" "t \<noteq> ''..''"
  shows "tenant_dir a t = fa_root a @ [t]"
proof -
  have "\<not> is_absolute t"
    using assms(2,3) by (cases t) (auto simp: is_absolute_def starts_with_def)
  with assms show ?thesis
    by (simp add: tenant_dir_def pure_parts_name os_norm_id adapter_ok_def)
qed

text \<open>
  A listing on the filesystem, by a valid tenant id, yields the tenant's files and nothing of
  any other tenant: when it ends normally the keys are those of exactly the files below the
  tenant's directory that match the prefix, the adapter's metadata files left out.
\<close>

theorem fs_list_yields_own_files:
  assumes "adapter_ok a" and "wf_dict fs" and "is_ok (fs_resolve a t [])"
    and "fs_list cd a fs t pre = (refs, None)"
  shows "(\<forall>r \<in> set refs. br_tenant_id r = t) \<and>
    set (map br_key refs) = {py_join ''/'' rest | rest b m.
      map_of fs (fa_root a @ t # rest) = Some (File b m) \<and> rest \<noteq> [] \<and>
      \<not> ends_with (last rest) meta_suffix \<and> (pre = [] \<or> starts_with (py_join ''/'' rest) pre) \<and>
      path_exists fs (fa_root a @ [t])}"
proof -
  let ?dir = "fa_root a @ [t]"
  have valid: "t \<noteq> []" "CHR ''/'' \<notin> set t" "t \<noteq> ''.''" "t \<noteq> ''..''"
    using assms(3) by (cases "fs_resolve a t []"; simp add: fs_resolve_Inr [OF assms(1)])+
  have dir: "tenant_dir a t = ?dir"
    using tenant_dir_valid [OF assms(1) valid] .
  show ?thesis
  proof (cases "path_exists fs ?dir")
    case False
    with assms(4) have "refs = []" by (simp add: fs_list_def dir)
    with False show ?thesis by simp
  next
    case True
    have files: "list_files cd fs ?dir t pre (walk fs ?dir) = (refs, None)"
      using assms(4) True by (auto simp: fs_list_def dir Let_def split: if_splits)
    have mem: "p \<in> set (walk fs ?dir) \<longleftrightarrow>
        (\<exists>rest b m. p = fa_root a @ t # rest \<and> rest \<noteq> [] \<and> map_of fs (fa_root a @ t # rest) = Some (File b m))" for p
      by (auto simp: walk_iff [OF assms(2)] strict_prefix_def prefix_def)
    have "set (map br_key refs) = (\<lambda>p. py_join ''/'' (drop (Suc (length (fa_root a))) p)) `
        {p. p \<in> set (walk fs ?dir) \<and> \<not> ends_with (last p) meta_suffix \<and>
           (pre = [] \<or> starts_with (py_join ''/'' (drop (Suc (length (fa_root a))) p)) pre)}"
      using list_files_keys [OF files] by (auto simp: set_eq_iff)
    also have "\<dots> = {py_join ''/'' rest | rest b m.
        map_of fs (fa_root a @ t # rest) = Some (File b m) \<and> rest \<noteq> [] \<and>
        \<not> ends_with (last rest) meta_suffix \<and> (pre = [] \<or> starts_with (py_join ''/'' rest) pre) \<and> path_exists fs ?dir}"
      (is "?f ` ?A = ?B")
    proof (intro set_eqI iffI)
      fix x assume "x \<in> ?f ` ?A"
      then obtain p where p: "x = ?f p" "p \<in> ?A" by blast
      then obtain rest b m where "p = fa_root a @ t # rest" "rest \<noteq> []" "map_of fs (fa_root a @ t # rest) = Some (File b m)"
        unfolding mem by blast
      with p True show "x \<in> ?B" by auto
    next
      fix x assume "x \<in> ?B"
      then obtain rest b m where r: "x = py_join ''/'' rest" "map_of fs (fa_root a @ t # rest) = Some (File b m)"
        "rest \<noteq> []" "\<not> ends_with (last rest) meta_suffix" "pre = [] \<or> starts_with (py_join ''/'' rest) pre" by blast
      then have "fa_root a @ t # rest \<in> ?A" unfolding mem by auto
      with r(1) show "x \<in> ?f ` ?A" by (intro image_eqI [where x = "fa_root a @ t # rest"]) simp_all
    qed
    finally show ?thesis using list_files_keys [OF files] by simp
  qed
qed

text \<open>
  The listing does not check the tenant id: an id that every other operation refuses with
  \<open>TenantIsolationError\<close> is joined to the root as it is, and a dot lists the files of all tenants.
\<close>

theorem fs_list_crosses_tenants:
  assumes "adapter_ok a" and "wf_dict fs" and "path_exists fs (fa_root a)"
    and "fs_list cd a fs ''.'' [] = (refs, None)"
    and "map_of fs (fa_root a @ u # rest) = Some (File b m)" and "rest \<noteq> []"
    and "\<not> ends_with (last rest) meta_suffix"
  shows "py_join ''/'' (u # rest) \<in> set (map br_key refs) \<and>
    fs_get cd a fs ''.'' (py_join ''/'' (u # rest)) = Inl (TenantIsolationError ''Invalid tenant_id: .'')"
proof -
  have dir: "tenant_dir a ''.'' = fa_root a"
    using assms(1) by (simp add: tenant_dir_def pure_parts_def is_absolute_def starts_with_def os_norm_id adapter_ok_def)
  have files: "list_files cd fs (fa_root a) ''.'' [] (walk fs (fa_root a)) = (refs, None)"
    using assms(3,4) by (simp add: fs_list_def dir Let_def)
  have "fa_root a @ u # rest \<in> set (walk fs (fa_root a))"
    using assms(2,5) by (simp add: walk_iff strict_prefix_def)
  with list_files_keys [OF files] assms(6,7)
  have "py_join ''/'' (drop (length (fa_root a)) (fa_root a @ u # rest)) \<in> set (map br_key refs)"
    by (force simp del: append_eq_append_conv2)
  then show ?thesis
    by (simp add: fs_get_def fs_resolve_def)
qed

subsection \<open>Witnesses\<close>

instance pyfloat :: countable
  by countable_datatype

instance json :: countable
  by countable_datatype

definition sample_codec :: codec where
  "sample_codec = \<lparr>cd_sha256 = (\<lambda>b. ''h''), cd_dumps = (\<lambda>v. replicate (to_nat v) CHR ''0''),
     cd_loads = (\<lambda>b. Inr (from_nat (length b)))\<rparr>"

lemma sample_codec_ok: "codec_ok sample_codec"
  by (simp add: codec_ok_def sample_codec_def)

definition sample_adapter_fs :: fs_adapter where
  "sample_adapter_fs = \<lparr>fa_root = [''srv'']\<rparr>"

definition sample_fs :: fs where
  "sample_fs = [([''srv''], Dir), ([''srv'', ''t''], Dir), ([''srv'', ''t'', ''a''], File ''xy'' 3)]"

lemma sample_adapter_fs_ok: "adapter_ok sample_adapter_fs"
  by (simp add: adapter_ok_def sample_adapter_fs_def)

lemma sample_parts: "pure_parts ''a'' = [''a'']" "pure_parts ''c'' = [''c'']" "pure_parts ''a.tmp'' = [''a.tmp'']"
  "pure_parts ''a.meta.json'' = [''a.meta.json'']"
  by (simp_all add: pure_parts_def)

lemma sample_fs_resolve:
  "fs_resolve sample_adapter_fs ''t'' ''a'' = Inr [''srv'', ''t'', ''a'']"
  "fs_resolve sample_adapter_fs ''u'' ''c'' = Inr [''srv'', ''u'', ''c'']"
  "fs_resolve sample_adapter_fs ''t'' ''a.tmp'' = Inr [''srv'', ''t'', ''a.tmp'']"
  "fs_resolve sample_adapter_fs ''t'' ''a.meta.json'' = Inr [''srv'', ''t'', ''a.meta.json'']"
  by (simp_all add: fs_resolve_def sample_parts is_absolute_def starts_with_def sample_adapter_fs_def)

lemma sample_fs_addr: "fs_addr sample_adapter_fs ''t'' ''a''" "fs_addr sample_adapter_fs ''u'' ''c''"
  by (simp_all add: fs_addr_def sample_adapter_fs_ok sample_fs_resolve sample_parts plain_name_def
      ends_with_def starts_with_def meta_suffix_def)

lemma sample_fs_put:
  "\<exists>fs' ref. fs_put sample_codec sample_adapter_fs 9 sample_fs ''t'' ''a'' (Chunks [''z'', ''w''] None) None None False = (fs', Inr ref)"
  by (simp add: fs_put_def sample_fs_resolve sample_fs_def node_at_def write_blob_def with_suffix_def
      payload_parts_def write_file_def os_replace_def meta_path_def meta_suffix_def Let_def)

lemma fs_put_get_roundtrip_witness:
  "\<exists>fs' ref d. fs_put sample_codec sample_adapter_fs 9 sample_fs ''t'' ''a'' (Chunks [''z'', ''w''] None) None None False = (fs', Inr ref) \<and>
     fs_get sample_codec sample_adapter_fs fs' ''t'' ''a'' = Inr d \<and> bl_size d = 2"
proof -
  obtain fs' ref where put: "fs_put sample_codec sample_adapter_fs 9 sample_fs ''t'' ''a''
      (Chunks [''z'', ''w''] None) None None False = (fs', Inr ref)"
    using sample_fs_put by blast
  from fs_put_get_roundtrip [OF sample_adapter_fs_ok sample_codec_ok put] put show ?thesis
    by (auto simp: payload_parts_def)
qed

lemma fs_put_destroys_neighbours_witness:
  "\<exists>fs' ref. fs_put sample_codec sample_adapter_fs 9 sample_fs ''t'' ''a'' (Chunks [''z'', ''w''] None) None None False = (fs', Inr ref) \<and>
     fs_get sample_codec sample_adapter_fs fs' ''t'' ''a.tmp'' = Inl (BlobNotFound ''t'' ''a.tmp'')"
proof -
  obtain fs' ref where put: "fs_put sample_codec sample_adapter_fs 9 sample_fs ''t'' ''a''
      (Chunks [''z'', ''w''] None) None None False = (fs', Inr ref)"
    using sample_fs_put by blast
  have names: "fs_resolve sample_adapter_fs ''t'' ''a.tmp'' = Inr (with_suffix [''srv'', ''t'', ''a''] ''.tmp'')"
    "fs_resolve sample_adapter_fs ''t'' ''a.meta.json'' = Inr (with_suffix [''srv'', ''t'', ''a''] ''.meta.json'')"
    by (simp_all add: sample_fs_resolve with_suffix_def)
  from fs_put_destroys_neighbours [OF sample_adapter_fs_ok put sample_fs_resolve(1) names] put show ?thesis
    by blast
qed

lemma fs_writes_stay_in_tenant_witness:
  "map_of (fst (fs_put sample_codec sample_adapter_fs 9 sample_fs ''u'' ''c'' (Bytes ''z'') None None False))
     [''srv'', ''t'', ''a''] = Some (File ''xy'' 3)"
  using fs_writes_stay_in_tenant [OF sample_adapter_fs_ok, of "''c''" "[''srv'', ''t'', ''a'']" "''u''"
      sample_codec 9 sample_fs "Bytes ''z''" None None False]
  by (simp add: sample_parts sample_adapter_fs_def sample_fs_def strict_prefix_def)

lemma sample_fs_inv: "fs_inv sample_adapter_fs sample_fs"
  by (auto simp: fs_inv_def sample_fs_def sample_adapter_fs_def split: if_splits)

lemma fs_tenant_isolation_witness:
  "\<exists>mtime. map_of sample_fs [''srv'', ''t'', ''a''] = Some (File ''xy'' mtime)"
proof -
  let ?fs' = "fst (fs_delete sample_adapter_fs sample_fs ''u'' ''c'')"
  have run: "run_ops (fs_put_bytes sample_codec sample_adapter_fs 9) (fs_delete sample_adapter_fs) sample_fs
      [DeleteOp ''u'' ''c''] = (sample_fs, [True])"
    by (simp add: fs_delete_def sample_fs_resolve path_exists_def node_at_def sample_fs_def meta_path_def
        with_suffix_def meta_suffix_def)
  obtain d where d: "fs_get sample_codec sample_adapter_fs sample_fs ''t'' ''a'' = Inr d" "blob_bytes d = Inr ''xy''"
    by (auto simp: fs_get_def sample_fs_resolve path_exists_def node_at_def sample_fs_def load_meta_def
        meta_path_def with_suffix_def meta_suffix_def fs_stream_def blob_bytes_def concat_read_chunks)
  from fs_tenant_isolation [OF sample_fs_inv _ run sample_fs_addr(1) d] sample_fs_addr(2) show ?thesis
    by (simp add: sample_adapter_fs_def sample_parts)
qed

lemma sample_fs_list:
  "\<exists>refs. fs_list sample_codec sample_adapter_fs sample_fs ''t'' [] = (refs, None)"
  "\<exists>refs. fs_list sample_codec sample_adapter_fs sample_fs ''.'' [] = (refs, None)"
  by (simp_all add: fs_list_def tenant_dir_def is_absolute_def starts_with_def pure_parts_def sample_adapter_fs_def
      path_exists_def node_at_def sample_fs_def walk_def strict_prefix_def ends_with_def meta_suffix_def load_meta_def
      meta_path_def with_suffix_def Let_def)

lemma fs_list_yields_own_files_witness:
  "\<exists>refs. fs_list sample_codec sample_adapter_fs sample_fs ''t'' [] = (refs, None) \<and> ''a'' \<in> set (map br_key refs)"
proof -
  obtain refs where l: "fs_list sample_codec sample_adapter_fs sample_fs ''t'' [] = (refs, None)"
    using sample_fs_list by blast
  have "wf_dict sample_fs" "is_ok (fs_resolve sample_adapter_fs ''t'' [])"
    by (simp_all add: wf_dict_def sample_fs_def fs_resolve_def is_absolute_def starts_with_def pure_parts_def sample_adapter_fs_def)
  note own = fs_list_yields_own_files [OF sample_adapter_fs_ok this l]
  have "''a'' = py_join ''/'' [''a''] \<and> map_of sample_fs (fa_root sample_adapter_fs @ ''t'' # [''a'']) = Some (File ''xy'' 3) \<and>
      \<not> ends_with (last [''a'']) meta_suffix \<and> path_exists sample_fs (fa_root sample_adapter_fs @ [''t''])"
    by (simp add: sample_fs_def sample_adapter_fs_def ends_with_def starts_with_def meta_suffix_def path_exists_def node_at_def)
  then have "''a'' \<in> set (map br_key refs)"
    unfolding conjunct2 [OF own] by blast
  with l show ?thesis by blast
qed

lemma fs_list_crosses_tenants_witness:
  "\<exists>refs. fs_list sample_codec sample_adapter_fs sample_fs ''.'' [] = (refs, None) \<and> ''t/a'' \<in> set (map br_key refs)"
proof -
  obtain refs where l: "fs_list sample_codec sample_adapter_fs sample_fs ''.'' [] = (refs, None)"
    using sample_fs_list by blast
  have "wf_dict sample_fs" "path_exists sample_fs (fa_root sample_adapter_fs)"
    by (simp_all add: wf_dict_def sample_fs_def sample_adapter_fs_def path_exists_def node_at_def)
  from fs_list_crosses_tenants [OF sample_adapter_fs_ok this l, of "''t''" "[''a'']" "''xy''" 3] l show ?thesis
    by (auto simp: sample_fs_def sample_adapter_fs_def ends_with_def starts_with_def meta_suffix_def)
qed

end
