(* ===== verification/Filesystem_Tasks.thy ===== *)
theory Filesystem_Tasks
  imports Filesystem_Store
begin

text \<open>
  A put of the filesystem adapter (\<open>FilesystemAdapter.put\<close> in \<open>storage/adapters/filesystem.py\<close>) in steps: the method
  is cut at its awaits into phases, between which tasks take turns in any order. Names and files are apart, as the
  operating system keeps them: an open file goes on being written after its name has moved. A run is the list of
  the turns taken. Shown are that a put that runs alone computes \<open>fs_put\<close>, and that every put ends.
\<close>

subsection \<open>The disk\<close>

datatype dirent = DirEntry | FileEntry nat

record disk =
  dk_names :: "(path, dirent) pydict"
  dk_files :: "nat \<Rightarrow> bytes \<times> int"
  dk_next :: nat

fun node_of :: "(nat \<Rightarrow> bytes \<times> int) \<Rightarrow> dirent \<Rightarrow> node" where
  "node_of files DirEntry = Dir"
| "node_of files (FileEntry i) = File (fst (files i)) (snd (files i))"

definition tree_of :: "disk \<Rightarrow> fs" where
  "tree_of d = map (\<lambda>(p, e). (p, node_of (dk_files d) e)) (dk_names d)"

definition entry_at :: "disk \<Rightarrow> path \<Rightarrow> dirent option" where
  "entry_at d p = (if p = [] then Some DirEntry else map_of (dk_names d) p)"

fun disk_makedirs :: "disk \<Rightarrow> path \<Rightarrow> path \<Rightarrow> blob_exn + disk" where
  "disk_makedirs d done [] = Inr d"
| "disk_makedirs d done (x # xs) =
     (case entry_at d (done @ [x]) of
        None \<Rightarrow> disk_makedirs (d\<lparr>dk_names := AList.update (done @ [x]) DirEntry (dk_names d)\<rparr>) (done @ [x]) xs
      | Some DirEntry \<Rightarrow> disk_makedirs d (done @ [x]) xs
      | Some (FileEntry i) \<Rightarrow> Inl (os_error ''NotADirectoryError''))"

text \<open>\<open>open(p, "wb")\<close>: the file of that name emptied, or a new one; the number identifies the open file.\<close>

definition disk_open :: "int \<Rightarrow> disk \<Rightarrow> path \<Rightarrow> blob_exn + (disk \<times> nat)" where
  "disk_open now d p =
     (case entry_at d p of
        Some DirEntry \<Rightarrow> Inl (os_error ''IsADirectoryError'')
      | Some (FileEntry i) \<Rightarrow> Inr (d\<lparr>dk_files := (dk_files d)(i := ([], now))\<rparr>, i)
      | None \<Rightarrow> Inr (d\<lparr>dk_names := AList.update p (FileEntry (dk_next d)) (dk_names d),
                    dk_files := (dk_files d)(dk_next d := ([], now)), dk_next := Suc (dk_next d)\<rparr>, dk_next d))"

text \<open>Writing at an offset; the bytes between the end of the file and the offset are zero.\<close>

definition pwrite :: "nat \<Rightarrow> bytes \<Rightarrow> bytes \<Rightarrow> bytes" where
  "pwrite offset new old =
     take offset old @ replicate (offset - length old) (char_of (0 :: nat)) @ new @ drop (offset + length new) old"

definition disk_replace :: "disk \<Rightarrow> path \<Rightarrow> path \<Rightarrow> blob_exn + disk" where
  "disk_replace d src dst =
     (case entry_at d dst of
        Some DirEntry \<Rightarrow> Inl (os_error ''IsADirectoryError'')
      | _ \<Rightarrow>
          (case entry_at d src of
             Some (FileEntry i) \<Rightarrow> Inr (d\<lparr>dk_names := AList.update dst (FileEntry i) (AList.delete src (dk_names d))\<rparr>)
           | _ \<Rightarrow> Inl (os_error ''FileNotFoundError'')))"

definition disk_remove :: "disk \<Rightarrow> path \<Rightarrow> blob_exn + disk" where
  "disk_remove d p =
     (case entry_at d p of
        Some (FileEntry i) \<Rightarrow> Inr (d\<lparr>dk_names := AList.delete p (dk_names d)\<rparr>)
      | Some DirEntry \<Rightarrow> Inl (os_error ''IsADirectoryError'')
      | None \<Rightarrow> Inl (os_error ''FileNotFoundError''))"

subsection \<open>A put, between its awaits\<close>

text \<open>An open file with its buffer: the buffer may reach the file at any time, at the latest when it is closed.\<close>

record file_handle =
  fh_file :: nat
  fh_offset :: nat
  fh_buffer :: bytes

definition flush :: "int \<Rightarrow> nat \<Rightarrow> disk \<Rightarrow> file_handle \<Rightarrow> disk \<times> file_handle" where
  "flush now n d h =
     (let part = take n (fh_buffer h); (old, t) = dk_files d (fh_file h)
      in (if part = [] then d
          else d\<lparr>dk_files := (dk_files d)(fh_file h := (pwrite (fh_offset h) part old, now))\<rparr>,
          h\<lparr>fh_offset := fh_offset h + length part, fh_buffer := drop n (fh_buffer h)\<rparr>))"

definition close :: "int \<Rightarrow> disk \<Rightarrow> file_handle \<Rightarrow> disk" where
  "close now d h = fst (flush now (length (fh_buffer h)) d h)"

record put_request =
  pr_tenant_id :: string
  pr_key :: string
  pr_data :: payload
  pr_content_type :: "string option"
  pr_metadata :: "(string, string) pydict option"
  pr_if_none_match :: bool
  pr_now :: int

datatype put_phase =
    Waiting
  | Checked path
  | Prepared path
  | Writing path file_handle bytes "bytes list"
  | Closed path bytes
  | Cleaning path blob_exn
  | Published path bytes
  | Describing path bytes file_handle
  | Ended "blob_exn + BlobRef"
  | Abandoned

definition payload_chunks :: "payload \<Rightarrow> bytes list" where
  "payload_chunks data = (case data of Bytes b \<Rightarrow> [b] | Chunks cs e \<Rightarrow> cs)"

definition disk_cleanup :: "disk \<Rightarrow> path \<Rightarrow> blob_exn \<Rightarrow> disk \<times> put_phase" where
  "disk_cleanup d tmp exc =
     (if entry_at d tmp \<noteq> None
      then (case disk_remove d tmp of Inl e \<Rightarrow> (d, Ended (Inl e)) | Inr d' \<Rightarrow> (d', Ended (Inl exc)))
      else (d, Ended (Inl exc)))"

definition put_text :: "codec \<Rightarrow> put_request \<Rightarrow> bytes \<Rightarrow> bytes" where
  "put_text cd rq hashed = cd_dumps cd (meta_payload (pr_content_type rq)
     (case pr_metadata rq of None \<Rightarrow> [] | Some m \<Rightarrow> m) (cd_sha256 cd hashed) (int (length hashed)))"

definition put_ref :: "codec \<Rightarrow> put_request \<Rightarrow> bytes \<Rightarrow> BlobRef" where
  "put_ref cd rq hashed = \<lparr>br_tenant_id = pr_tenant_id rq, br_key = pr_key rq, br_etag = cd_sha256 cd hashed,
     br_size = int (length hashed), br_content_type = pr_content_type rq\<rparr>"

fun put_step :: "codec \<Rightarrow> fs_adapter \<Rightarrow> put_request \<Rightarrow> disk \<Rightarrow> put_phase \<Rightarrow> disk \<times> put_phase" where
  "put_step cd a rq d Waiting =
     (case fs_resolve a (pr_tenant_id rq) (pr_key rq) of
        Inl e \<Rightarrow> (d, Ended (Inl e))
      | Inr path \<Rightarrow>
          if pr_if_none_match rq \<and> entry_at d path \<noteq> None
          then (d, Ended (Inl (BlobAlreadyExists (pr_tenant_id rq) (pr_key rq))))
          else (d, Checked path))"
| "put_step cd a rq d (Checked path) =
     (case disk_makedirs d [] (butlast path) of Inl e \<Rightarrow> (d, Ended (Inl e)) | Inr d' \<Rightarrow> (d', Prepared path))"
| "put_step cd a rq d (Prepared path) =
     (case disk_open (pr_now rq) d (tmp_path path) of
        Inl e \<Rightarrow> (d, Cleaning path e)
      | Inr (d', i) \<Rightarrow>
          (d', Writing path \<lparr>fh_file = i, fh_offset = 0, fh_buffer = []\<rparr> [] (payload_chunks (pr_data rq))))"
| "put_step cd a rq d (Writing path h hashed (c # cs)) =
     (d, Writing path (h\<lparr>fh_buffer := fh_buffer h @ c\<rparr>) (hashed @ c) cs)"
| "put_step cd a rq d (Writing path h hashed []) =
     (close (pr_now rq) d h,
      case snd (payload_parts (pr_data rq)) of None \<Rightarrow> Closed path hashed | Some e \<Rightarrow> Cleaning path (StorePy e))"
| "put_step cd a rq d (Closed path hashed) =
     (case disk_replace d (tmp_path path) path of
        Inl e \<Rightarrow> disk_cleanup d (tmp_path path) e
      | Inr d' \<Rightarrow> (d', Published path hashed))"
| "put_step cd a rq d (Cleaning path e) = disk_cleanup d (tmp_path path) e"
| "put_step cd a rq d (Published path hashed) =
     (case disk_open (pr_now rq) d (meta_path path) of
        Inl e \<Rightarrow> (d, Ended (Inl e))
      | Inr (d', i) \<Rightarrow>
          (d', Describing path hashed \<lparr>fh_file = i, fh_offset = 0, fh_buffer = put_text cd rq hashed\<rparr>))"
| "put_step cd a rq d (Describing path hashed h) = (close (pr_now rq) d h, Ended (Inr (put_ref cd rq hashed)))"
| "put_step cd a rq d (Ended res) = (d, Ended res)"
| "put_step cd a rq d Abandoned = (d, Abandoned)"

text \<open>The buffer of an open file written to the disk before its time.\<close>

fun flush_step :: "put_request \<Rightarrow> nat \<Rightarrow> disk \<Rightarrow> put_phase \<Rightarrow> disk \<times> put_phase" where
  "flush_step rq n d (Writing path h hashed cs) =
     (case flush (pr_now rq) n d h of (d', h') \<Rightarrow> (d', Writing path h' hashed cs))"
| "flush_step rq n d (Describing path hashed h) =
     (case flush (pr_now rq) n d h of (d', h') \<Rightarrow> (d', Describing path hashed h'))"
| "flush_step rq n d ph = (d, ph)"

subsection \<open>Several puts\<close>

text \<open>A turn: a task goes on to its next await, a buffer is flushed, or a task is cancelled or its process killed.\<close>

datatype turn = Go nat | Flush nat nat | Abandon nat

record writers =
  wr_disk :: disk
  wr_phase :: "nat \<Rightarrow> put_phase"

definition with_task :: "writers \<Rightarrow> nat \<Rightarrow> disk \<times> put_phase \<Rightarrow> writers" where
  "with_task s n r = s\<lparr>wr_disk := fst r, wr_phase := (wr_phase s)(n := snd r)\<rparr>"

fun in_flight :: "put_phase \<Rightarrow> path option" where
  "in_flight (Checked path) = Some path"
| "in_flight (Prepared path) = Some path"
| "in_flight (Writing path h hashed cs) = Some path"
| "in_flight (Closed path hashed) = Some path"
| "in_flight (Cleaning path e) = Some path"
| "in_flight (Published path hashed) = Some path"
| "in_flight (Describing path hashed h) = Some path"
| "in_flight _ = None"

fun take_turn :: "codec \<Rightarrow> fs_adapter \<Rightarrow> (nat \<Rightarrow> put_request) \<Rightarrow> turn \<Rightarrow> writers \<Rightarrow> writers" where
  "take_turn cd a rqs (Go n) s = with_task s n (put_step cd a (rqs n) (wr_disk s) (wr_phase s n))"
| "take_turn cd a rqs (Flush n k) s = with_task s n (flush_step (rqs n) k (wr_disk s) (wr_phase s n))"
| "take_turn cd a rqs (Abandon n) s =
     with_task s n (wr_disk s, if in_flight (wr_phase s n) = None then wr_phase s n else Abandoned)"

definition writers_start :: "disk \<Rightarrow> writers" where
  "writers_start d = \<lparr>wr_disk = d, wr_phase = (\<lambda>n. Waiting)\<rparr>"

definition run_turns :: "codec \<Rightarrow> fs_adapter \<Rightarrow> (nat \<Rightarrow> put_request) \<Rightarrow> turn list \<Rightarrow> writers \<Rightarrow> writers" where
  "run_turns cd a rqs ts s = fold (take_turn cd a rqs) ts s"

text \<open>No key is written by two tasks at a time, at every moment of the run.\<close>

definition exclusive :: "writers \<Rightarrow> bool" where
  "exclusive s \<longleftrightarrow> (\<forall>n m. n \<noteq> m \<longrightarrow> in_flight (wr_phase s n) \<noteq> None \<longrightarrow>
     in_flight (wr_phase s n) \<noteq> in_flight (wr_phase s m))"

fun exclusive_run :: "codec \<Rightarrow> fs_adapter \<Rightarrow> (nat \<Rightarrow> put_request) \<Rightarrow> turn list \<Rightarrow> writers \<Rightarrow> bool" where
  "exclusive_run cd a rqs [] s = exclusive s"
| "exclusive_run cd a rqs (t # ts) s \<longleftrightarrow> exclusive s \<and> exclusive_run cd a rqs ts (take_turn cd a rqs t s)"


subsection \<open>The disk as a tree\<close>

definition disk_ok :: "disk \<Rightarrow> bool" where
  "disk_ok d \<longleftrightarrow> wf_dict (dk_names d) \<and> map_of (dk_names d) [] = None \<and>
     (\<forall>p i. map_of (dk_names d) p = Some (FileEntry i) \<longrightarrow> i < dk_next d) \<and>
     (\<forall>p q i. map_of (dk_names d) p = Some (FileEntry i) \<longrightarrow> map_of (dk_names d) q = Some (FileEntry i) \<longrightarrow> p = q)"

lemma disk_okD:
  assumes "disk_ok d"
  shows "wf_dict (dk_names d)" "map_of (dk_names d) [] = None"
    "map_of (dk_names d) p = Some (FileEntry i) \<Longrightarrow> i < dk_next d"
    "map_of (dk_names d) p = Some (FileEntry i) \<Longrightarrow> map_of (dk_names d) q = Some (FileEntry i) \<Longrightarrow> p = q"
  using assms by (auto simp: disk_ok_def)

lemma update_map_values: "AList.update k (f v) (map (\<lambda>(p, e). (p, f e)) xs) = map (\<lambda>(p, e). (p, f e)) (AList.update k v xs)"
  by (induction xs) auto

lemma delete_map_values: "AList.delete k (map (\<lambda>(p, e). (p, f e)) xs) = map (\<lambda>(p, e). (p, f e)) (AList.delete k xs)"
  by (induction xs) auto

lemma update_twice: "AList.update k v (AList.update k w xs) = AList.update k v xs"
  by (induction xs) auto

lemma update_present: "map_of xs k = Some v \<Longrightarrow> AList.update k v xs = xs"
  by (induction xs) (auto split: if_splits)

lemma map_of_map_values: "map_of (map (\<lambda>(p, e). (p, f e)) xs) k = map_option f (map_of xs k)"
  by (induction xs) auto

lemma node_at_tree: "node_at (tree_of d) p = map_option (node_of (dk_files d)) (entry_at d p)"
  by (simp add: node_at_def entry_at_def tree_of_def map_of_map_values)

lemma map_of_tree: "map_of (tree_of d) p = map_option (node_of (dk_files d)) (map_of (dk_names d) p)"
  by (simp add: tree_of_def map_of_map_values)

lemma node_of_Dir [simp]: "node_of f e = Dir \<longleftrightarrow> e = DirEntry" "Dir = node_of f e \<longleftrightarrow> e = DirEntry"
  by (cases e; simp)+

lemma tree_of_names:
  "tree_of (d\<lparr>dk_names := AList.update p e xs\<rparr>) =
     AList.update p (node_of (dk_files d) e) (tree_of (d\<lparr>dk_names := xs\<rparr>))"
  "tree_of (d\<lparr>dk_names := AList.delete p xs\<rparr>) = AList.delete p (tree_of (d\<lparr>dk_names := xs\<rparr>))"
  "tree_of (d\<lparr>dk_names := dk_names d\<rparr>) = tree_of d"
  by (simp_all add: tree_of_def update_map_values delete_map_values)

lemma tree_of_file:
  assumes "disk_ok d" "map_of (dk_names d) p = Some (FileEntry i)"
  shows "tree_of (d\<lparr>dk_files := (dk_files d)(i := (b, t))\<rparr>) = AList.update p (File b t) (tree_of d)"
proof -
  have stamp: "map (\<lambda>(q, e). (q, node_of ((dk_files d)(i := (b, t))) e)) xs =
      AList.update p (File b t) (map (\<lambda>(q, e). (q, node_of (dk_files d) e)) xs)"
    if "distinct (map fst xs)" "\<forall>(q, e) \<in> set xs. e = FileEntry i \<longrightarrow> q = p" "(p, FileEntry i) \<in> set xs" for xs
    using that
  proof (induction xs)
    case (Cons x xs)
    obtain q e where x: "x = (q, e)" by (cases x)
    show ?case
    proof (cases "q = p")
      case True
      with Cons.prems have "e = FileEntry i" "\<forall>(q, e) \<in> set xs. e \<noteq> FileEntry i"
        by (auto simp: x) (metis fst_conv image_eqI)+
      then show ?thesis
        using True by (auto simp: x intro!: map_cong) (rename_tac e', case_tac e', auto)
    next
      case False
      with Cons.prems have "e \<noteq> FileEntry i" by (auto simp: x)
      with False Cons show ?thesis by (cases e) (auto simp: x)
    qed
  qed simp
  have only: "q = p" if "(q, FileEntry i) \<in> set (dk_names d)" for q
  proof -
    have "map_of (dk_names d) q = Some (FileEntry i)"
      using that disk_okD(1) [OF assms(1)] by (simp add: wf_dict_def)
    then show ?thesis by (rule disk_okD(4) [OF assms(1) _ assms(2)])
  qed
  show ?thesis
    using stamp [OF disk_okD(1) [OF assms(1), unfolded wf_dict_def] _ map_of_SomeD [OF assms(2)]] only
    by (auto simp: tree_of_def)
qed

lemma disk_makedirs_tree:
  "disk_ok d \<Longrightarrow> rmap tree_of (disk_makedirs d done xs) = makedirs (tree_of d) done xs \<and>
     (\<forall>d'. disk_makedirs d done xs = Inr d' \<longrightarrow> disk_ok d' \<and> dk_files d' = dk_files d \<and> dk_next d' = dk_next d)"
proof (induction d "done" xs rule: disk_makedirs.induct)
  case (2 d "done" x xs)
  show ?case
  proof (cases "entry_at d (done @ [x])")
    case None
    let ?d1 = "d\<lparr>dk_names := AList.update (done @ [x]) DirEntry (dk_names d)\<rparr>"
    have "disk_ok ?d1"
      using 2(3) unfolding disk_ok_def by (auto simp: dict_simps split: if_splits)
    with 2(1) [OF None] None show ?thesis
      by (simp add: node_at_tree tree_of_names)
  next
    case (Some e)
    with 2 show ?thesis by (cases e) (simp_all add: node_at_tree)
  qed
qed simp

lemma disk_makedirs_names:
  "disk_makedirs d done xs = Inr d' \<Longrightarrow> map_of (dk_names d') q = map_of (dk_names d) q \<or>
     map_of (dk_names d) q = None \<and> map_of (dk_names d') q = Some DirEntry"
proof (induction d "done" xs rule: disk_makedirs.induct)
  case (2 d "done" x xs)
  show ?case
  proof (cases "entry_at d (done @ [x])")
    case None
    with 2(1) [OF None] 2(3) show ?thesis by (auto simp: dict_simps entry_at_def split: if_splits)
  next
    case (Some e)
    with 2 show ?thesis by (cases e) auto
  qed
qed simp

lemma disk_open_tree:
  assumes "disk_ok d" "p \<noteq> []"
  shows "disk_open now d p = Inl e \<Longrightarrow> write_file (tree_of d) p b now = Inl e"
    and "disk_open now d p = Inr (d', i) \<Longrightarrow> disk_ok d' \<and> map_of (dk_names d') p = Some (FileEntry i) \<and>
      dk_files d' i = ([], now) \<and> tree_of d' = AList.update p (File [] now) (tree_of d) \<and>
      write_file (tree_of d) p b now = Inr (AList.update p (File b now) (tree_of d))"
proof -
  show "disk_open now d p = Inl e \<Longrightarrow> write_file (tree_of d) p b now = Inl e"
    by (auto simp: disk_open_def write_file_def node_at_tree split: option.splits dirent.splits)
  assume open_ok: "disk_open now d p = Inr (d', i)"
  show "disk_ok d' \<and> map_of (dk_names d') p = Some (FileEntry i) \<and> dk_files d' i = ([], now) \<and>
      tree_of d' = AList.update p (File [] now) (tree_of d) \<and>
      write_file (tree_of d) p b now = Inr (AList.update p (File b now) (tree_of d))"
  proof (cases "entry_at d p")
    case None
    let ?d1 = "d\<lparr>dk_files := (dk_files d)(dk_next d := ([], now))\<rparr>"
    have d': "d' = d\<lparr>dk_names := AList.update p (FileEntry (dk_next d)) (dk_names d),
        dk_files := (dk_files d)(dk_next d := ([], now)), dk_next := Suc (dk_next d)\<rparr>" "i = dk_next d"
      using open_ok None by (auto simp: disk_open_def)
    have fresh: "e \<noteq> FileEntry (dk_next d)" if "(q, e) \<in> set (dk_names d)" for q e
      using disk_okD(1,3) [OF assms(1)] that by (fastforce simp: wf_dict_def)
    have same: "tree_of ?d1 = tree_of d"
      unfolding tree_of_def using fresh by (auto intro!: map_cong) (rename_tac q e, case_tac e, auto)
    have "tree_of d' = AList.update p (File [] now) (tree_of ?d1)"
      by (simp add: d' tree_of_def flip: update_map_values)
    note this [unfolded same]
    moreover have "disk_ok d'"
      using assms fresh unfolding disk_ok_def d'
      by (auto simp: dict_simps less_Suc_eq split: if_splits dest!: map_of_SomeD)
    ultimately show ?thesis
      using None by (simp add: d' dict_simps write_file_def node_at_tree)
  next
    case (Some x)
    with open_ok have x: "x = FileEntry i" "d' = d\<lparr>dk_files := (dk_files d)(i := ([], now))\<rparr>"
      by (auto simp: disk_open_def split: dirent.splits)
    with Some assms have "map_of (dk_names d) p = Some (FileEntry i)" by (simp add: entry_at_def)
    with tree_of_file [OF assms(1) this] Some x assms(1) show ?thesis
      by (simp add: disk_ok_def write_file_def node_at_tree)
  qed
qed

text \<open>An open file: its name, what has reached it, and what is in the buffer.\<close>

definition handle_at :: "int \<Rightarrow> disk \<Rightarrow> path \<Rightarrow> file_handle \<Rightarrow> bytes \<Rightarrow> bool" where
  "handle_at now d p h written \<longleftrightarrow> map_of (dk_names d) p = Some (FileEntry (fh_file h)) \<and>
     dk_files d (fh_file h) = (written, now) \<and> fh_offset h = length written"

lemma flush_facts:
  assumes "handle_at now d p h written" "flush now n d h = (d', h')"
  shows "handle_at now d' p h' (written @ take n (fh_buffer h))" "fh_buffer h' = drop n (fh_buffer h)"
    and "d' = d\<lparr>dk_files := (dk_files d)(fh_file h := (written @ take n (fh_buffer h), now))\<rparr>"
proof -
  have "d\<lparr>dk_files := (dk_files d)(fh_file h := (written, now))\<rparr> = d"
    using assms(1) by (simp add: handle_at_def fun_upd_idem)
  with assms have "handle_at now d' p h' (written @ take n (fh_buffer h)) \<and> fh_buffer h' = drop n (fh_buffer h) \<and>
      d' = d\<lparr>dk_files := (dk_files d)(fh_file h := (written @ take n (fh_buffer h), now))\<rparr>"
    by (auto simp: flush_def handle_at_def pwrite_def Let_def split: if_splits)
  then show "handle_at now d' p h' (written @ take n (fh_buffer h))" "fh_buffer h' = drop n (fh_buffer h)"
    "d' = d\<lparr>dk_files := (dk_files d)(fh_file h := (written @ take n (fh_buffer h), now))\<rparr>"
    by blast+
qed

lemma flush_tree:
  assumes "disk_ok d" "handle_at now d p h written" "flush now n d h = (d', h')"
  shows "disk_ok d'" "tree_of d' = AList.update p (File (written @ take n (fh_buffer h)) now) (tree_of d)"
  using flush_facts(3) [OF assms(2,3)] assms(1,2) tree_of_file [OF assms(1)]
  by (auto simp: handle_at_def disk_ok_def)

lemma close_facts:
  assumes "disk_ok d" "handle_at now d p h written"
  shows "disk_ok (close now d h)"
    and "close now d h = d\<lparr>dk_files := (dk_files d)(fh_file h := (written @ fh_buffer h, now))\<rparr>"
    and "tree_of (close now d h) = AList.update p (File (written @ fh_buffer h) now) (tree_of d)"
proof -
  obtain d' h' where part: "flush now (length (fh_buffer h)) d h = (d', h')" by fastforce
  from flush_tree [OF assms part] flush_facts(3) [OF assms(2) part] part
  show "disk_ok (close now d h)"
    "close now d h = d\<lparr>dk_files := (dk_files d)(fh_file h := (written @ fh_buffer h, now))\<rparr>"
    "tree_of (close now d h) = AList.update p (File (written @ fh_buffer h) now) (tree_of d)"
    by (simp_all add: close_def)
qed

lemma disk_replace_tree:
  assumes "disk_ok d" "src \<noteq> dst" "src \<noteq> []" "dst \<noteq> []"
  shows "rmap tree_of (disk_replace d src dst) = os_replace (tree_of d) src dst"
    and "disk_replace d src dst = Inr d' \<Longrightarrow> disk_ok d'"
proof -
  show "rmap tree_of (disk_replace d src dst) = os_replace (tree_of d) src dst"
    by (auto simp: disk_replace_def os_replace_def node_at_tree tree_of_names split: option.splits dirent.splits)
  show "disk_ok d'" if "disk_replace d src dst = Inr d'"
    using that assms unfolding disk_ok_def
    by (auto simp: disk_replace_def entry_at_def dict_simps split: option.splits dirent.splits if_splits)
qed

lemma disk_cleanup_tree:
  assumes "disk_ok d"
  shows "\<exists>d' x. disk_cleanup d tmp e = (d', Ended (Inl x)) \<and> cleanup (tree_of d) tmp e = (tree_of d', Inl x) \<and>
    disk_ok d'"
proof -
  have "disk_ok (d\<lparr>dk_names := AList.delete tmp (dk_names d)\<rparr>)"
    using assms unfolding disk_ok_def by (auto simp: dict_simps split: if_splits)
  with assms show ?thesis
    by (auto simp: disk_cleanup_def cleanup_def path_exists_def disk_remove_def os_remove_def node_at_tree
        tree_of_names split: option.splits dirent.splits)
qed

subsection \<open>A put that runs alone\<close>

text \<open>What the sequential model has computed when a put that began in the tree \<open>fs0\<close> has reached a phase.\<close>

definition put_prepared :: "fs_adapter \<Rightarrow> put_request \<Rightarrow> fs \<Rightarrow> path \<Rightarrow> fs \<Rightarrow> bool" where
  "put_prepared a rq fs0 path fs1 \<longleftrightarrow> fs_resolve a (pr_tenant_id rq) (pr_key rq) = Inr path \<and>
     \<not> (pr_if_none_match rq \<and> path_exists fs0 path) \<and> makedirs fs0 [] (butlast path) = Inr fs1"

definition tmp_opened :: "int \<Rightarrow> fs \<Rightarrow> path \<Rightarrow> bool" where
  "tmp_opened now fs1 path \<longleftrightarrow>
     (\<forall>b. write_file fs1 (tmp_path path) b now = Inr (AList.update (tmp_path path) (File b now) fs1))"

fun alone :: "codec \<Rightarrow> fs_adapter \<Rightarrow> put_request \<Rightarrow> fs \<Rightarrow> disk \<Rightarrow> put_phase \<Rightarrow> bool" where
  "alone cd a rq fs0 d Waiting \<longleftrightarrow> tree_of d = fs0"
| "alone cd a rq fs0 d (Checked path) \<longleftrightarrow> tree_of d = fs0 \<and>
     fs_resolve a (pr_tenant_id rq) (pr_key rq) = Inr path \<and> \<not> (pr_if_none_match rq \<and> path_exists fs0 path)"
| "alone cd a rq fs0 d (Prepared path) \<longleftrightarrow> put_prepared a rq fs0 path (tree_of d)"
| "alone cd a rq fs0 d (Writing path h hashed cs) \<longleftrightarrow> (\<exists>fs1 written. put_prepared a rq fs0 path fs1 \<and>
     tmp_opened (pr_now rq) fs1 path \<and> tree_of d = AList.update (tmp_path path) (File written (pr_now rq)) fs1 \<and>
     handle_at (pr_now rq) d (tmp_path path) h written \<and> hashed = written @ fh_buffer h \<and>
     hashed @ concat cs = fst (payload_parts (pr_data rq)))"
| "alone cd a rq fs0 d (Closed path hashed) \<longleftrightarrow> (\<exists>fs1. put_prepared a rq fs0 path fs1 \<and>
     tmp_opened (pr_now rq) fs1 path \<and> tree_of d = AList.update (tmp_path path) (File hashed (pr_now rq)) fs1 \<and>
     payload_parts (pr_data rq) = (hashed, None))"
| "alone cd a rq fs0 d (Cleaning path e) \<longleftrightarrow> (\<exists>fs1. put_prepared a rq fs0 path fs1 \<and>
     write_blob (pr_now rq) fs1 path (pr_data rq) = cleanup (tree_of d) (tmp_path path) e)"
| "alone cd a rq fs0 d (Published path hashed) \<longleftrightarrow> (\<exists>fs1. put_prepared a rq fs0 path fs1 \<and>
     write_blob (pr_now rq) fs1 path (pr_data rq) = (tree_of d, Inr hashed))"
| "alone cd a rq fs0 d (Describing path hashed h) \<longleftrightarrow> (\<exists>fs1 fs2 written. put_prepared a rq fs0 path fs1 \<and>
     write_blob (pr_now rq) fs1 path (pr_data rq) = (fs2, Inr hashed) \<and>
     tree_of d = AList.update (meta_path path) (File written (pr_now rq)) fs2 \<and>
     write_file fs2 (meta_path path) (put_text cd rq hashed) (pr_now rq) =
       Inr (AList.update (meta_path path) (File (put_text cd rq hashed) (pr_now rq)) fs2) \<and>
     handle_at (pr_now rq) d (meta_path path) h written \<and> put_text cd rq hashed = written @ fh_buffer h)"
| "alone cd a rq fs0 d (Ended res) \<longleftrightarrow> fs_put cd a (pr_now rq) fs0 (pr_tenant_id rq) (pr_key rq) (pr_data rq)
     (pr_content_type rq) (pr_metadata rq) (pr_if_none_match rq) = (tree_of d, res)"
| "alone cd a rq fs0 d Abandoned \<longleftrightarrow> False"

lemma prepared_put:
  assumes "put_prepared a rq fs0 path fs1"
  shows "fs_put cd a (pr_now rq) fs0 (pr_tenant_id rq) (pr_key rq) (pr_data rq) (pr_content_type rq)
      (pr_metadata rq) (pr_if_none_match rq) =
    (case write_blob (pr_now rq) fs1 path (pr_data rq) of
       (fs2, Inl e) \<Rightarrow> (fs2, Inl e)
     | (fs2, Inr written) \<Rightarrow>
         (case write_file fs2 (meta_path path) (put_text cd rq written) (pr_now rq) of
            Inl e \<Rightarrow> (fs2, Inl e)
          | Inr fs3 \<Rightarrow> (fs3, Inr (put_ref cd rq written))))"
  using assms by (auto simp: put_prepared_def fs_put_def put_text_def put_ref_def Let_def split: sum.splits prod.splits)

lemma payload_chunks_concat: "concat (payload_chunks data) = fst (payload_parts data)"
  by (cases data) (simp_all add: payload_chunks_def payload_parts_def)

lemma path_exists_tree: "path_exists (tree_of d) p \<longleftrightarrow> entry_at d p \<noteq> None"
  by (simp add: path_exists_def node_at_tree)

lemma alone_path:
  assumes "adapter_ok a" "put_prepared a rq fs0 path fs1"
  shows "path \<noteq> []" "tmp_path path \<noteq> []" "meta_path path \<noteq> []" "tmp_path path \<noteq> path"
proof -
  have ne: "path \<noteq> []"
    using assms fs_resolve_nonempty unfolding put_prepared_def by blast
  with companion_paths [OF this] show "path \<noteq> []" "tmp_path path \<noteq> []" "meta_path path \<noteq> []" "tmp_path path \<noteq> path"
    by blast+
qed

lemma alone_flush:
  assumes "disk_ok d" "alone cd a rq fs0 d ph" "flush_step rq n d ph = (d', ph')"
  shows "disk_ok d' \<and> alone cd a rq fs0 d' ph'"
proof (cases ph)
  case (Writing path h hashed cs)
  from assms(2) [unfolded Writing alone.simps] obtain fs1 written where at: "put_prepared a rq fs0 path fs1" "tmp_opened (pr_now rq) fs1 path"
    "tree_of d = AList.update (tmp_path path) (File written (pr_now rq)) fs1"
    "handle_at (pr_now rq) d (tmp_path path) h written" "hashed = written @ fh_buffer h"
    "hashed @ concat cs = fst (payload_parts (pr_data rq))"
    by blast
  obtain h' where h': "flush (pr_now rq) n d h = (d', h')" "ph' = Writing path h' hashed cs"
    using assms(3) Writing by (auto split: prod.splits)
  have "alone cd a rq fs0 d' (Writing path h' hashed cs)"
    unfolding alone.simps
    by (rule exI [of _ fs1], rule exI [of _ "written @ take n (fh_buffer h)"])
       (use flush_tree(2) [OF assms(1) at(4) h'(1)] flush_facts(1,2) [OF at(4) h'(1)] at in
         \<open>simp add: update_twice\<close>)
  with flush_tree(1) [OF assms(1) at(4) h'(1)] show ?thesis by (simp add: h'(2))
next
  case (Describing path hashed h)
  from assms(2) [unfolded Describing alone.simps] obtain fs1 fs2 written where at: "put_prepared a rq fs0 path fs1"
    "write_blob (pr_now rq) fs1 path (pr_data rq) = (fs2, Inr hashed)"
    "tree_of d = AList.update (meta_path path) (File written (pr_now rq)) fs2"
    "write_file fs2 (meta_path path) (put_text cd rq hashed) (pr_now rq) =
       Inr (AList.update (meta_path path) (File (put_text cd rq hashed) (pr_now rq)) fs2)"
    "handle_at (pr_now rq) d (meta_path path) h written" "put_text cd rq hashed = written @ fh_buffer h"
    by blast
  obtain h' where h': "flush (pr_now rq) n d h = (d', h')" "ph' = Describing path hashed h'"
    using assms(3) Describing by (auto split: prod.splits)
  have "alone cd a rq fs0 d' (Describing path hashed h')"
    unfolding alone.simps
    by (rule exI [of _ fs1], rule exI [of _ fs2], rule exI [of _ "written @ take n (fh_buffer h)"])
       (use flush_tree(2) [OF assms(1) at(5) h'(1)] flush_facts(1,2) [OF at(5) h'(1)] at in
         \<open>simp add: update_twice\<close>)
  with flush_tree(1) [OF assms(1) at(5) h'(1)] show ?thesis by (simp add: h'(2))
qed (use assms in auto)

lemma alone_cleanup:
  assumes "disk_ok d" "put_prepared a rq fs0 path fs1"
    and "write_blob (pr_now rq) fs1 path (pr_data rq) = cleanup (tree_of d) (tmp_path path) e"
    and "disk_cleanup d (tmp_path path) e = (d', ph')"
  shows "disk_ok d' \<and> alone cd a rq fs0 d' ph'"
proof -
  obtain x where x: "ph' = Ended (Inl x)" "cleanup (tree_of d) (tmp_path path) e = (tree_of d', Inl x :: blob_exn + bytes)"
    "disk_ok d'"
    using disk_cleanup_tree [OF assms(1), of "tmp_path path" e] assms(4) by auto
  with prepared_put [OF assms(2), of cd] assms(3) show ?thesis by simp
qed

text \<open>Writing the blob, by the outcome of its parts.\<close>

lemma write_blob_open_fails:
  "write_file fs1 (tmp_path path) (fst (payload_parts data)) now = Inl e \<Longrightarrow>
     write_blob now fs1 path data = cleanup fs1 (tmp_path path) e"
  by (simp add: write_blob_def tmp_path_def split_beta)

lemma write_blob_opened:
  assumes "tmp_opened now fs1 path" "payload_parts data = (b, raised)"
  shows "write_blob now fs1 path data =
    (let fs2 = AList.update (tmp_path path) (File b now) fs1
     in case raised of
          Some e \<Rightarrow> cleanup fs2 (tmp_path path) (StorePy e)
        | None \<Rightarrow>
            (case os_replace fs2 (tmp_path path) path of
               Inl e \<Rightarrow> cleanup fs2 (tmp_path path) e
             | Inr fs3 \<Rightarrow> (fs3, Inr b)))"
  using assms by (simp add: write_blob_def tmp_opened_def tmp_path_def Let_def split: option.split sum.split)

lemma alone_step_prepared:
  assumes "disk_ok d" "adapter_ok a" "alone cd a rq fs0 d ph" "put_step cd a rq d ph = (d', ph')" and Prepared: "ph = Prepared path"
  shows "disk_ok d' \<and> alone cd a rq fs0 d' ph'"
proof -
  from Prepared assms(3) have prep: "put_prepared a rq fs0 path (tree_of d)" by simp
  note path = alone_path [OF assms(2) prep]
  show ?thesis
  proof (cases "disk_open (pr_now rq) d (tmp_path path)")
    case (Inl e)
    from Inl Prepared assms(4) have "d' = d" "ph' = Cleaning path e" by simp_all
    with write_blob_open_fails [OF disk_open_tree(1) [OF assms(1) path(2) Inl]] assms(1) prep
    show ?thesis by (simp, blast)
  next
    case (Inr r)
    obtain i where i: "disk_open (pr_now rq) d (tmp_path path) = Inr (d', i)"
      using Inr Prepared assms(4) by (auto split: prod.splits)
    note opened = disk_open_tree(2) [OF assms(1) path(2) i]
    have "alone cd a rq fs0 d' (Writing path \<lparr>fh_file = i, fh_offset = 0, fh_buffer = []\<rparr> []
        (payload_chunks (pr_data rq)))"
      unfolding alone.simps
      by (rule exI [of _ "tree_of d"], rule exI [of _ "[]"])
         (use opened prep in \<open>simp add: tmp_opened_def handle_at_def payload_chunks_concat\<close>)
    with opened i Prepared assms(4) show ?thesis by auto
  qed
qed

lemma alone_step_writing:
  assumes "disk_ok d" "adapter_ok a" "alone cd a rq fs0 d ph" "put_step cd a rq d ph = (d', ph')" and Writing: "ph = Writing path h hashed cs"
  shows "disk_ok d' \<and> alone cd a rq fs0 d' ph'"
proof -
  from assms(3) [unfolded Writing alone.simps] obtain fs1 written where at:
    "put_prepared a rq fs0 path fs1" "tmp_opened (pr_now rq) fs1 path"
    "tree_of d = AList.update (tmp_path path) (File written (pr_now rq)) fs1"
    "handle_at (pr_now rq) d (tmp_path path) h written" "hashed = written @ fh_buffer h"
    "hashed @ concat cs = fst (payload_parts (pr_data rq))"
    by blast
  show ?thesis
  proof (cases cs)
    case Nil
    have parts: "payload_parts (pr_data rq) = (hashed, snd (payload_parts (pr_data rq)))"
      using at(6) Nil by (simp add: prod_eq_iff)
    have closed: "d' = close (pr_now rq) d h" "disk_ok d'"
      "tree_of d' = AList.update (tmp_path path) (File hashed (pr_now rq)) fs1"
      using close_facts [OF assms(1) at(4)] assms(4) Writing Nil at(3,5) by (auto simp: update_twice)
    show ?thesis
    proof (cases "snd (payload_parts (pr_data rq))")
      case None
      with closed parts at(1,2) assms(4) Writing Nil show ?thesis by auto
    next
      case (Some x)
      with write_blob_opened [OF at(2) parts] have
        "write_blob (pr_now rq) fs1 path (pr_data rq) = cleanup (tree_of d') (tmp_path path) (StorePy x)"
        by (simp add: closed(3) Let_def)
      with closed(2) at(1) assms(4) Writing Nil Some show ?thesis by auto
    qed
  next
    case (Cons c cs')
    with assms(1,4) Writing at show ?thesis by (auto simp: handle_at_def)
  qed
qed

lemma alone_step_closed:
  assumes "disk_ok d" "adapter_ok a" "alone cd a rq fs0 d ph" "put_step cd a rq d ph = (d', ph')" and Closed: "ph = Closed path hashed"
  shows "disk_ok d' \<and> alone cd a rq fs0 d' ph'"
proof -
  from assms(3) [unfolded Closed alone.simps] obtain fs1 where at:
    "put_prepared a rq fs0 path fs1" "tmp_opened (pr_now rq) fs1 path"
    "tree_of d = AList.update (tmp_path path) (File hashed (pr_now rq)) fs1"
    "payload_parts (pr_data rq) = (hashed, None)"
    by blast
  note path = alone_path [OF assms(2) at(1)]
  note moved = disk_replace_tree [OF assms(1) path(4,2,1)]
  have blob: "write_blob (pr_now rq) fs1 path (pr_data rq) =
      (case os_replace (tree_of d) (tmp_path path) path of
         Inl e \<Rightarrow> cleanup (tree_of d) (tmp_path path) e
       | Inr fs2 \<Rightarrow> (fs2, Inr hashed))"
    using write_blob_opened [OF at(2,4)] unfolding at(3) Let_def by simp
  show ?thesis
  proof (cases "disk_replace d (tmp_path path) path")
    case (Inl e)
    with moved(1) have "os_replace (tree_of d) (tmp_path path) path = Inl e" by simp
    with blob alone_cleanup [OF assms(1) at(1), of e] Inl assms(4) Closed show ?thesis by simp
  next
    case (Inr d2)
    with moved(1) have "os_replace (tree_of d) (tmp_path path) path = Inr (tree_of d2)" by simp
    with blob moved(2) [OF Inr] Inr assms(4) Closed at(1) show ?thesis by auto
  qed
qed

lemma alone_step_published:
  assumes "disk_ok d" "adapter_ok a" "alone cd a rq fs0 d ph" "put_step cd a rq d ph = (d', ph')" and Published: "ph = Published path hashed"
  shows "disk_ok d' \<and> alone cd a rq fs0 d' ph'"
proof -
  from Published obtain fs1 where at: "put_prepared a rq fs0 path fs1"
    "write_blob (pr_now rq) fs1 path (pr_data rq) = (tree_of d, Inr hashed)"
    using assms(3) by auto
  note path = alone_path [OF assms(2) at(1)]
  show ?thesis
  proof (cases "disk_open (pr_now rq) d (meta_path path)")
    case (Inl e)
    with disk_open_tree(1) [OF assms(1) path(3) Inl, of "put_text cd rq hashed"] prepared_put [OF at(1), of cd] at(2)
      assms(1,4) Published show ?thesis by auto
  next
    case (Inr r)
    obtain i where i: "disk_open (pr_now rq) d (meta_path path) = Inr (d', i)"
      using Inr Published assms(4) by (auto split: prod.splits)
    note opened = disk_open_tree(2) [OF assms(1) path(3) i, of "put_text cd rq hashed"]
    have "alone cd a rq fs0 d' (Describing path hashed
        \<lparr>fh_file = i, fh_offset = 0, fh_buffer = put_text cd rq hashed\<rparr>)"
      unfolding alone.simps
      by (rule exI [of _ fs1], rule exI [of _ "tree_of d"], rule exI [of _ "[]"])
         (use opened at in \<open>simp add: handle_at_def\<close>)
    with opened i Published assms(4) show ?thesis by auto
  qed
qed

lemma alone_step_describing:
  assumes "disk_ok d" "adapter_ok a" "alone cd a rq fs0 d ph" "put_step cd a rq d ph = (d', ph')" and Describing: "ph = Describing path hashed h"
  shows "disk_ok d' \<and> alone cd a rq fs0 d' ph'"
proof -
  from assms(3) [unfolded Describing alone.simps] obtain fs1 fs2 written where at:
    "put_prepared a rq fs0 path fs1" "write_blob (pr_now rq) fs1 path (pr_data rq) = (fs2, Inr hashed)"
    "tree_of d = AList.update (meta_path path) (File written (pr_now rq)) fs2"
    "write_file fs2 (meta_path path) (put_text cd rq hashed) (pr_now rq) =
       Inr (AList.update (meta_path path) (File (put_text cd rq hashed) (pr_now rq)) fs2)"
    "handle_at (pr_now rq) d (meta_path path) h written" "put_text cd rq hashed = written @ fh_buffer h"
    by blast
  from close_facts [OF assms(1) at(5)] prepared_put [OF at(1), of cd] at assms(4) Describing show ?thesis
    by (auto simp: update_twice)
qed

lemma alone_step:
  assumes "disk_ok d" "adapter_ok a" "alone cd a rq fs0 d ph" "put_step cd a rq d ph = (d', ph')"
  shows "disk_ok d' \<and> alone cd a rq fs0 d' ph'"
proof (cases ph)
  case Waiting
  with assms show ?thesis
    by (auto simp: fs_put_def path_exists_tree split: sum.splits if_splits)
next
  case (Checked path)
  note dirs = disk_makedirs_tree [OF assms(1), of "[]" "butlast path"]
  from Checked dirs [THEN conjunct1, symmetric] dirs [THEN conjunct2] assms show ?thesis
    by (cases "disk_makedirs d [] (butlast path)") (auto simp: put_prepared_def fs_put_def path_exists_tree)
next
  case (Prepared path)
  then show ?thesis by (rule alone_step_prepared [OF assms])
next
  case (Writing path h hashed cs)
  then show ?thesis by (rule alone_step_writing [OF assms])
next
  case (Closed path hashed)
  then show ?thesis by (rule alone_step_closed [OF assms])
next
  case (Cleaning path e)
  with alone_cleanup [OF assms(1)] assms(3,4) show ?thesis by auto
next
  case (Published path hashed)
  then show ?thesis by (rule alone_step_published [OF assms])
next
  case (Describing path hashed h)
  then show ?thesis by (rule alone_step_describing [OF assms])
qed (use assms in auto)

text \<open>The turns a put still needs, whatever happens.\<close>

fun turns_needed :: "put_request \<Rightarrow> put_phase \<Rightarrow> nat" where
  "turns_needed rq Waiting = 7 + length (payload_chunks (pr_data rq))"
| "turns_needed rq (Checked path) = 6 + length (payload_chunks (pr_data rq))"
| "turns_needed rq (Prepared path) = 5 + length (payload_chunks (pr_data rq))"
| "turns_needed rq (Writing path h hashed cs) = 4 + length cs"
| "turns_needed rq (Closed path hashed) = 3"
| "turns_needed rq (Cleaning path e) = 1"
| "turns_needed rq (Published path hashed) = 2"
| "turns_needed rq (Describing path hashed h) = 1"
| "turns_needed rq (Ended res) = 0"
| "turns_needed rq Abandoned = 0"

lemma disk_cleanup_ended: "\<exists>d' e'. disk_cleanup d tmp e = (d', Ended (Inl e'))"
  by (simp add: disk_cleanup_def split: sum.split)

lemma turns_put_step:
  assumes "put_step cd a rq d ph = (d', ph')"
  shows "turns_needed rq ph' \<le> turns_needed rq ph - 1"
proof (cases ph)
  case (Writing path h hashed cs)
  with assms show ?thesis by (cases cs) (auto split: option.splits)
next
  case (Closed path hashed)
  with assms disk_cleanup_ended [of d "tmp_path path"] show ?thesis
    by (cases "disk_replace d (tmp_path path) path") (auto, metis Pair_inject turns_needed.simps(9) zero_le)
next
  case (Cleaning path e)
  with assms disk_cleanup_ended [of d "tmp_path path" e] show ?thesis by auto
qed (use assms in \<open>auto split: sum.splits prod.splits if_splits\<close>)

lemma turns_flush_step: "flush_step rq n d ph = (d', ph') \<Longrightarrow> turns_needed rq ph' = turns_needed rq ph"
  by (cases ph) (auto split: prod.splits)

lemma with_task_simps [simp]:
  "wr_disk (with_task s n r) = fst r" "wr_phase (with_task s n r) m = (if m = n then snd r else wr_phase s m)"
  by (simp_all add: with_task_def)

lemma turns_take_turn:
  "turns_needed (rqs n) (wr_phase (take_turn cd a rqs t s) n) \<le>
     turns_needed (rqs n) (wr_phase s n) - (if t = Go n then 1 else 0)"
proof (cases t)
  case (Go m)
  obtain d' ph' where "put_step cd a (rqs m) (wr_disk s) (wr_phase s m) = (d', ph')" by fastforce
  with Go turns_put_step [OF this] show ?thesis by auto
next
  case (Flush m k)
  obtain d' ph' where "flush_step (rqs m) k (wr_disk s) (wr_phase s m) = (d', ph')" by fastforce
  with Flush turns_flush_step [OF this] show ?thesis by auto
qed auto

lemma put_turns_run:
  "turns_needed (rqs n) (wr_phase (run_turns cd a rqs ts s) n) \<le>
     turns_needed (rqs n) (wr_phase s n) - count_list ts (Go n)"
proof (induction ts arbitrary: s)
  case (Cons t ts)
  from Cons.IH [of "take_turn cd a rqs t s"] turns_take_turn [of rqs n cd a t s] show ?case
    by (auto simp: run_turns_def split: if_splits)
qed (simp add: run_turns_def)

lemma no_turns_needed: "turns_needed rq ph = 0 \<Longrightarrow> (\<exists>res. ph = Ended res) \<or> ph = Abandoned"
  by (cases ph) auto


subsection \<open>Witness\<close>

definition sample_disk :: disk where
  "sample_disk = \<lparr>dk_names = [([''srv''], DirEntry), ([''srv'', ''t''], DirEntry)], dk_files = (\<lambda>i. ([], 0)), dk_next = 0\<rparr>"

definition sample_put :: "bytes \<Rightarrow> bool \<Rightarrow> put_request" where
  "sample_put b ifn = \<lparr>pr_tenant_id = ''t'', pr_key = ''a'', pr_data = Bytes b, pr_content_type = None, pr_metadata = None,
     pr_if_none_match = ifn, pr_now = 5\<rparr>"

lemma sample_disk_ok: "disk_ok sample_disk" "fs_inv sample_adapter_fs (tree_of sample_disk)"
  by (auto simp: disk_ok_def sample_disk_def wf_dict_def fs_inv_def map_of_tree sample_adapter_fs_def split: if_splits)


end
