(* ===== verification/Filesystem_Concurrency.thy ===== *)
theory Filesystem_Concurrency
  imports Filesystem_Tasks
begin

text \<open>
  Runs of many puts of \<open>Filesystem_Tasks\<close>. Each turn is shown to keep to the files of its own key, to keep the
  invariant of the disk and never to write to a file that a reader may have open; from this follow the theorems on
  puts of different keys. Puts of one key are shown to disturb each other, by the runs in which they do.
\<close>

subsection \<open>What a put changes\<close>

definition file_view :: "disk \<Rightarrow> path \<Rightarrow> (nat \<times> bytes \<times> int) option" where
  "file_view d q =
     (case map_of (dk_names d) q of Some (FileEntry i) \<Rightarrow> Some (i, dk_files d i) | _ \<Rightarrow> None)"

definition footprint :: "path \<Rightarrow> path set" where
  "footprint p = {p, tmp_path p, meta_path p}"

text \<open>A file that is open for reading: it has a number, its bytes, and no name that a put opens for writing.\<close>

definition sealed :: "disk \<Rightarrow> nat \<Rightarrow> bool" where
  "sealed d i \<longleftrightarrow> i < dk_next d \<and>
     (\<forall>q. map_of (dk_names d) q = Some (FileEntry i) \<longrightarrow> plain_name (last q))"

definition seals :: "disk \<Rightarrow> disk \<Rightarrow> bool" where
  "seals d d' \<longleftrightarrow> (\<forall>i. sealed d i \<longrightarrow> sealed d' i \<and> dk_files d' i = dk_files d i)"

lemma file_view_Some:
  "file_view d q = Some (i, b) \<longleftrightarrow> map_of (dk_names d) q = Some (FileEntry i) \<and> dk_files d i = b"
  by (auto simp: file_view_def split: option.splits dirent.splits)

lemma file_view_cong:
  assumes "\<And>i. map_of (dk_names d') q = Some (FileEntry i) \<longleftrightarrow> map_of (dk_names d) q = Some (FileEntry i)"
    and "\<And>i. map_of (dk_names d) q = Some (FileEntry i) \<Longrightarrow> dk_files d' i = dk_files d i"
  shows "file_view d' q = file_view d q"
  using assms unfolding file_view_def
  by (cases "map_of (dk_names d) q"; cases "map_of (dk_names d') q") (auto split: dirent.splits)

lemma fs_inv_dirs:
  assumes "fs_inv a (tree_of d)" "\<And>q. map_of (dk_names d') q = Some DirEntry \<Longrightarrow> map_of (dk_names d) q = Some DirEntry"
  shows "fs_inv a (tree_of d')"
  using assms unfolding fs_inv_def by (auto simp: map_of_tree)

lemma companions_not_plain:
  assumes "p \<noteq> []"
  shows "\<not> plain_name (last (tmp_path p))" "\<not> plain_name (last (meta_path p))"
  using companion_paths [OF assms] by (simp_all add: plain_name_def)

lemma opened_effect:
  assumes "disk_ok d" "p \<noteq> []" "disk_open now d p = Inr (d', i)" "\<not> plain_name (last p)"
  shows "file_view d' q = (if q = p then Some (i, [], now) else file_view d q)"
    and "map_of (dk_names d') q = Some DirEntry \<Longrightarrow> map_of (dk_names d) q = Some DirEntry" and "seals d d'"
proof -
  have "(q \<noteq> p \<longrightarrow> file_view d' q = file_view d q) \<and> seals d d' \<and>
      (map_of (dk_names d') q = Some DirEntry \<longrightarrow> map_of (dk_names d) q = Some DirEntry)" for q
  proof (cases "entry_at d p")
    case None
    then have d': "d' = d\<lparr>dk_names := AList.update p (FileEntry (dk_next d)) (dk_names d),
        dk_files := (dk_files d)(dk_next d := ([], now)), dk_next := Suc (dk_next d)\<rparr>"
      using assms(3) by (auto simp: disk_open_def)
    have "map_of (dk_names d) q \<noteq> Some (FileEntry (dk_next d))" for q
      using disk_okD(3) [OF assms(1)] by blast
    then show ?thesis
      by (auto simp: d' file_view_def seals_def sealed_def dict_simps split: option.splits dirent.splits)
  next
    case (Some x)
    then have d': "d' = d\<lparr>dk_files := (dk_files d)(i := ([], now))\<rparr>" "map_of (dk_names d) p = Some (FileEntry i)"
      using assms(2,3) by (auto simp: disk_open_def entry_at_def split: dirent.splits)
    then show ?thesis
      using disk_okD(4) [OF assms(1)] assms(4)
      by (auto simp: d'(1) file_view_def seals_def sealed_def split: option.splits dirent.splits)
  qed
  with disk_open_tree(2) [OF assms(1-3)] show
    "file_view d' q = (if q = p then Some (i, [], now) else file_view d q)"
    "map_of (dk_names d') q = Some DirEntry \<Longrightarrow> map_of (dk_names d) q = Some DirEntry" "seals d d'"
    by (auto simp: file_view_Some)
qed

lemma flushed_effect:
  assumes "disk_ok d" "handle_at now d p h written" "\<not> plain_name (last p)"
    and "d' = d\<lparr>dk_files := (dk_files d)(fh_file h := (b, t))\<rparr>"
  shows "file_view d' q = (if q = p then Some (fh_file h, b, t) else file_view d q)"
    and "dk_names d' = dk_names d" and "seals d d'"
  using assms disk_okD(4) [OF assms(1)]
  by (auto simp: file_view_def seals_def sealed_def handle_at_def split: option.splits dirent.splits)

lemma replaced_effect:
  assumes "disk_ok d" "src \<noteq> dst" "src \<noteq> []" "dst \<noteq> []" "disk_replace d src dst = Inr d'" "\<not> plain_name (last src)"
  shows "file_view d' q = (if q = dst then file_view d src else if q = src then None else file_view d q)"
    and "map_of (dk_names d') q = Some DirEntry \<Longrightarrow> map_of (dk_names d) q = Some DirEntry" and "seals d d'"
proof -
  obtain i where d': "d' = d\<lparr>dk_names := AList.update dst (FileEntry i) (AList.delete src (dk_names d))\<rparr>"
    "map_of (dk_names d) src = Some (FileEntry i)"
    using assms(2-5) by (auto simp: disk_replace_def entry_at_def split: option.splits dirent.splits)
  show "file_view d' q = (if q = dst then file_view d src else if q = src then None else file_view d q)"
    "map_of (dk_names d') q = Some DirEntry \<Longrightarrow> map_of (dk_names d) q = Some DirEntry" "seals d d'"
    using d'(2) assms(2,6)
    by (auto simp: d'(1) file_view_def seals_def sealed_def dict_simps split: option.splits dirent.splits if_splits)
qed

lemma cleaned_effect:
  assumes "disk_cleanup d p e = (d', ph)" "p \<noteq> []"
  shows "q \<noteq> p \<Longrightarrow> file_view d' q = file_view d q"
    and "map_of (dk_names d') q = Some DirEntry \<Longrightarrow> map_of (dk_names d) q = Some DirEntry" and "seals d d'"
  using assms
  by (auto simp: disk_cleanup_def disk_remove_def file_view_def seals_def sealed_def entry_at_def dict_simps
      split: option.splits dirent.splits if_splits)

lemma prepared_effect:
  assumes "disk_ok d" "disk_makedirs d [] (butlast path) = Inr d'"
  shows "file_view d' q = file_view d q" and "seals d d'"
    and "map_of (dk_names d') q = Some DirEntry \<Longrightarrow> map_of (dk_names d) q = Some DirEntry \<or> prefix q (butlast path)"
proof -
  have tree: "rmap tree_of (disk_makedirs d [] (butlast path)) = makedirs (tree_of d) [] (butlast path)"
    and frame: "dk_files d' = dk_files d" "dk_next d' = dk_next d"
    using disk_makedirs_tree [OF assms(1), of "[]" "butlast path"] assms(2) by blast+
  from tree have "makedirs (tree_of d) [] (butlast path) = Inr (tree_of d')" by (simp add: assms(2) eq_commute)
  note dirs = makedirs_facts [OF this]
  have files: "map_of (dk_names d') q = Some (FileEntry i) \<longleftrightarrow> map_of (dk_names d) q = Some (FileEntry i)" for q i
    using disk_makedirs_names [OF assms(2), of q] by auto
  show "file_view d' q = file_view d q" "seals d d'"
    using files frame by (auto simp: seals_def sealed_def intro!: file_view_cong)
  show "map_of (dk_names d') q = Some DirEntry \<Longrightarrow> map_of (dk_names d) q = Some DirEntry \<or> prefix q (butlast path)"
    using dirs [of q] by (auto simp: map_of_tree)
qed

subsection \<open>Puts of different keys\<close>

definition request_path :: "fs_adapter \<Rightarrow> put_request \<Rightarrow> path" where
  "request_path a rq = fa_root a @ pr_tenant_id rq # pure_parts (pr_key rq)"

definition has_file :: "disk \<Rightarrow> path \<Rightarrow> bytes \<Rightarrow> int \<Rightarrow> bool" where
  "has_file d p b t \<longleftrightarrow> (\<exists>i. file_view d p = Some (i, b, t))"

definition whole_payload :: "put_request \<Rightarrow> bytes \<Rightarrow> bool" where
  "whole_payload rq b \<longleftrightarrow> payload_parts (pr_data rq) = (b, None)"

text \<open>What holds of the files of a put in each of its phases, whatever other puts do.\<close>

fun phase_ok :: "codec \<Rightarrow> put_request \<Rightarrow> disk \<Rightarrow> put_phase \<Rightarrow> bool" where
  "phase_ok cd rq d (Writing path h hashed cs) \<longleftrightarrow> (\<exists>written. handle_at (pr_now rq) d (tmp_path path) h written \<and>
     hashed = written @ fh_buffer h \<and> hashed @ concat cs = fst (payload_parts (pr_data rq)))"
| "phase_ok cd rq d (Closed path hashed) \<longleftrightarrow> has_file d (tmp_path path) hashed (pr_now rq) \<and> whole_payload rq hashed"
| "phase_ok cd rq d (Published path hashed) \<longleftrightarrow> has_file d path hashed (pr_now rq) \<and> whole_payload rq hashed"
| "phase_ok cd rq d (Describing path hashed h) \<longleftrightarrow> has_file d path hashed (pr_now rq) \<and> whole_payload rq hashed \<and>
     (\<exists>written. handle_at (pr_now rq) d (meta_path path) h written \<and> put_text cd rq hashed = written @ fh_buffer h)"
| "phase_ok cd rq d ph \<longleftrightarrow> True"

lemma handle_at_view:
  "handle_at now d p h written \<longleftrightarrow> file_view d p = Some (fh_file h, written, now) \<and> fh_offset h = length written"
  by (auto simp: handle_at_def file_view_Some)

lemma phase_ok_frame:
  assumes "\<forall>q. in_flight ph \<noteq> None \<longrightarrow> q \<in> footprint (the (in_flight ph)) \<longrightarrow> file_view d' q = file_view d q"
  shows "phase_ok cd rq d' ph = phase_ok cd rq d ph"
  using assms by (cases ph) (simp_all add: footprint_def handle_at_view has_file_def)

lemma footprints_disjoint:
  assumes "p \<noteq> p'" "p \<noteq> []" "p' \<noteq> []" "plain_name (last p)" "plain_name (last p')"
  shows "footprint p \<inter> footprint p' = {}"
proof -
  have "tmp_path p \<noteq> tmp_path p'" "meta_path p \<noteq> meta_path p'"
    using assms(1-3) companion_paths [OF assms(2)] companion_paths [OF assms(3)]
    by (metis append_butlast_last_id append_same_eq)+
  moreover have "tmp_path q \<noteq> meta_path q'" if "q \<noteq> []" "q' \<noteq> []" for q q'
  proof
    assume "tmp_path q = meta_path q'"
    with companion_paths(8) [OF that(1)] companion_paths(9) [OF that(2)]
    have "last (last q @ ''.tmp'') = last (last q' @ meta_suffix)" by simp
    then show False by (simp add: meta_suffix_def)
  qed
  moreover note plain_not_companion [OF assms(4,3)] plain_not_companion [OF assms(5,2)]
  ultimately show ?thesis
    using assms(1-3) by (auto simp: footprint_def)
qed

text \<open>One turn of one put: what it keeps, and when the blob of its key changes.\<close>

record turn_effect =
  te_before :: disk
  te_after :: disk
text \<open>
  What a turn of a put of \<open>path\<close> may do to the disk: it keeps the invariants, touches its own files only, never
  writes to a file that a reader has open, and changes the blob only by replacing it whole.
\<close>

definition turn_ok :: "fs_adapter \<Rightarrow> put_request \<Rightarrow> path \<Rightarrow> disk \<Rightarrow> disk \<Rightarrow> bool" where
  "turn_ok a rq path d d' \<longleftrightarrow> disk_ok d' \<and> fs_inv a (tree_of d') \<and> seals d d' \<and>
     (\<forall>q. q \<notin> footprint path \<longrightarrow> file_view d' q = file_view d q) \<and>
     (file_view d' path = file_view d path \<or> (\<exists>b. has_file d' path b (pr_now rq) \<and> whole_payload rq b))"

lemma turn_ok_refl: "disk_ok d \<Longrightarrow> fs_inv a (tree_of d) \<Longrightarrow> turn_ok a rq path d d"
  by (simp add: turn_ok_def seals_def)

lemma turn_okI:
  assumes "disk_ok d'" "fs_inv a (tree_of d)" "seals d d'" "\<And>q. q \<noteq> p \<Longrightarrow> file_view d' q = file_view d q"
    and "\<And>q. map_of (dk_names d') q = Some DirEntry \<Longrightarrow> map_of (dk_names d) q = Some DirEntry"
    and "p = tmp_path path \<or> p = meta_path path" "path \<noteq> []"
  shows "turn_ok a rq path d d'"
  unfolding turn_ok_def
  using assms(1,3,4,6) fs_inv_dirs [OF assms(2,5)] companion_paths [OF assms(7)] by (auto simp: footprint_def)

lemma request_facts:
  assumes "fs_addr a (pr_tenant_id rq) (pr_key rq)"
  shows "fs_resolve a (pr_tenant_id rq) (pr_key rq) = Inr (request_path a rq)" "request_path a rq \<noteq> []"
    "plain_name (last (request_path a rq))"
  using fs_addr_path [OF assms] by (simp_all add: request_path_def)

text \<open>What the parts of a step do, at the path \<open>p\<close> of the request: clean up, close, open, make directories, move in place.\<close>

lemma turn_cleanup:
  assumes "disk_ok d" "fs_inv a (tree_of d)" "fs_addr a (pr_tenant_id rq) (pr_key rq)"
    and "disk_cleanup d (tmp_path (request_path a rq)) e = (d', ph')"
  shows "turn_ok a rq (request_path a rq) d d'"
proof -
  note p = request_facts [OF assms(3)]
  show ?thesis
    using disk_cleanup_tree [OF assms(1), of "tmp_path (request_path a rq)" e] assms(4)
      cleaned_effect [OF assms(4) companion_paths(4) [OF p(2)]]
    by (intro turn_okI [OF _ assms(2) _ _ _ _ p(2), of d' "tmp_path (request_path a rq)"]) auto
qed

lemma turn_close:
  assumes "disk_ok d" "fs_inv a (tree_of d)" "fs_addr a (pr_tenant_id rq) (pr_key rq)"
    and "handle_at (pr_now rq) d q h written" "q = tmp_path (request_path a rq) \<or> q = meta_path (request_path a rq)"
  shows "turn_ok a rq (request_path a rq) d (close (pr_now rq) d h)"
proof -
  note p = request_facts [OF assms(3)]
  note companions = companion_paths [OF p(2)] companions_not_plain [OF p(2)]
  show ?thesis
    using close_facts [OF assms(1,4)] flushed_effect [OF assms(1,4) _ close_facts(2) [OF assms(1,4)]] companions assms(5)
    by (intro turn_okI [OF _ assms(2) _ _ _ assms(5) p(2)]) auto
qed

lemma turn_open:
  assumes "disk_ok d" "fs_inv a (tree_of d)" "fs_addr a (pr_tenant_id rq) (pr_key rq)"
    and "disk_open (pr_now rq) d q = Inr (d', i)" "q = tmp_path (request_path a rq) \<or> q = meta_path (request_path a rq)"
  shows "turn_ok a rq (request_path a rq) d d'"
proof -
  note p = request_facts [OF assms(3)]
  note companions = companion_paths [OF p(2)] companions_not_plain [OF p(2)]
  have "q \<noteq> []" "\<not> plain_name (last q)" using assms(5) companions by metis+
  with opened_effect [OF assms(1) this(1) assms(4) this(2)] disk_open_tree(2) [OF assms(1) this(1) assms(4)] assms(5)
  show ?thesis by (intro turn_okI [OF _ assms(2) _ _ _ assms(5) p(2)]) auto
qed

lemma turn_makedirs:
  assumes "disk_ok d" "fs_inv a (tree_of d)" "fs_addr a (pr_tenant_id rq) (pr_key rq)"
    and "disk_makedirs d [] (butlast (request_path a rq)) = Inr d'"
  shows "turn_ok a rq (request_path a rq) d d'"
proof -
  note eff = prepared_effect [OF assms(1,4)]
  have "fs_inv a (tree_of d')"
    unfolding fs_inv_def
  proof (intro allI impI)
    fix t rest
    assume rest: "rest \<noteq> []" "map_of (tree_of d') (fa_root a @ t # rest) = Some Dir"
    then have "map_of (tree_of d) (fa_root a @ t # rest) = Some Dir \<or> prefix (fa_root a @ t # rest) (butlast (request_path a rq))"
      using eff(3) by (auto simp: map_of_tree)
    with rest(1) assms(2) parents_plain [OF assms(3) rest(1)] show "plain_name (last rest)"
      unfolding fs_inv_def request_path_def by blast
  qed
  with eff disk_makedirs_tree [OF assms(1)] assms(4) show ?thesis by (auto simp: turn_ok_def)
qed

lemma turn_publish:
  assumes "disk_ok d" "fs_inv a (tree_of d)" "fs_addr a (pr_tenant_id rq) (pr_key rq)"
    and "has_file d (tmp_path (request_path a rq)) hashed (pr_now rq)" "whole_payload rq hashed"
    and "disk_replace d (tmp_path (request_path a rq)) (request_path a rq) = Inr d'"
  shows "turn_ok a rq (request_path a rq) d d'"
proof -
  let ?p = "request_path a rq"
  note p = request_facts [OF assms(3)]
  note companions = companion_paths [OF p(2)] companions_not_plain [OF p(2)]
  note eff = replaced_effect [OF assms(1) companions(1,4) p(2) assms(6) companions(10)]
  have "file_view d' ?p = file_view d (tmp_path ?p)" by (simp add: eff(1))
  with assms(4,5) have "\<exists>b. has_file d' ?p b (pr_now rq) \<and> whole_payload rq b" by (auto simp: has_file_def)
  with eff assms(6) disk_replace_tree(2) [OF assms(1) companions(1,4) p(2) assms(6)] fs_inv_dirs [OF assms(2) eff(2)]
  show ?thesis by (auto simp: turn_ok_def footprint_def)
qed

lemma put_turn_disk:
  assumes "disk_ok d" "fs_inv a (tree_of d)" "fs_addr a (pr_tenant_id rq) (pr_key rq)" "phase_ok cd rq d ph"
    and "in_flight ph \<noteq> None \<longrightarrow> in_flight ph = Some (request_path a rq)" "put_step cd a rq d ph = (d', ph')"
  shows "turn_ok a rq (request_path a rq) d d'"
proof -
  let ?p = "request_path a rq"
  note refl = turn_ok_refl [OF assms(1,2)]
  note parts = turn_cleanup [OF assms(1-3)] turn_open [OF assms(1-3)] turn_makedirs [OF assms(1-3)]
  show ?thesis
  proof (cases ph)
    case (Writing path h hashed cs)
    with assms(4,5) obtain written where "handle_at (pr_now rq) d (tmp_path ?p) h written" by auto
    with Writing assms(5,6) turn_close [OF assms(1-3), of "tmp_path ?p"] refl show ?thesis by (cases cs) auto
  next
    case (Closed path hashed)
    with assms(4,5) have "path = ?p" "has_file d (tmp_path ?p) hashed (pr_now rq)" "whole_payload rq hashed" by auto
    with Closed assms(6) parts(1) turn_publish [OF assms(1-3)] show ?thesis
      by (auto split: sum.splits)
  next
    case (Describing path hashed h)
    with assms(4,5) obtain written where "handle_at (pr_now rq) d (meta_path ?p) h written" by auto
    with Describing assms(5,6) turn_close [OF assms(1-3), of "meta_path ?p"] show ?thesis by auto
  qed (use assms(5,6) refl parts in \<open>auto split: sum.splits if_splits\<close>)
qed

lemma cleanup_phase: "disk_cleanup d tmp e = (d', ph') \<Longrightarrow> \<exists>x. ph' = Ended (Inl x)"
  by (auto simp: disk_cleanup_def split: if_splits sum.splits)

lemma put_turn_phase:
  assumes "disk_ok d" "fs_addr a (pr_tenant_id rq) (pr_key rq)" "phase_ok cd rq d ph"
    and "in_flight ph \<noteq> None \<longrightarrow> in_flight ph = Some (request_path a rq)" "put_step cd a rq d ph = (d', ph')"
  shows "phase_ok cd rq d' ph' \<and> (in_flight ph' \<noteq> None \<longrightarrow> in_flight ph' = Some (request_path a rq))"
proof -
  let ?p = "request_path a rq"
  note p = request_facts [OF assms(2)]
  note companions = companion_paths [OF p(2)] companions_not_plain [OF p(2)]
  show ?thesis
  proof (cases ph)
    case Waiting
    with assms(5) p(1) show ?thesis by (auto split: sum.splits if_splits)
  next
    case (Prepared path)
    with assms(1,4,5) show ?thesis
      by (auto simp: handle_at_view payload_chunks_concat opened_effect [OF _ companions(4) _ companions(10)]
          split: sum.splits)
  next
    case (Writing path h hashed cs)
    with assms(3,4) obtain written where at: "handle_at (pr_now rq) d (tmp_path ?p) h written"
      "hashed = written @ fh_buffer h" "hashed @ concat cs = fst (payload_parts (pr_data rq))" by auto
    note closed = close_facts(2) [OF assms(1) at(1)]
    show ?thesis
    proof (cases cs)
      case Nil
      have "has_file (close (pr_now rq) d h) (tmp_path ?p) hashed (pr_now rq)"
        using flushed_effect(1) [OF assms(1) at(1) companions(10) closed] by (simp add: has_file_def at(2))
      with Nil Writing assms(4,5) at(3) show ?thesis
        by (auto simp: whole_payload_def prod_eq_iff split: option.splits)
    next
      case (Cons c cs')
      with Writing assms(4,5) at show ?thesis by (auto simp: handle_at_def)
    qed
  next
    case (Closed path hashed)
    with assms(4) have path: "path = ?p" by simp
    show ?thesis
    proof (cases "disk_replace d (tmp_path ?p) ?p")
      case (Inl e)
      with cleanup_phase [of d "tmp_path ?p" e d' ph'] Closed assms(5) path show ?thesis by auto
    next
      case (Inr d1)
      with replaced_effect(1) [OF assms(1) companions(1,4) p(2) Inr companions(10), of ?p] Closed assms(3,5) path
      show ?thesis by (auto simp: has_file_def)
    qed
  next
    case (Cleaning path e)
    with cleanup_phase assms(5) show ?thesis by fastforce
  next
    case (Published path hashed)
    with assms(1,3,4,5) companions show ?thesis
      by (auto simp: handle_at_view has_file_def opened_effect [OF _ companions(5) _ companions(11)] split: sum.splits)
  qed (use assms(3,4,5) in \<open>auto split: sum.splits\<close>)
qed

lemma flush_turn:
  assumes "disk_ok d" "fs_inv a (tree_of d)" "fs_addr a (pr_tenant_id rq) (pr_key rq)" "phase_ok cd rq d ph"
    and "in_flight ph \<noteq> None \<longrightarrow> in_flight ph = Some (request_path a rq)" "flush_step rq n d ph = (d', ph')"
  shows "turn_ok a rq (request_path a rq) d d' \<and> phase_ok cd rq d' ph' \<and> in_flight ph' = in_flight ph"
proof -
  let ?p = "request_path a rq"
  note p = request_facts [OF assms(3)]
  note companions = companion_paths [OF p(2)] companions_not_plain [OF p(2)]
  have flushed: "turn_ok a rq ?p d d1 \<and> handle_at (pr_now rq) d1 q h' (written @ take n (fh_buffer h)) \<and>
      fh_buffer h' = drop n (fh_buffer h) \<and> (\<forall>r. r \<noteq> q \<longrightarrow> file_view d1 r = file_view d r)"
    if "handle_at (pr_now rq) d q h written" "q = tmp_path ?p \<or> q = meta_path ?p" "flush (pr_now rq) n d h = (d1, h')"
    for q h h' written d1
  proof -
    have np: "\<not> plain_name (last q)" using that(2) companions by metis
    note eff = flushed_effect [OF assms(1) that(1) np flush_facts(3) [OF that(1,3)]]
    have "turn_ok a rq ?p d d1"
      using eff flush_tree(1) [OF assms(1) that(1,3)] that(2)
      by (intro turn_okI [OF _ assms(2) _ _ _ that(2) p(2)]) auto
    with eff flush_facts(1,2) [OF that(1,3)] show ?thesis by auto
  qed
  show ?thesis
  proof (cases ph)
    case (Writing path h hashed cs)
    with assms(4,5) obtain written where at: "handle_at (pr_now rq) d (tmp_path ?p) h written"
      "hashed = written @ fh_buffer h" "hashed @ concat cs = fst (payload_parts (pr_data rq))" by auto
    obtain d1 h' where f: "flush (pr_now rq) n d h = (d1, h')" by fastforce
    with flushed [OF at(1) _ f] Writing assms(5,6) at(2,3) show ?thesis
      by (auto intro!: exI [of _ "written @ take n (fh_buffer h)"])
  next
    case (Describing path hashed h)
    with assms(4,5) obtain written where at: "handle_at (pr_now rq) d (meta_path ?p) h written"
      "put_text cd rq hashed = written @ fh_buffer h" "has_file d ?p hashed (pr_now rq)" "whole_payload rq hashed"
      by auto
    obtain d1 h' where f: "flush (pr_now rq) n d h = (d1, h')" by fastforce
    with flushed [OF at(1) _ f] Describing assms(5,6) at(2-4) companions(2) show ?thesis
      by (auto simp: has_file_def intro!: exI [of _ "written @ take n (fh_buffer h)"])
  qed (use assms turn_ok_refl [OF assms(1,2)] in auto)
qed

text \<open>The invariant of a run in which no two tasks write one key at a time.\<close>

definition writers_ok :: "codec \<Rightarrow> fs_adapter \<Rightarrow> (nat \<Rightarrow> put_request) \<Rightarrow> writers \<Rightarrow> bool" where
  "writers_ok cd a rqs s \<longleftrightarrow> disk_ok (wr_disk s) \<and> fs_inv a (tree_of (wr_disk s)) \<and>
     (\<forall>n. phase_ok cd (rqs n) (wr_disk s) (wr_phase s n) \<and>
        (in_flight (wr_phase s n) \<noteq> None \<longrightarrow> in_flight (wr_phase s n) = Some (request_path a (rqs n))))"

fun turn_task :: "turn \<Rightarrow> nat" where
  "turn_task (Go n) = n"
| "turn_task (Flush n k) = n"
| "turn_task (Abandon n) = n"

lemma idle_turn:
  assumes "in_flight (wr_phase s n) = None" "turn_task t = n"
  shows "wr_disk (take_turn cd a rqs t s) = wr_disk s"
  using assms by (cases t; cases "wr_phase s n") (auto split: sum.split)

lemma take_turn_ok:
  assumes "writers_ok cd a rqs s" "\<forall>n. fs_addr a (pr_tenant_id (rqs n)) (pr_key (rqs n))" "turn_task t = n"
  shows "turn_ok a (rqs n) (request_path a (rqs n)) (wr_disk s) (wr_disk (take_turn cd a rqs t s)) \<and>
    phase_ok cd (rqs n) (wr_disk (take_turn cd a rqs t s)) (wr_phase (take_turn cd a rqs t s) n) \<and>
    (in_flight (wr_phase (take_turn cd a rqs t s) n) \<noteq> None \<longrightarrow>
       in_flight (wr_phase (take_turn cd a rqs t s) n) = Some (request_path a (rqs n))) \<and>
    (\<forall>m. m \<noteq> n \<longrightarrow> wr_phase (take_turn cd a rqs t s) m = wr_phase s m)"
proof -
  have ok: "disk_ok (wr_disk s)" "fs_inv a (tree_of (wr_disk s))" "phase_ok cd (rqs n) (wr_disk s) (wr_phase s n)"
    "in_flight (wr_phase s n) \<noteq> None \<longrightarrow> in_flight (wr_phase s n) = Some (request_path a (rqs n))"
    using assms(1) by (simp_all add: writers_ok_def)
  have addr: "fs_addr a (pr_tenant_id (rqs n)) (pr_key (rqs n))" using assms(2) by simp
  show ?thesis
  proof (cases t)
    case (Go m)
    with assms(3) have m: "m = n" by simp
    obtain d' ph' where "put_step cd a (rqs n) (wr_disk s) (wr_phase s n) = (d', ph')" by fastforce
    with put_turn_disk [OF ok(1,2) addr ok(3,4) this] put_turn_phase [OF ok(1) addr ok(3,4) this]
    show ?thesis by (simp add: Go m)
  next
    case (Flush m k)
    with assms(3) have m: "m = n" by simp
    obtain d' ph' where "flush_step (rqs n) k (wr_disk s) (wr_phase s n) = (d', ph')" by fastforce
    with flush_turn [OF ok(1,2) addr ok(3,4) this] ok(4) show ?thesis by (simp add: Flush m)
  next
    case (Abandon m)
    with assms(3) turn_ok_refl [OF ok(1,2)] ok(3,4) show ?thesis by auto
  qed
qed

lemma take_turn_keeps:
  assumes "writers_ok cd a rqs s" "exclusive s" "\<forall>n. fs_addr a (pr_tenant_id (rqs n)) (pr_key (rqs n))"
  shows "writers_ok cd a rqs (take_turn cd a rqs t s)"
proof -
  let ?n = "turn_task t" and ?s' = "take_turn cd a rqs t s"
  note turn = take_turn_ok [OF assms(1,3) refl, of t]
  have "phase_ok cd (rqs m) (wr_disk ?s') (wr_phase ?s' m) \<and>
      (in_flight (wr_phase ?s' m) \<noteq> None \<longrightarrow> in_flight (wr_phase ?s' m) = Some (request_path a (rqs m)))" for m
  proof (cases "m = ?n")
    case False
    then have same: "wr_phase ?s' m = wr_phase s m" using turn by blast
    have old: "phase_ok cd (rqs m) (wr_disk s) (wr_phase s m)"
      "in_flight (wr_phase s m) \<noteq> None \<longrightarrow> in_flight (wr_phase s m) = Some (request_path a (rqs m))"
      using assms(1) by (simp_all add: writers_ok_def)
    have "file_view (wr_disk ?s') q = file_view (wr_disk s) q"
      if "in_flight (wr_phase s m) \<noteq> None" "q \<in> footprint (request_path a (rqs m))" for q
    proof (cases "in_flight (wr_phase s ?n) = None")
      case True
      then show ?thesis by (simp add: idle_turn [OF _ refl])
    next
      case busy: False
      then have "in_flight (wr_phase s ?n) = Some (request_path a (rqs ?n))"
        using assms(1) by (simp add: writers_ok_def)
      with busy that(1) False old(2) assms(2) have "request_path a (rqs m) \<noteq> request_path a (rqs ?n)"
        unfolding exclusive_def by metis
      from footprints_disjoint [OF this] request_facts assms(3) that(2)
      have "q \<notin> footprint (request_path a (rqs ?n))" by blast
      with turn show ?thesis by (simp add: turn_ok_def)
    qed
    with phase_ok_frame [of "wr_phase s m" "wr_disk ?s'" "wr_disk s" cd "rqs m"] old same show ?thesis by auto
  qed (use turn in blast)
  with turn show ?thesis by (simp add: writers_ok_def turn_ok_def)
qed

lemma exclusive_run_ok:
  assumes "writers_ok cd a rqs s" "\<forall>n. fs_addr a (pr_tenant_id (rqs n)) (pr_key (rqs n))" "exclusive_run cd a rqs ts s"
  shows "writers_ok cd a rqs (run_turns cd a rqs ts s)"
  using assms
proof (induction ts arbitrary: s)
  case (Cons t ts)
  with take_turn_keeps [OF Cons.prems(1) _ assms(2), of t] show ?case by (simp add: run_turns_def)
qed (simp add: run_turns_def)

lemma writers_start_ok: "disk_ok d \<Longrightarrow> fs_inv a (tree_of d) \<Longrightarrow> writers_ok cd a rqs (writers_start d)"
  by (simp add: writers_ok_def writers_start_def)

lemma exclusive_run_append:
  "exclusive_run cd a rqs (ts @ us) s \<longleftrightarrow>
     exclusive_run cd a rqs ts s \<and> exclusive_run cd a rqs us (run_turns cd a rqs ts s)"
  by (induction ts arbitrary: s) (auto simp: run_turns_def elim: exclusive_run.elims)

lemma run_turns_append: "run_turns cd a rqs (ts @ us) s = run_turns cd a rqs us (run_turns cd a rqs ts s)"
  by (simp add: run_turns_def)

lemma content_view:
  "fs_content a (tree_of d) t k = map_option (\<lambda>v. fst (snd v)) (file_view d (fa_root a @ t # pure_parts k))"
  by (auto simp: fs_content_def file_at_def file_view_def map_of_tree split: option.splits dirent.splits)

lemma run_seals:
  assumes "writers_ok cd a rqs s" "\<forall>n. fs_addr a (pr_tenant_id (rqs n)) (pr_key (rqs n))" "exclusive_run cd a rqs ts s"
  shows "seals (wr_disk s) (wr_disk (run_turns cd a rqs ts s))"
  using assms
proof (induction ts arbitrary: s)
  case (Cons t ts)
  have "seals (wr_disk s) (wr_disk (take_turn cd a rqs t s))"
    using take_turn_ok [OF Cons.prems(1,2) refl] by (simp add: turn_ok_def)
  with Cons.IH [OF take_turn_keeps [OF Cons.prems(1) _ assms(2)]] Cons.prems show ?case
    by (simp add: run_turns_def seals_def)
qed (simp add: run_turns_def seals_def)

lemma run_publishes:
  assumes "writers_ok cd a rqs s" "\<forall>n. fs_addr a (pr_tenant_id (rqs n)) (pr_key (rqs n))" "exclusive_run cd a rqs ts s"
    and "plain_name (last p)"
  shows "file_view (wr_disk (run_turns cd a rqs ts s)) p = file_view (wr_disk s) p \<or>
    (\<exists>n b. p = request_path a (rqs n) \<and> whole_payload (rqs n) b \<and>
       has_file (wr_disk (run_turns cd a rqs ts s)) p b (pr_now (rqs n)))"
  using assms(1,3)
proof (induction ts arbitrary: s)
  case (Cons t ts)
  let ?n = "turn_task t" and ?s1 = "take_turn cd a rqs t s"
  note ok = take_turn_keeps [OF Cons.prems(1) _ assms(2), of t]
  note turn = take_turn_ok [OF Cons.prems(1) assms(2) refl, of t, THEN conjunct1, unfolded turn_ok_def]
  note path = request_facts [OF assms(2) [THEN spec, of ?n]]
  have one: "file_view (wr_disk ?s1) p = file_view (wr_disk s) p \<or>
      p = request_path a (rqs ?n) \<and> (\<exists>b. has_file (wr_disk ?s1) p b (pr_now (rqs ?n)) \<and> whole_payload (rqs ?n) b)"
  proof (cases "p = request_path a (rqs ?n)")
    case False
    with plain_not_companion [OF assms(4) path(2)] have "p \<notin> footprint (request_path a (rqs ?n))"
      by (simp add: footprint_def)
    with turn show ?thesis by blast
  qed (use turn in blast)
  have "exclusive s" "exclusive_run cd a rqs ts ?s1" using Cons.prems(2) by simp_all
  from Cons.IH [OF ok [OF this(1)] this(2)] one show ?case
    by (auto simp: run_turns_def has_file_def)
qed (simp add: run_turns_def)


text \<open>A put that has ended well, as long as no other task writes its key.\<close>

definition settled :: "codec \<Rightarrow> put_request \<Rightarrow> path \<Rightarrow> disk \<Rightarrow> put_phase \<Rightarrow> bool" where
  "settled cd rq path d ph \<longleftrightarrow> (\<forall>ref. ph = Ended (Inr ref) \<longrightarrow> (\<exists>body. whole_payload rq body \<and> ref = put_ref cd rq body \<and>
     has_file d path body (pr_now rq) \<and> has_file d (meta_path path) (put_text cd rq body) (pr_now rq)))"

lemma own_turn_settles:
  assumes "disk_ok d" "fs_addr a (pr_tenant_id rq) (pr_key rq)" "phase_ok cd rq d ph"
    and "in_flight ph \<noteq> None \<longrightarrow> in_flight ph = Some (request_path a rq)" "settled cd rq (request_path a rq) d ph"
    and "put_step cd a rq d ph = (d', ph')"
  shows "settled cd rq (request_path a rq) d' ph'"
proof (cases ph)
  case (Describing path hashed h)
  let ?p = "request_path a rq"
  note p = request_facts [OF assms(2)]
  from Describing assms(3,4) obtain written where at: "handle_at (pr_now rq) d (meta_path ?p) h written"
    "put_text cd rq hashed = written @ fh_buffer h" "has_file d ?p hashed (pr_now rq)" "whole_payload rq hashed"
    by auto
  note eff = flushed_effect(1) [OF assms(1) at(1) companions_not_plain(2) [OF p(2)] close_facts(2) [OF assms(1) at(1)]]
  have "has_file d' ?p hashed (pr_now rq)" "has_file d' (meta_path ?p) (put_text cd rq hashed) (pr_now rq)"
    using Describing assms(6) at(2,3) companion_paths(2) [OF p(2)] by (auto simp: has_file_def eff)
  with Describing assms(6) at(4) show ?thesis by (auto simp: settled_def)
next
  case (Writing path h hashed cs)
  with assms(6) show ?thesis by (cases cs) (auto simp: settled_def split: option.splits)
next
  case (Closed path hashed)
  with assms(6) show ?thesis by (auto simp: settled_def disk_cleanup_def split: sum.splits if_splits)
next
  case (Cleaning path e)
  with assms(6) show ?thesis by (auto simp: settled_def disk_cleanup_def split: sum.splits if_splits)
qed (use assms(5,6) in \<open>auto simp: settled_def split: sum.splits if_splits\<close>)

lemma settled_turn:
  assumes "writers_ok cd a rqs s" "\<forall>n. fs_addr a (pr_tenant_id (rqs n)) (pr_key (rqs n))"
    and "\<forall>m. m \<noteq> n \<longrightarrow> request_path a (rqs m) \<noteq> request_path a (rqs n)"
    and "settled cd (rqs n) (request_path a (rqs n)) (wr_disk s) (wr_phase s n)"
  shows "settled cd (rqs n) (request_path a (rqs n)) (wr_disk (take_turn cd a rqs t s))
    (wr_phase (take_turn cd a rqs t s) n)"
proof (cases "turn_task t = n")
  case True
  have own: "disk_ok (wr_disk s)" "phase_ok cd (rqs n) (wr_disk s) (wr_phase s n)"
    "in_flight (wr_phase s n) \<noteq> None \<longrightarrow> in_flight (wr_phase s n) = Some (request_path a (rqs n))"
    using assms(1) by (simp_all add: writers_ok_def)
  show ?thesis
  proof (cases t)
    case (Go m)
    with own_turn_settles [OF own(1) assms(2) [THEN spec] own(2,3) assms(4) prod.collapse [symmetric]] True
    show ?thesis by simp
  next
    case (Flush m k)
    with True assms(4) show ?thesis
      by (cases "wr_phase s n") (auto simp: settled_def split: prod.splits)
  next
    case (Abandon m)
    with True assms(4) show ?thesis by (auto simp: settled_def)
  qed
next
  case False
  note turn = take_turn_ok [OF assms(1,2) refl, of t]
  have "footprint (request_path a (rqs n)) \<inter> footprint (request_path a (rqs (turn_task t))) = {}"
    using footprints_disjoint request_facts assms(2,3) False by metis
  then have "file_view (wr_disk (take_turn cd a rqs t s)) q = file_view (wr_disk s) q"
    if "q \<in> footprint (request_path a (rqs n))" for q
    using turn that unfolding turn_ok_def by blast
  with turn False assms(4) show ?thesis by (simp add: settled_def has_file_def footprint_def)
qed

lemma settled_run:
  assumes "writers_ok cd a rqs s" "\<forall>n. fs_addr a (pr_tenant_id (rqs n)) (pr_key (rqs n))"
    and "\<forall>m. m \<noteq> n \<longrightarrow> request_path a (rqs m) \<noteq> request_path a (rqs n)"
    and "settled cd (rqs n) (request_path a (rqs n)) (wr_disk s) (wr_phase s n)" "exclusive_run cd a rqs ts s"
  shows "settled cd (rqs n) (request_path a (rqs n)) (wr_disk (run_turns cd a rqs ts s))
    (wr_phase (run_turns cd a rqs ts s) n)"
  using assms(1,4,5)
proof (induction ts arbitrary: s)
  case (Cons t ts)
  with Cons.IH [OF take_turn_keeps [OF Cons.prems(1) _ assms(2)] settled_turn [OF Cons.prems(1) assms(2,3)]]
  show ?case by (simp add: run_turns_def)
qed (simp add: run_turns_def)


subsection \<open>Puts of one key\<close>

text \<open>Two puts of one key: both open the same temporary file, one renames it while the other still writes.\<close>

definition overlapping :: "turn list" where
  "overlapping = replicate 3 (Go 0) @ replicate 3 (Go 1) @ [Go 0, Go 1] @ replicate 4 (Go 0) @ replicate 2 (Go 1)"

text \<open>Two conditional puts: both find the key free before either writes.\<close>

definition both_checked :: "turn list" where
  "both_checked = [Go 0, Go 1] @ replicate 7 (Go 0) @ replicate 7 (Go 1)"

lemma run_turns_simps:
  "run_turns cd a rqs [] s = s" "run_turns cd a rqs (t # ts) s = run_turns cd a rqs ts (take_turn cd a rqs t s)"
  by (simp_all add: run_turns_def)

text \<open>The first two tasks of a run, the others still waiting.\<close>

definition two_tasks :: "disk \<Rightarrow> put_phase \<Rightarrow> put_phase \<Rightarrow> writers" where
  "two_tasks d x y = \<lparr>wr_disk = d, wr_phase = (\<lambda>_. Waiting)(0 := x, 1 := y)\<rparr>"

lemma two_tasks_simps:
  "writers_start d = two_tasks d Waiting Waiting"
  "take_turn cd a rqs (Go 0) (two_tasks d x y) = (case put_step cd a (rqs 0) d x of (d', x') \<Rightarrow> two_tasks d' x' y)"
  "take_turn cd a rqs (Go 1) (two_tasks d x y) = (case put_step cd a (rqs 1) d y of (d', y') \<Rightarrow> two_tasks d' x y')"
  "wr_disk (two_tasks d x y) = d" "wr_phase (two_tasks d x y) 0 = x" "wr_phase (two_tasks d x y) 1 = y"
  by (auto simp: two_tasks_def writers_start_def with_task_def fun_eq_iff split: prod.splits)

lemma close_at_once:
  assumes "dk_files d (fh_file h) = (old, now)" "fh_offset h \<le> length old"
  shows "close now d h =
    d\<lparr>dk_files := (dk_files d)(fh_file h := (pwrite (fh_offset h) (fh_buffer h) old, now))\<rparr>"
proof -
  have "pwrite (fh_offset h) [] old = old" using assms(2) by (simp add: pwrite_def)
  moreover have "d\<lparr>dk_files := (dk_files d)(fh_file h := (old, now))\<rparr> = d" by (simp add: assms(1) fun_upd_idem)
  ultimately show ?thesis using assms by (simp add: close_def flush_def Let_def)
qed

lemma sample_content:
  "fs_content sample_adapter_fs fs ''t'' ''a'' = map_option fst (file_at fs [''srv'', ''t'', ''a''])"
  by (simp add: fs_content_def sample_adapter_fs_def sample_parts)

lemma sample_companions:
  "tmp_path [''srv'', ''t'', ''a''] = [''srv'', ''t'', ''a.tmp'']"
  "meta_path [''srv'', ''t'', ''a''] = [''srv'', ''t'', ''a.meta.json'']"
  by (simp_all add: tmp_path_def meta_path_def with_suffix_def meta_suffix_def)

text \<open>
  Overlapping writes of one key corrupt it: with two puts of the same key in flight, there is an order of
  turns after which the first has reported success with the etag of its data, the second has failed because
  its temporary file is gone, and the blob holds the data of the second written over the data of the first.
\<close>

theorem overlapping_puts_corrupt:
  "let s = run_turns cd sample_adapter_fs (\<lambda>n. sample_put (if n = 0 then b else c) False) overlapping
       (writers_start sample_disk)
   in wr_phase s 0 = Ended (Inr (put_ref cd (sample_put b False) b)) \<and>
     wr_phase s 1 = Ended (Inl (os_error ''FileNotFoundError'')) \<and>
     fs_content sample_adapter_fs (tree_of (wr_disk s)) ''t'' ''a'' = Some (c @ drop (length c) b)"
  by (simp add: overlapping_def run_turns_simps two_tasks_simps [unfolded One_nat_def] numeral_nat sample_put_def
      sample_disk_def sample_fs_resolve sample_companions disk_open_def entry_at_def disk_replace_def
      disk_cleanup_def payload_chunks_def payload_parts_def close_at_once pwrite_def sample_content file_at_def map_of_tree)

text \<open>
  \<open>if_none_match\<close> does not exclude: the check and the write are apart, so of two conditional puts of a free key both
  can report success, and the data of the first is lost.
\<close>

theorem conditional_puts_both_succeed:
  "let s = run_turns cd sample_adapter_fs (\<lambda>n. sample_put (if n = 0 then b else c) True) both_checked
       (writers_start sample_disk)
   in wr_phase s 0 = Ended (Inr (put_ref cd (sample_put b True) b)) \<and>
     wr_phase s 1 = Ended (Inr (put_ref cd (sample_put c True) c)) \<and>
     fs_content sample_adapter_fs (tree_of (wr_disk s)) ''t'' ''a'' = Some c"
  by (simp add: both_checked_def run_turns_simps two_tasks_simps [unfolded One_nat_def] numeral_nat sample_put_def
      sample_disk_def sample_fs_resolve sample_companions disk_open_def entry_at_def disk_replace_def
      payload_chunks_def payload_parts_def close_at_once pwrite_def sample_content file_at_def map_of_tree)

text \<open>
  A reader that comes between the opening of the metadata file and its writing finds it empty: the blob is there,
  and \<open>get\<close> fails with whatever the JSON parser says of an empty text, which is no \<open>BlobStoreError\<close>.
\<close>

theorem reader_meets_empty_metadata:
  assumes "cd_loads cd [] = Inl e"
  shows "fs_get cd sample_adapter_fs (tree_of (wr_disk (run_turns cd sample_adapter_fs (\<lambda>n. sample_put b False)
      (replicate 7 (Go 0)) (writers_start sample_disk)))) ''t'' ''a'' = Inl (StorePy e)"
  using assms
  by (simp add: run_turns_simps two_tasks_simps [unfolded One_nat_def] numeral_nat sample_put_def
      sample_disk_def sample_fs_resolve sample_companions disk_open_def entry_at_def disk_replace_def
      payload_chunks_def payload_parts_def close_at_once pwrite_def fs_get_def path_exists_tree load_meta_def node_at_tree)

subsection \<open>Witnesses\<close>

text \<open>Two puts of different keys that take turns.\<close>

definition two_keys :: "nat \<Rightarrow> put_request" where
  "two_keys n = (if n = 0 then sample_put ''xy'' False
     else (sample_put ''z'' False)\<lparr>pr_tenant_id := ''u'', pr_key := ''c''\<rparr>)"

definition alternating :: "turn list" where
  "alternating = concat (replicate 8 [Go 0, Go 1])"

lemma two_keys_addr: "\<forall>n. fs_addr sample_adapter_fs (pr_tenant_id (two_keys n)) (pr_key (two_keys n))"
  using sample_fs_addr by (simp add: two_keys_def sample_put_def)

lemma two_tasks_exclusive: "exclusive (two_tasks d x y) \<longleftrightarrow> in_flight x = None \<or> in_flight x \<noteq> in_flight y"
  by (auto simp: exclusive_def two_tasks_def)

lemma sample_other_companions:
  "tmp_path [''srv'', ''u'', ''c''] = [''srv'', ''u'', ''c.tmp'']"
  "meta_path [''srv'', ''u'', ''c''] = [''srv'', ''u'', ''c.meta.json'']"
  by (simp_all add: tmp_path_def meta_path_def with_suffix_def meta_suffix_def)

lemma alternating_exclusive:
  "exclusive_run sample_codec sample_adapter_fs two_keys alternating (writers_start sample_disk)"
  by (simp add: alternating_def two_tasks_simps [unfolded One_nat_def] two_tasks_exclusive two_keys_def numeral_nat
      sample_put_def sample_disk_def sample_fs_resolve sample_companions sample_other_companions disk_open_def
      entry_at_def disk_replace_def payload_chunks_def payload_parts_def close_at_once pwrite_def
      del: take_turn.simps)

lemma alternating_ends:
  "\<exists>ref. wr_phase (run_turns sample_codec sample_adapter_fs two_keys alternating (writers_start sample_disk)) 0 = Ended (Inr ref)"
  by (simp add: alternating_def run_turns_simps two_tasks_simps [unfolded One_nat_def] two_keys_def numeral_nat
      sample_put_def sample_disk_def sample_fs_resolve sample_companions sample_other_companions disk_open_def
      entry_at_def disk_replace_def payload_chunks_def payload_parts_def close_at_once pwrite_def
      del: take_turn.simps)



lemma reader_meets_empty_metadata_witness:
  "\<exists>e. fs_get (sample_codec\<lparr>cd_loads := \<lambda>b. Inl (ValueError b)\<rparr>) sample_adapter_fs (tree_of (wr_disk
     (run_turns (sample_codec\<lparr>cd_loads := \<lambda>b. Inl (ValueError b)\<rparr>) sample_adapter_fs (\<lambda>n. sample_put ''xy'' False)
       (replicate 7 (Go 0)) (writers_start sample_disk)))) ''t'' ''a'' = Inl (StorePy e)"
  using reader_meets_empty_metadata [of "sample_codec\<lparr>cd_loads := \<lambda>b. Inl (ValueError b)\<rparr>" "ValueError []" "''xy''"]
  by auto

end
