(* ===== verification/S3_Store.thy ===== *)
theory S3_Store
  imports Blob_Port
begin

text \<open>
  The S3-compatible adapter (\<open>storage/adapters/_s3_compatible.py\<close>, \<open>minio.py\<close>, \<open>s3.py\<close>): object keys,
  the operations with their mapping of service errors, and the lazily created shared client. The
  service behind \<open>aiobotocore\<close> is a parameter, a record of its calls.
\<close>

subsection \<open>The adapter and the service\<close>

record s3_adapter =
  sa_bucket :: string
  sa_endpoint_url :: "string option"
  sa_region_name :: "string option"
  sa_access_key :: "string option"
  sa_secret_key :: "string option"
  sa_use_ssl :: bool

definition minio_adapter :: "string \<Rightarrow> string \<Rightarrow> string \<Rightarrow> string \<Rightarrow> bool \<Rightarrow> string \<Rightarrow> s3_adapter" where
  "minio_adapter endpoint_url bucket access_key secret_key use_ssl region_name =
     \<lparr>sa_bucket = bucket, sa_endpoint_url = Some endpoint_url, sa_region_name = Some region_name,
      sa_access_key = Some access_key, sa_secret_key = Some secret_key, sa_use_ssl = use_ssl\<rparr>"

definition aws_adapter :: "string \<Rightarrow> string \<Rightarrow> string option \<Rightarrow> string option \<Rightarrow> s3_adapter" where
  "aws_adapter bucket region_name access_key secret_key =
     \<lparr>sa_bucket = bucket, sa_endpoint_url = None, sa_region_name = Some region_name,
      sa_access_key = access_key, sa_secret_key = secret_key, sa_use_ssl = True\<rparr>"

text \<open>A \<open>ClientError\<close> with its error code, or any other exception of the call.\<close>

datatype s3_failure = ClientError "string option" string | OtherFailure exn

record s3_put_args =
  sp_bucket :: string
  sp_key :: string
  sp_body :: bytes
  sp_content_type :: "string option"
  sp_metadata :: "(string, string) pydict option"
  sp_if_none_match :: bool

record s3_reply =
  sr_body :: bytes
  sr_content_length :: int
  sr_content_type :: "string option"
  sr_etag :: string
  sr_last_modified :: "int option"
  sr_metadata :: "(string, string) pydict option"

record s3_listed =
  sl_key :: string
  sl_etag :: string
  sl_size :: int

text \<open>Listing yields pages and may then fail; \<open>so_connect\<close> is the creation of the client.\<close>

record 's s3_ops =
  so_connect :: "exn option"
  so_put :: "'s \<Rightarrow> s3_put_args \<Rightarrow> 's \<times> (s3_failure + string)"
  so_get :: "'s \<Rightarrow> string \<Rightarrow> string \<Rightarrow> s3_failure + s3_reply"
  so_delete :: "'s \<Rightarrow> string \<Rightarrow> string \<Rightarrow> 's \<times> (s3_failure + unit)"
  so_head :: "'s \<Rightarrow> string \<Rightarrow> string \<Rightarrow> s3_failure + s3_reply"
  so_list :: "'s \<Rightarrow> string \<Rightarrow> string \<Rightarrow> s3_listed list list \<times> s3_failure option"
  so_presign :: "string \<Rightarrow> (string, string) pydict \<Rightarrow> int \<Rightarrow> s3_failure + string"

subsection \<open>Object keys\<close>

definition object_key :: "string \<Rightarrow> string \<Rightarrow> blob_exn + string" where
  "object_key tenant_id key =
     (if tenant_id = [] \<or> CHR ''/'' \<in> set tenant_id
      then Inl (TenantIsolationError (''Invalid tenant_id: '' @ tenant_id))
      else if starts_with key ''/''
      then Inl (TenantIsolationError (''Key must not start with /: '' @ key))
      else Inr (tenant_id @ ''/'' @ key))"

definition strip_tenant :: "string \<Rightarrow> string \<Rightarrow> blob_exn + string" where
  "strip_tenant tenant_id obj_key =
     (let prefix = tenant_id @ ''/''
      in if \<not> starts_with obj_key prefix
         then Inl (TenantIsolationError (''Object key '' @ obj_key @ '' does not belong to tenant '' @ tenant_id))
         else Inr (drop (length prefix) obj_key))"

definition strip_quotes :: "string \<Rightarrow> string" where
  "strip_quotes s = strip_where (\<lambda>c. c = CHR 0x22) s"

definition chunk_size :: nat where
  "chunk_size = 1024 * 1024"

subsection \<open>Operations\<close>

definition s3_connected :: "'s s3_ops \<Rightarrow> blob_exn + unit" where
  "s3_connected ops = (case so_connect ops of None \<Rightarrow> Inr () | Some e \<Rightarrow> Inl (StorePy e))"

definition unavailable :: "string \<Rightarrow> string \<Rightarrow> blob_exn" where
  "unavailable call msg = BlobStoreUnavailable (''S3 '' @ call @ '' failed: '' @ msg)"

definition buffered :: "payload \<Rightarrow> blob_exn + bytes" where
  "buffered data =
     (case data of
        Bytes b \<Rightarrow> Inr b
      | Chunks cs None \<Rightarrow> Inr (concat cs)
      | Chunks cs (Some e) \<Rightarrow> Inl (StorePy e))"

definition s3_put ::
  "'s s3_ops \<Rightarrow> s3_adapter \<Rightarrow> 's \<Rightarrow> string \<Rightarrow> string \<Rightarrow> payload \<Rightarrow> string option
    \<Rightarrow> (string, string) pydict option \<Rightarrow> bool \<Rightarrow> 's \<times> (blob_exn + BlobRef)"
where
  "s3_put ops a s tenant_id key data content_type metadata if_none_match =
     (case rbind (object_key tenant_id key) (\<lambda>ok. rbind (buffered data)
             (\<lambda>body. rmap (\<lambda>_. (ok, body)) (s3_connected ops))) of
        Inl e \<Rightarrow> (s, Inl e)
      | Inr (ok, body) \<Rightarrow>
          (case so_put ops s
             \<lparr>sp_bucket = sa_bucket a, sp_key = ok, sp_body = body,
              sp_content_type = (if truthy content_type then content_type else None),
              sp_metadata = (if metadata = Some [] then None else metadata),
              sp_if_none_match = if_none_match\<rparr> of
             (s', Inl (ClientError code msg)) \<Rightarrow>
               if code = Some ''PreconditionFailed'' \<or> code = Some ''412''
               then (s', Inl (BlobAlreadyExists tenant_id key))
               else (s', Inl (unavailable ''put_object'' msg))
           | (s', Inl (OtherFailure e)) \<Rightarrow> (s', Inl (StorePy e))
           | (s', Inr etag) \<Rightarrow>
               (s', Inr \<lparr>br_tenant_id = tenant_id, br_key = key, br_etag = strip_quotes etag,
                        br_size = int (length body), br_content_type = content_type\<rparr>)))"

definition s3_get :: "'s s3_ops \<Rightarrow> s3_adapter \<Rightarrow> 's \<Rightarrow> string \<Rightarrow> string \<Rightarrow> blob_exn + BlobData" where
  "s3_get ops a s tenant_id key =
     rbind (object_key tenant_id key) (\<lambda>ok. rbind (s3_connected ops) (\<lambda>_.
       case so_get ops s (sa_bucket a) ok of
         Inl (ClientError code msg) \<Rightarrow>
           if code = Some ''NoSuchKey'' \<or> code = Some ''404'' then Inl (BlobNotFound tenant_id key)
           else Inl (unavailable ''get_object'' msg)
       | Inl (OtherFailure e) \<Rightarrow> Inl (StorePy e)
       | Inr r \<Rightarrow> Inr \<lparr>bl_tenant_id = tenant_id, bl_key = key, bl_size = sr_content_length r,
           bl_content_type = sr_content_type r, bl_etag = strip_quotes (sr_etag r),
           bl_stream = Inr (read_chunks chunk_size (sr_body r))\<rparr>))"

definition s3_delete ::
  "'s s3_ops \<Rightarrow> s3_adapter \<Rightarrow> 's \<Rightarrow> string \<Rightarrow> string \<Rightarrow> 's \<times> (blob_exn + unit)"
where
  "s3_delete ops a s tenant_id key =
     (case rbind (object_key tenant_id key) (\<lambda>ok. rmap (\<lambda>_. ok) (s3_connected ops)) of
        Inl e \<Rightarrow> (s, Inl e)
      | Inr ok \<Rightarrow>
          (case so_delete ops s (sa_bucket a) ok of
             (s', Inl (ClientError code msg)) \<Rightarrow> (s', Inl (unavailable ''delete_object'' msg))
           | (s', Inl (OtherFailure e)) \<Rightarrow> (s', Inl (StorePy e))
           | (s', Inr _) \<Rightarrow> (s', Inr ())))"

definition s3_head ::
  "'s s3_ops \<Rightarrow> s3_adapter \<Rightarrow> int \<Rightarrow> 's \<Rightarrow> string \<Rightarrow> string \<Rightarrow> blob_exn + BlobMetadata option"
where
  "s3_head ops a now s tenant_id key =
     rbind (object_key tenant_id key) (\<lambda>ok. rbind (s3_connected ops) (\<lambda>_.
       case so_head ops s (sa_bucket a) ok of
         Inl (ClientError code msg) \<Rightarrow>
           if code \<in> {Some ''404'', Some ''NoSuchKey'', Some ''NotFound''} then Inr None
           else Inl (unavailable ''head_object'' msg)
       | Inl (OtherFailure e) \<Rightarrow> Inl (StorePy e)
       | Inr r \<Rightarrow> Inr (Some \<lparr>bmd_tenant_id = tenant_id, bmd_key = key, bmd_size = sr_content_length r,
           bmd_etag = strip_quotes (sr_etag r),
           bmd_last_modified = (case sr_last_modified r of Some t \<Rightarrow> t | None \<Rightarrow> now),
           bmd_content_type = sr_content_type r,
           bmd_user_metadata = (case sr_metadata r of Some m \<Rightarrow> m | None \<Rightarrow> [])\<rparr>)))"

text \<open>A generator: what it has yielded, and the exception it ended with, if any.\<close>

fun list_page :: "string \<Rightarrow> s3_listed list \<Rightarrow> BlobRef list \<times> blob_exn option" where
  "list_page tenant_id [] = ([], None)"
| "list_page tenant_id (x # xs) =
     (case strip_tenant tenant_id (sl_key x) of
        Inl e \<Rightarrow> ([], Some e)
      | Inr rel_key \<Rightarrow>
          (case list_page tenant_id xs of
             (refs, e) \<Rightarrow> (\<lparr>br_tenant_id = tenant_id, br_key = rel_key, br_etag = strip_quotes (sl_etag x),
                br_size = sl_size x, br_content_type = None\<rparr> # refs, e)))"

definition s3_list ::
  "'s s3_ops \<Rightarrow> s3_adapter \<Rightarrow> 's \<Rightarrow> string \<Rightarrow> string \<Rightarrow> BlobRef list \<times> blob_exn option"
where
  "s3_list ops a s tenant_id pre =
     (case rbind (if pre \<noteq> [] then object_key tenant_id pre else Inr (tenant_id @ ''/''))
             (\<lambda>full. rmap (\<lambda>_. full) (s3_connected ops)) of
        Inl e \<Rightarrow> ([], Some e)
      | Inr full_prefix \<Rightarrow>
          (case so_list ops s (sa_bucket a) full_prefix of
             (pages, failure) \<Rightarrow>
               (case list_page tenant_id (concat pages) of
                  (refs, Some e) \<Rightarrow> (refs, Some e)
                | (refs, None) \<Rightarrow>
                    (refs, (case failure of
                        None \<Rightarrow> None
                      | Some (ClientError code msg) \<Rightarrow> Some (unavailable ''list_objects_v2'' msg)
                      | Some (OtherFailure e) \<Rightarrow> Some (StorePy e))))))"

definition s3_presigned_url ::
  "'s s3_ops \<Rightarrow> s3_adapter \<Rightarrow> string \<Rightarrow> string \<Rightarrow> string \<Rightarrow> int \<Rightarrow> string option \<Rightarrow> blob_exn + string"
where
  "s3_presigned_url ops a tenant_id key op_name ttl_seconds content_type =
     rbind (object_key tenant_id key) (\<lambda>ok.
       case map_of [(''GET'', ''get_object''), (''PUT'', ''put_object'')] op_name of
         None \<Rightarrow> Inl (BlobStoreError (''Unsupported presigned op: '' @ op_name))
       | Some s3_op \<Rightarrow>
           (let params = [(''Bucket'', sa_bucket a), (''Key'', ok)]
                  @ (if op_name = ''PUT'' \<and> truthy content_type then [(''ContentType'', the content_type)] else [])
            in rbind (s3_connected ops) (\<lambda>_.
                 case so_presign ops s3_op params ttl_seconds of
                   Inl (ClientError code msg) \<Rightarrow> Inl (unavailable ''generate_presigned_url'' msg)
                 | Inl (OtherFailure e) \<Rightarrow> Inl (StorePy e)
                 | Inr url \<Rightarrow> Inr url)))"

subsection \<open>Object keys: facts\<close>

lemma object_key_Inr:
  "object_key t k = Inr ok \<longleftrightarrow> t \<noteq> [] \<and> CHR ''/'' \<notin> set t \<and> \<not> starts_with k ''/'' \<and> ok = t @ ''/'' @ k"
  by (auto simp: object_key_def)

lemma object_key_inject:
  assumes "object_key t k = Inr ok" "object_key t' k' = Inr ok'"
  shows "ok = ok' \<longleftrightarrow> t = t' \<and> k = k'"
  using assms split_at_sep [of "CHR ''/''" t t' k k'] by (auto simp: object_key_Inr)

lemma strip_tenant_Inr: "strip_tenant t ok = Inr k \<longleftrightarrow> ok = t @ ''/'' @ k"
  by (auto simp: strip_tenant_def Let_def starts_with_iff)

text \<open>
  The object keys of the bucket keep tenants apart: every object key belongs to one tenant and
  one key, \<open>_strip_tenant\<close> recovers exactly the key of its own tenant's objects and raises
  \<open>TenantIsolationError\<close> on those of every other tenant.
\<close>

theorem object_keys_separate_tenants:
  assumes "object_key t k = Inr ok" and "object_key t' k' = Inr ok'"
  shows "(ok = ok' \<longleftrightarrow> t = t' \<and> k = k') \<and> strip_tenant t ok = Inr k \<and>
    (t' \<noteq> t \<longrightarrow> (\<exists>msg. strip_tenant t' ok = Inl (TenantIsolationError msg)))"
proof -
  have "\<exists>msg. strip_tenant t' ok = Inl (TenantIsolationError msg)" if ne: "t' \<noteq> t"
  proof (cases "strip_tenant t' ok")
    case (Inl e)
    then show ?thesis by (auto simp: strip_tenant_def Let_def split: if_splits)
  next
    case (Inr x)
    with assms ne split_at_sep [of "CHR ''/''" t t' k x] show ?thesis
      by (auto simp: object_key_Inr strip_tenant_Inr)
  qed
  with assms show ?thesis
    by (simp add: object_key_inject [OF assms] strip_tenant_Inr) (simp add: object_key_Inr)
qed

subsection \<open>The service and the contract\<close>

text \<open>
  What the adapter relies on of the service (the S3 documentation): an object is replaced as a
  whole or not at all, a read returns the stored body, a conditional write to an existing
  key fails with \<open>PreconditionFailed\<close>. \<open>objects\<close> is what a bucket holds.
\<close>

definition s3_service :: "'s s3_ops \<Rightarrow> ('s \<Rightarrow> string \<Rightarrow> string \<Rightarrow> bytes option) \<Rightarrow> bool" where
  "s3_service ops objects \<longleftrightarrow>
     (\<forall>s p s' res. so_put ops s p = (s', res) \<longrightarrow>
        objects s' = (if is_ok res
          then (objects s)(sp_bucket p := (objects s (sp_bucket p))(sp_key p \<mapsto> sp_body p)) else objects s)) \<and>
     (\<forall>s p. sp_if_none_match p \<longrightarrow> objects s (sp_bucket p) (sp_key p) \<noteq> None \<longrightarrow>
        (\<exists>s' msg. so_put ops s p = (s', Inl (ClientError (Some ''PreconditionFailed'') msg)))) \<and>
     (\<forall>s b k s' res. so_delete ops s b k = (s', res) \<longrightarrow>
        objects s' = (if is_ok res then (objects s)(b := (objects s b)(k := None)) else objects s)) \<and>
     (\<forall>s b k r. so_get ops s b k = Inr r \<longrightarrow> objects s b k = Some (sr_body r))"

definition s3_addr :: "string \<Rightarrow> string \<Rightarrow> bool" where
  "s3_addr t k \<longleftrightarrow> is_ok (object_key t k)"

definition s3_content ::
  "('s \<Rightarrow> string \<Rightarrow> string \<Rightarrow> bytes option) \<Rightarrow> s3_adapter \<Rightarrow> 's \<Rightarrow> string \<Rightarrow> string \<Rightarrow> bytes option"
where
  "s3_content objects a s t k = objects s (sa_bucket a) (t @ ''/'' @ k)"

definition s3_put_bytes ::
  "'s s3_ops \<Rightarrow> s3_adapter \<Rightarrow> 's \<Rightarrow> string \<Rightarrow> string \<Rightarrow> bytes \<Rightarrow> string option \<Rightarrow> bool \<Rightarrow> 's \<times> (blob_exn + BlobRef)"
where
  "s3_put_bytes ops a s t k b ct ifn = s3_put ops a s t k (Bytes b) ct None ifn"

lemma s3_addr_key: "s3_addr t k \<Longrightarrow> object_key t k = Inr (t @ ''/'' @ k)"
  by (auto simp: s3_addr_def object_key_def split: if_splits)

lemma s3_addr_inject:
  "s3_addr t k \<Longrightarrow> s3_addr t' k' \<Longrightarrow> t @ ''/'' @ k = t' @ ''/'' @ k' \<longleftrightarrow> t = t' \<and> k = k'"
  using object_key_inject s3_addr_key by metis

lemma s3_put_call:
  assumes "s3_addr t k" "s3_put_bytes ops a s t k b ct ifn = (s', res)"
  obtains (refused) e where "s' = s" "res = Inl e" "s3_connected ops = Inl e"
    | (failed) p f where "so_put ops s p = (s', Inl f)" "sp_key p = t @ ''/'' @ k" "sp_bucket p = sa_bucket a"
        "sp_if_none_match p = ifn" "res = (case f of ClientError code msg \<Rightarrow>
            if code = Some ''PreconditionFailed'' \<or> code = Some ''412'' then Inl (BlobAlreadyExists t k)
            else Inl (unavailable ''put_object'' msg) | OtherFailure e \<Rightarrow> Inl (StorePy e))"
    | (stored) p etag where "so_put ops s p = (s', Inr etag)" "sp_key p = t @ ''/'' @ k"
        "sp_bucket p = sa_bucket a" "sp_if_none_match p = ifn" "sp_body p = b" "is_ok res"
  using assms
  by (auto simp: s3_put_bytes_def s3_put_def s3_addr_key buffered_def
      split: sum.splits prod.splits s3_failure.splits if_splits
      elim!: rbind.elims rmap.elims)

lemma s3_put_law:
  assumes "s3_service ops objects" "s3_addr t k" "s3_put_bytes ops a s t k b ct ifn = (s', res)" "s3_addr t' k'"
  shows "s3_content objects a s' t' k' =
    (if is_ok res \<and> t' = t \<and> k' = k then Some b else s3_content objects a s t' k')"
proof -
  have svc: "objects s' = (if is_ok r
      then (objects s)(sp_bucket p := (objects s (sp_bucket p))(sp_key p \<mapsto> sp_body p)) else objects s)"
    if "so_put ops s p = (s', r)" for p r
    using assms(1) that unfolding s3_service_def by blast
  from assms(2,3) show ?thesis
  proof (cases rule: s3_put_call)
    case (failed p f)
    then have "\<not> is_ok res" by (auto split: s3_failure.splits)
    with svc [OF failed(1)] show ?thesis by (simp add: s3_content_def)
  next
    case (stored p etag)
    with svc [OF stored(1)] s3_addr_inject [OF assms(4,2)] show ?thesis
      by (simp add: s3_content_def)
  qed simp
qed

lemma s3_put_exclusive:
  assumes "s3_service ops objects" "s3_connected ops = Inr ()" "s3_addr t k" "s3_content objects a s t k \<noteq> None"
    and "s3_put_bytes ops a s t k b ct True = (s', res)"
  shows "res = Inl (BlobAlreadyExists t k)"
proof -
  have svc: "\<exists>s' msg. so_put ops s p = (s', Inl (ClientError (Some ''PreconditionFailed'') msg))"
    if "sp_if_none_match p" "objects s (sp_bucket p) (sp_key p) \<noteq> None" for p
    using assms(1) that unfolding s3_service_def by blast
  from assms(3,5) show ?thesis
  proof (cases rule: s3_put_call)
    case (refused e)
    with assms(2) show ?thesis by simp
  next
    case (failed p f)
    with svc [of p] assms(4) show ?thesis by (auto simp: s3_content_def)
  next
    case (stored p etag)
    with svc [of p] assms(4) show ?thesis by (auto simp: s3_content_def)
  qed
qed

lemma s3_delete_law:
  assumes "s3_service ops objects" "s3_addr t k" "s3_delete ops a s t k = (s', res)" "s3_addr t' k'"
  shows "s3_content objects a s' t' k' =
    (if is_ok res \<and> t' = t \<and> k' = k then None else s3_content objects a s t' k')"
proof (cases "s3_connected ops")
  case (Inl e)
  with assms(2,3) have "s' = s" "res = Inl e" by (simp_all add: s3_delete_def s3_addr_key)
  then show ?thesis by simp
next
  case conn: (Inr u)
  obtain s1 r where call: "so_delete ops s (sa_bucket a) (t @ ''/'' @ k) = (s1, r)"
    by (cases "so_delete ops s (sa_bucket a) (t @ ''/'' @ k)") auto
  have "s1 = s' \<and> is_ok res = is_ok r"
  proof (cases r)
    case (Inl f)
    with assms(2,3) conn call show ?thesis by (cases f) (auto simp: s3_delete_def s3_addr_key)
  next
    case (Inr v)
    with assms(2,3) conn call have "s1 = s'" "res = Inr ()"
      by (simp_all add: s3_delete_def s3_addr_key)
    with Inr show ?thesis by simp
  qed
  then have "s1 = s'" "is_ok res = is_ok r" by simp_all
  moreover have "objects s1 = (if is_ok r then (objects s)(sa_bucket a := (objects s (sa_bucket a))(t @ ''/'' @ k := None))
      else objects s)"
    using assms(1) call unfolding s3_service_def by blast
  ultimately show ?thesis
    using s3_addr_inject [OF assms(4,2)] by (simp add: s3_content_def)
qed

lemma s3_get_Inr:
  assumes "s3_addr t k" "s3_get ops a s t k = Inr d"
  obtains r where "so_get ops s (sa_bucket a) (t @ ''/'' @ k) = Inr r"
    "bl_tenant_id d = t" "bl_key d = k" "bl_stream d = Inr (read_chunks chunk_size (sr_body r))"
  using assms
  by (auto simp: s3_get_def s3_addr_key rbind_Inr_iff split: sum.splits s3_failure.splits if_splits)

lemma s3_get_law:
  assumes "s3_service ops objects" "s3_addr t k" "s3_get ops a s t k = Inr d"
  shows "\<exists>b. s3_content objects a s t k = Some b \<and> blob_bytes d = Inr b"
proof -
  obtain r where r: "so_get ops s (sa_bucket a) (t @ ''/'' @ k) = Inr r"
    "bl_tenant_id d = t" "bl_key d = k" "bl_stream d = Inr (read_chunks chunk_size (sr_body r))"
    using assms(2,3) by (rule s3_get_Inr)
  moreover from r(1) assms(1) have "objects s (sa_bucket a) (t @ ''/'' @ k) = Some (sr_body r)"
    unfolding s3_service_def by blast
  ultimately show ?thesis
    by (simp add: s3_content_def blob_bytes_def concat_read_chunks chunk_size_def)
qed

interpretation s3: blob_store
  "\<lambda>s. s3_service ops objects \<and> s3_connected ops = Inr ()" s3_addr "s3_content objects a"
  "s3_put_bytes ops a" "s3_get ops a" "s3_delete ops a" for ops objects a
proof (unfold_locales, goal_cases)
  case (2 s t k b ct ifn s' res t' k')
  then show ?case by (intro s3_put_law) auto
next
  case (3 s t k b ct s' res)
  then show ?case by (intro s3_put_exclusive) auto
next
  case (5 s t k s' del t' k')
  then show ?case by (intro s3_delete_law) auto
next
  case (6 s t k d b)
  then show ?case using s3_get_law [of ops objects t k a s d] by auto
qed simp_all

text \<open>
  C10. Tenant isolation on S3: whatever successful or failed writes and deletes other tenants
  perform, a tenant reads from each of its keys exactly the bytes the bucket held for it before.
\<close>

theorem s3_tenant_isolation:
  assumes "s3_service ops objects" and "s3_connected ops = Inr ()"
    and "\<forall>x \<in> set xs. is_ok (object_key (op_tenant x) (op_key x)) \<and> op_tenant x \<noteq> t"
    and "run_ops (s3_put_bytes ops a) (s3_delete ops a) s xs = (s', oks)"
    and "is_ok (object_key t k)" and "s3_get ops a s' t k = Inr d"
  shows "\<exists>b. objects s (sa_bucket a) (t @ ''/'' @ k) = Some b \<and> blob_bytes d = Inr b"
proof -
  have inv: "s3_service ops objects \<and> s3_connected ops = Inr ()" and addr: "s3_addr t k"
    using assms(1,2,5) by (simp_all add: s3_addr_def)
  obtain b where b: "blob_bytes d = Inr b"
    using s3_get_law [OF assms(1) addr assms(6)] by blast
  from s3.tenant_isolation [OF inv _ assms(4) addr assms(6) b] assms(3) b show ?thesis
    by (simp add: s3_content_def s3_addr_def)
qed

text \<open>
  Reads on S3 return what was last written: after any sequence of operations of any tenants,
  a blob read back is, chunk for chunk, the body of the last successful write to that tenant's
  key that no successful delete followed; a conditional write never replaces it.
\<close>

theorem s3_read_own_writes:
  assumes "s3_service ops objects" and "s3_connected ops = Inr ()"
    and "\<forall>x \<in> set xs. is_ok (object_key (op_tenant x) (op_key x))"
    and "run_ops (s3_put_bytes ops a) (s3_delete ops a) s xs = (s', oks)"
    and "is_ok (object_key t k)" and "s3_get ops a s' t k = Inr d"
  shows "\<exists>chunks. bl_stream d = Inr chunks \<and>
    history_content xs oks t k (objects s (sa_bucket a) (t @ ''/'' @ k)) = Some (concat chunks) \<and>
    (\<forall>c \<in> set chunks. c \<noteq> [] \<and> length c \<le> chunk_size) \<and>
    snd (s3_put_bytes ops a s' t k b ct True) = Inl (BlobAlreadyExists t k)"
proof -
  have inv: "s3_service ops objects \<and> s3_connected ops = Inr ()" using assms(1,2) by simp
  have addr: "s3_addr t k" using assms(5) by (simp add: s3_addr_def)
  obtain r :: s3_reply where stream: "bl_stream d = Inr (read_chunks chunk_size (sr_body r))"
    using s3_get_Inr [OF addr assms(6)] by blast
  then have bytes: "blob_bytes d = Inr (concat (read_chunks chunk_size (sr_body r)))"
    by (simp add: blob_bytes_def)
  have held: "history_content xs oks t k (s3_content objects a s t k) = Some (concat (read_chunks chunk_size (sr_body r)))"
    using s3.read_own_writes [OF inv _ assms(4) addr assms(6) bytes] assms(3) by (simp add: s3_addr_def)
  have "s3_content objects a s' t k \<noteq> None"
    using s3_get_law [OF assms(1) addr assms(6)] by auto
  then have "snd (s3_put_bytes ops a s' t k b ct True) = Inl (BlobAlreadyExists t k)"
    using s3_put_exclusive [OF assms(1,2) addr] by (metis prod.collapse)
  moreover have "\<forall>c \<in> set (read_chunks chunk_size (sr_body r)). c \<noteq> [] \<and> length c \<le> chunk_size"
    using read_chunks_bounds by blast
  ultimately show ?thesis
    using held stream unfolding s3_content_def by blast
qed

subsection \<open>Errors and listing\<close>

text \<open>
  Errors on S3: a service error reported as \<open>ClientError\<close> always reaches the caller as an
  error of the port's hierarchy, never as a raw one, and a missing key is \<open>BlobNotFound\<close> on
  read and \<open>None\<close> on head; but any other failure of the call, such as a connection that cannot
  be made, passes through as it is, not as \<open>BlobStoreUnavailable\<close>.
\<close>

theorem s3_get_errors:
  assumes "object_key t k = Inr ok" and "s3_connected ops = Inr ()"
    and "so_get ops s (sa_bucket a) ok = Inl f"
  shows "s3_get ops a s t k = Inl
    (case f of
       ClientError code msg \<Rightarrow>
         if code = Some ''NoSuchKey'' \<or> code = Some ''404'' then BlobNotFound t k
         else BlobStoreUnavailable (''S3 get_object failed: '' @ msg)
     | OtherFailure e \<Rightarrow> StorePy e) \<and>
    (\<forall>e. s3_get ops a s t k = Inl e \<longrightarrow> is_blob_store_error e = (\<exists>code msg. f = ClientError code msg))"
  using assms by (cases f) (auto simp: s3_get_def unavailable_def)

lemma list_page_refs:
  assumes "list_page t xs = (refs, e)"
  shows "\<exists>n. n \<le> length xs \<and> map (\<lambda>r. t @ ''/'' @ br_key r) refs = map sl_key (take n xs) \<and>
    (\<forall>r \<in> set refs. br_tenant_id r = t) \<and> (e = None \<longrightarrow> n = length xs)"
  using assms
proof (induction xs arbitrary: refs e)
  case (Cons x xs)
  show ?case
  proof (cases "strip_tenant t (sl_key x)")
    case (Inl err)
    with Cons.prems show ?thesis by (intro exI [of _ 0]) auto
  next
    case (Inr k)
    obtain refs' e' where rec: "list_page t xs = (refs', e')" by (cases "list_page t xs")
    with Cons.IH obtain n where "n \<le> length xs" "map (\<lambda>r. t @ ''/'' @ br_key r) refs' = map sl_key (take n xs)"
      "\<forall>r \<in> set refs'. br_tenant_id r = t" "e' = None \<longrightarrow> n = length xs" by blast
    with Cons.prems rec Inr show ?thesis
      by (intro exI [of _ "Suc n"]) (auto simp: strip_tenant_Inr)
  qed
qed auto

lemma list_page_own:
  assumes "\<forall>x \<in> set xs. starts_with (sl_key x) (t @ ''/'')"
  shows "snd (list_page t xs) = None"
  using assms
proof (induction xs)
  case (Cons x xs)
  then obtain k where "sl_key x = (t @ ''/'') @ k" by (auto simp: starts_with_iff)
  then have "strip_tenant t (sl_key x) = Inr k" by (simp add: strip_tenant_Inr)
  with Cons show ?case by (auto split: prod.split)
qed simp

text \<open>
  Listing on S3: every reference that is yielded carries the tenant's id and a key whose
  object key is one the service listed, in the service's order; when the service lists only
  objects under the prefix it was given, a listing by a valid tenant id yields them all unless
  the service fails.
\<close>

theorem s3_list_yields_own_objects:
  assumes "s3_list ops a s t pre = (refs, err)" and "t \<noteq> []" and "CHR ''/'' \<notin> set t"
    and "\<not> starts_with pre ''/''" and "s3_connected ops = Inr ()"
    and "so_list ops s (sa_bucket a) (t @ ''/'' @ pre) = (pages, failure)"
    and "\<forall>x \<in> set (concat pages). starts_with (sl_key x) (t @ ''/'' @ pre)"
  shows "map (\<lambda>r. t @ ''/'' @ br_key r) refs = map sl_key (concat pages) \<and>
    (\<forall>r \<in> set refs. br_tenant_id r = t \<and> starts_with (br_key r) pre) \<and>
    (err = None \<longleftrightarrow> failure = None)"
proof -
  have key: "(if pre \<noteq> [] then object_key t pre else Inr (t @ ''/'')) = Inr (t @ ''/'' @ pre)"
    using assms(2-4) by (simp add: object_key_def)
  obtain refs' e' where pg: "list_page t (concat pages) = (refs', e')"
    by (cases "list_page t (concat pages)")
  have "starts_with (sl_key x) (t @ ''/'')" if "x \<in> set (concat pages)" for x
    using assms(7) that by (auto simp: starts_with_iff)
  with list_page_own [of "concat pages" t] pg have e': "e' = None" by auto
  obtain keys: "map (\<lambda>r. t @ ''/'' @ br_key r) refs' = map sl_key (concat pages)" and
    own: "\<forall>r \<in> set refs'. br_tenant_id r = t"
    using list_page_refs [OF pg] e' by auto
  have "starts_with (br_key r) pre" if "r \<in> set refs'" for r
  proof -
    have "t @ ''/'' @ br_key r \<in> set (map sl_key (concat pages))"
      using that unfolding keys [symmetric] by force
    then obtain x where "x \<in> set (concat pages)" and eq: "t @ ''/'' @ br_key r = sl_key x"
      unfolding set_map by blast
    with assms(7) obtain u where "sl_key x = (t @ ''/'' @ pre) @ u"
      unfolding starts_with_iff by blast
    with eq show ?thesis by (simp add: starts_with_iff)
  qed
  moreover have "refs = refs'" "err = None \<longleftrightarrow> failure = None"
    using assms(1,5,6) key pg e' by (auto simp: s3_list_def split: option.splits s3_failure.splits)
  ultimately show ?thesis using keys own by simp
qed

text \<open>
  The listing does not check the tenant id when the prefix is empty: an id with a slash lists a
  subtree of another tenant.
\<close>

lemma s3_list_foreign_tenant:
  assumes "s3_connected ops = Inr ()" "so_list ops s (sa_bucket a) ''a/b/'' = ([[x]], None)" "sl_key x = ''a/b/c''"
  shows "map br_key (fst (s3_list ops a s ''a/b'' [])) = [''c''] \<and> \<not> is_ok (object_key ''a/b'' ''c'')"
  using assms by (simp add: s3_list_def strip_tenant_def starts_with_def object_key_def)

subsection \<open>The shared client\<close>

text \<open>
  \<open>_get_client\<close> under concurrency: every coroutine \<open>i\<close> runs the double-checked creation, and is
  suspended only where the code awaits (the lock, the creation of the client). Clients are
  numbered in the order of their creation; \<open>cs_open\<close> holds those on the exit stack.
\<close>

datatype client_pc = Fresh | WantLock | Creating | HasClient nat | CreateFailed

record client_state =
  cs_client :: "nat option"
  cs_lock :: "nat option"
  cs_open :: "nat list"
  cs_created :: nat
  cs_closing :: bool
  cs_closes :: nat
  cs_pc :: "nat \<Rightarrow> client_pc"

definition client_start :: client_state where
  "client_start = \<lparr>cs_client = None, cs_lock = None, cs_open = [], cs_created = 0, cs_closing = False,
     cs_closes = 0, cs_pc = (\<lambda>_. Fresh)\<rparr>"

text \<open>The first check, up to the next await.\<close>

definition first_check :: "nat \<Rightarrow> client_state \<Rightarrow> client_state" where
  "first_check i s =
     (case cs_client s of
        Some c \<Rightarrow> s\<lparr>cs_pc := (cs_pc s)(i := HasClient c)\<rparr>
      | None \<Rightarrow> s\<lparr>cs_pc := (cs_pc s)(i := WantLock)\<rparr>)"

text \<open>The lock is granted, and the second check made: its holder either leaves or creates.\<close>

definition second_check :: "nat \<Rightarrow> client_state \<Rightarrow> client_state" where
  "second_check i s =
     (case cs_client s of
        Some c \<Rightarrow> s\<lparr>cs_pc := (cs_pc s)(i := HasClient c)\<rparr>
      | None \<Rightarrow> s\<lparr>cs_lock := Some i, cs_pc := (cs_pc s)(i := Creating)\<rparr>)"

definition finish_create :: "nat \<Rightarrow> client_state \<Rightarrow> client_state" where
  "finish_create i s =
     (let c = cs_created s
      in s\<lparr>cs_client := Some c, cs_lock := None, cs_open := cs_open s @ [c], cs_created := Suc c,
           cs_pc := (cs_pc s)(i := HasClient c)\<rparr>)"

definition fail_create :: "nat \<Rightarrow> client_state \<Rightarrow> client_state" where
  "fail_create i s = s\<lparr>cs_lock := None, cs_pc := (cs_pc s)(i := CreateFailed)\<rparr>"

text \<open>
  \<open>aclose\<close>, one at a time: an empty exit stack closes without a suspension, otherwise the
  coroutine is suspended after the stack has been emptied and before the cached client is dropped.
\<close>

definition begin_close :: "client_state \<Rightarrow> client_state" where
  "begin_close s =
     (if cs_open s = [] then s\<lparr>cs_client := None\<rparr>
      else s\<lparr>cs_open := [], cs_closing := True, cs_closes := Suc (cs_closes s)\<rparr>)"

definition finish_close :: "client_state \<Rightarrow> client_state" where
  "finish_close s = s\<lparr>cs_client := None, cs_closing := False\<rparr>"

inductive client_step :: "client_state \<Rightarrow> client_state \<Rightarrow> bool" where
  cstep_first: "cs_pc s i = Fresh \<Longrightarrow> client_step s (first_check i s)"
| cstep_second: "cs_pc s i = WantLock \<Longrightarrow> cs_lock s = None \<Longrightarrow> client_step s (second_check i s)"
| cstep_create: "cs_pc s i = Creating \<Longrightarrow> client_step s (finish_create i s)"
| cstep_fail: "cs_pc s i = Creating \<Longrightarrow> client_step s (fail_create i s)"
| cstep_again: "cs_pc s i = HasClient c \<or> cs_pc s i = CreateFailed \<Longrightarrow>
    client_step s (s\<lparr>cs_pc := (cs_pc s)(i := Fresh)\<rparr>)"
| cstep_begin_close: "\<not> cs_closing s \<Longrightarrow> client_step s (begin_close s)"
| cstep_finish_close: "cs_closing s \<Longrightarrow> client_step s (finish_close s)"

inductive_cases client_stepE: "client_step s s'"

definition client_reachable :: "client_state \<Rightarrow> bool" where
  "client_reachable s \<longleftrightarrow> client_step\<^sup>*\<^sup>* client_start s"

definition lock_inv :: "client_state \<Rightarrow> bool" where
  "lock_inv s \<longleftrightarrow>
     (\<forall>i. cs_pc s i = Creating \<longleftrightarrow> cs_lock s = Some i) \<and>
     cs_open s = (case cs_client s of None \<Rightarrow> [] | Some c \<Rightarrow> if cs_closing s then [] else [c]) \<and>
     (cs_closing s \<longrightarrow> cs_client s \<noteq> None) \<and>
     (cs_lock s \<noteq> None \<longrightarrow> cs_client s = None) \<and>
     cs_created s = cs_closes s + length (cs_open s) \<and>
     (\<forall>i c. cs_pc s i = HasClient c \<longrightarrow> c < cs_created s) \<and>
     (\<forall>c. cs_client s = Some c \<longrightarrow> c < cs_created s)"

lemma lock_inv_start: "lock_inv client_start"
  by (simp add: lock_inv_def client_start_def)

lemma lock_inv_pc:
  assumes "lock_inv s" "cs_pc s i \<noteq> Creating" "x \<noteq> Creating" "\<forall>c. x = HasClient c \<longrightarrow> c < cs_created s"
  shows "lock_inv (s\<lparr>cs_pc := (cs_pc s)(i := x)\<rparr>)"
proof -
  have "(cs_pc s i = Creating) = (cs_lock s = Some i)"
    using assms(1) unfolding lock_inv_def by blast
  with assms show ?thesis
    by (cases "cs_client s") (auto simp: lock_inv_def)
qed

lemma lock_inv_step: "client_step s s' \<Longrightarrow> lock_inv s \<Longrightarrow> lock_inv s'"
proof (induction rule: client_step.induct)
  case (cstep_first s i)
  then have "\<forall>c. cs_client s = Some c \<longrightarrow> c < cs_created s" unfolding lock_inv_def by blast
  with cstep_first show ?case
    by (cases "cs_client s") (auto simp: first_check_def intro!: lock_inv_pc)
next
  case (cstep_second s i)
  then have cached: "\<forall>c. cs_client s = Some c \<longrightarrow> c < cs_created s" unfolding lock_inv_def by blast
  show ?case
  proof (cases "cs_client s")
    case None
    have "lock_inv s \<Longrightarrow> cs_lock s = None \<Longrightarrow> cs_client s = None \<Longrightarrow>
        lock_inv (s\<lparr>cs_lock := Some i, cs_pc := (cs_pc s)(i := Creating)\<rparr>)"
      by (auto simp: lock_inv_def)
    with cstep_second None show ?thesis by (simp add: second_check_def)
  next
    case (Some c)
    with cstep_second cached
    have "lock_inv (s\<lparr>cs_pc := (cs_pc s)(i := HasClient c)\<rparr>)" by (intro lock_inv_pc) simp_all
    with Some show ?thesis by (simp add: second_check_def)
  qed
next
  case (cstep_create s i)
  then have "cs_lock s = Some i" "cs_client s = None" "cs_open s = []" "\<not> cs_closing s"
    by (auto simp: lock_inv_def)
  with cstep_create show ?case
    by (auto simp: lock_inv_def finish_create_def Let_def less_Suc_eq)
next
  case (cstep_fail s i)
  then have "cs_lock s = Some i" by (auto simp: lock_inv_def)
  with cstep_fail show ?case
    by (auto simp: lock_inv_def fail_create_def)
next
  case (cstep_again s i c)
  then show ?case by (auto intro!: lock_inv_pc)
next
  case (cstep_begin_close s)
  then show ?case
    by (cases "cs_client s") (auto simp: lock_inv_def begin_close_def)
next
  case (cstep_finish_close s)
  then show ?case
    by (cases "cs_client s") (auto simp: lock_inv_def finish_close_def)
qed

text \<open>
  C39. The shared S3 client never leaks, under every interleaving of operations that ask for it,
  failed creations and closes: at most one client is open, it is the cached one, every other
  client ever created has been closed, and as long as nothing was closed all operations hold the
  same client.
\<close>

theorem shared_client_never_leaks:
  assumes "client_reachable s"
  shows "length (cs_open s) \<le> 1 \<and> (\<forall>c \<in> set (cs_open s). cs_client s = Some c) \<and>
    cs_created s = cs_closes s + length (cs_open s) \<and>
    (cs_closes s = 0 \<longrightarrow> (\<forall>i j c d. cs_pc s i = HasClient c \<and> cs_pc s j = HasClient d \<longrightarrow> c = d))"
proof -
  have inv: "lock_inv s"
    using assms unfolding client_reachable_def
    by (induction rule: rtranclp_induct) (auto intro: lock_inv_start lock_inv_step)
  then have "length (cs_open s) \<le> 1 \<and> (\<forall>c \<in> set (cs_open s). cs_client s = Some c)"
    by (auto simp: lock_inv_def split: option.splits)
  moreover have count: "cs_created s = cs_closes s + length (cs_open s)"
    using inv by (simp add: lock_inv_def)
  moreover have "c = 0" if "cs_closes s = 0" "cs_pc s i = HasClient c" for i c
  proof -
    have "c < cs_created s"
      using inv that(2) unfolding lock_inv_def by blast
    with count that(1) calculation(1) show ?thesis by linarith
  qed
  ultimately show ?thesis by metis
qed

subsection \<open>Witnesses\<close>

text \<open>A service over a map from buckets and keys to bodies.\<close>

type_synonym sample_objects = "string \<Rightarrow> string \<Rightarrow> bytes option"

definition sample_s3 :: "sample_objects s3_ops" where
  "sample_s3 = \<lparr>so_connect = None,
     so_put = (\<lambda>s p. if sp_if_none_match p \<and> s (sp_bucket p) (sp_key p) \<noteq> None
        then (s, Inl (ClientError (Some ''PreconditionFailed'') []))
        else (s(sp_bucket p := (s (sp_bucket p))(sp_key p \<mapsto> sp_body p)), Inr ''e'')),
     so_get = (\<lambda>s b k. case s b k of
        None \<Rightarrow> Inl (ClientError (Some ''NoSuchKey'') [])
      | Some body \<Rightarrow> Inr \<lparr>sr_body = body, sr_content_length = int (length body), sr_content_type = None,
          sr_etag = ''e'', sr_last_modified = None, sr_metadata = None\<rparr>),
     so_delete = (\<lambda>s b k. (s(b := (s b)(k := None)), Inr ())),
     so_head = (\<lambda>s b k. Inl (ClientError (Some ''404'') [])),
     so_list = (\<lambda>s b p. ([[\<lparr>sl_key = ''t/a/x'', sl_etag = ''e'', sl_size = 1\<rparr>]], None)),
     so_presign = (\<lambda>op ps ttl. Inr ''http://minio'')\<rparr>"

definition sample_s3_adapter :: s3_adapter where
  "sample_s3_adapter = minio_adapter ''http://minio:9000'' ''blobs'' ''k'' ''s'' False ''us-east-1''"

lemma sample_s3_service: "s3_service sample_s3 (\<lambda>s. s)" "s3_connected sample_s3 = Inr ()"
proof -
  show "s3_service sample_s3 (\<lambda>s. s)"
    unfolding s3_service_def
  proof (intro conjI allI impI, goal_cases)
    case (1 s p s' res)
    then show ?case by (cases "sp_if_none_match p \<and> s (sp_bucket p) (sp_key p) \<noteq> None") (auto simp: sample_s3_def)
  next
    case (4 s b k r)
    then show ?case by (cases "s b k") (auto simp: sample_s3_def)
  qed (auto simp: sample_s3_def)
qed (simp add: s3_connected_def sample_s3_def)

lemma object_keys_separate_tenants_witness:
  "\<exists>msg. strip_tenant ''b'' ''a/x'' = Inl (TenantIsolationError msg)"
  using object_keys_separate_tenants [of "''a''" "''x''" "''a/x''" "''b''" "''x''" "''b/x''"]
  by (simp add: object_key_def starts_with_def)

lemma sample_s3_runs:
  "run_ops (s3_put_bytes sample_s3 sample_s3_adapter) (s3_delete sample_s3 sample_s3_adapter)
     (\<lambda>b k. None) [PutOp ''t'' ''a'' ''xy'' None False] =
   ((\<lambda>b k. None)(''blobs'' := [''t/a'' \<mapsto> ''xy'']), [True])"
  by (simp add: s3_put_bytes_def s3_put_def object_key_def starts_with_def buffered_def s3_connected_def
      sample_s3_def sample_s3_adapter_def minio_adapter_def truthy_def)

lemma sample_s3_gets:
  "\<exists>d. s3_get sample_s3 sample_s3_adapter ((\<lambda>b k. None)(''blobs'' := [''t/a'' \<mapsto> ''xy''])) ''t'' ''a'' = Inr d"
  by (simp add: s3_get_def object_key_def starts_with_def s3_connected_def
      sample_s3_def sample_s3_adapter_def minio_adapter_def)

lemma s3_read_own_writes_witness:
  "\<exists>d. s3_get sample_s3 sample_s3_adapter ((\<lambda>b k. None)(''blobs'' := [''t/a'' \<mapsto> ''xy''])) ''t'' ''a'' = Inr d \<and>
     (\<exists>chunks. bl_stream d = Inr chunks \<and> concat chunks = ''xy'')"
proof -
  obtain d where d: "s3_get sample_s3 sample_s3_adapter ((\<lambda>b k. None)(''blobs'' := [''t/a'' \<mapsto> ''xy''])) ''t'' ''a'' = Inr d"
    using sample_s3_gets by blast
  from s3_read_own_writes [OF sample_s3_service _ sample_s3_runs _ d, of "[]" None] d show ?thesis
    by (auto simp: object_key_def starts_with_def)
qed

lemma s3_tenant_isolation_witness:
  "\<exists>d s'. s' = fst (run_ops (s3_put_bytes sample_s3 sample_s3_adapter) (s3_delete sample_s3 sample_s3_adapter)
       ((\<lambda>b k. None)(''blobs'' := [''t/a'' \<mapsto> ''xy''])) [DeleteOp ''u'' ''a'']) \<and>
     s3_get sample_s3 sample_s3_adapter s' ''t'' ''a'' = Inr d \<and> blob_bytes d = Inr ''xy''"
proof -
  let ?s = "(\<lambda>b k. None)(''blobs'' := [''t/a'' \<mapsto> ''xy''])"
  have run: "run_ops (s3_put_bytes sample_s3 sample_s3_adapter) (s3_delete sample_s3 sample_s3_adapter)
      ?s [DeleteOp ''u'' ''a''] = (?s, [True])"
    by (auto simp: s3_delete_def object_key_def starts_with_def s3_connected_def
      sample_s3_def sample_s3_adapter_def minio_adapter_def fun_eq_iff)
  obtain d where d: "s3_get sample_s3 sample_s3_adapter ?s ''t'' ''a'' = Inr d"
    using sample_s3_gets by blast
  from s3_tenant_isolation [OF sample_s3_service _ run _ d] run d show ?thesis
    by (simp add: object_key_def starts_with_def sample_s3_adapter_def minio_adapter_def)
qed

lemma s3_get_errors_witness:
  "s3_get sample_s3 sample_s3_adapter (\<lambda>b k. None) ''t'' ''a'' = Inl (BlobNotFound ''t'' ''a'')"
  using s3_get_errors [of "''t''" "''a''" "''t/a''" sample_s3 "\<lambda>b k. None" sample_s3_adapter
      "ClientError (Some ''NoSuchKey'') []"] sample_s3_service(2)
  by (simp add: object_key_def starts_with_def) (simp add: sample_s3_def)

lemma s3_list_yields_own_objects_witness:
  "map br_key (fst (s3_list sample_s3 sample_s3_adapter (\<lambda>b k. None) ''t'' ''a'')) = [''a/x'']"
proof -
  obtain refs err where l: "s3_list sample_s3 sample_s3_adapter (\<lambda>b k. None) ''t'' ''a'' = (refs, err)"
    by (cases "s3_list sample_s3 sample_s3_adapter (\<lambda>b k. None) ''t'' ''a''") auto
  have call: "so_list sample_s3 (\<lambda>b k. None) (sa_bucket sample_s3_adapter) (''t'' @ ''/'' @ ''a'') =
      ([[\<lparr>sl_key = ''t/a/x'', sl_etag = ''e'', sl_size = 1\<rparr>]], None)"
    by (simp add: sample_s3_def)
  from s3_list_yields_own_objects [OF l _ _ _ sample_s3_service(2) call] l show ?thesis
    by (auto simp: starts_with_def)
qed

lemma shared_client_never_leaks_witness:
  "length (cs_open (finish_create 3 (second_check 3 (first_check 3 client_start)))) \<le> 1"
proof -
  have "client_step client_start (first_check 3 client_start)"
    by (rule cstep_first) (simp add: client_start_def)
  moreover have "client_step (first_check 3 client_start) (second_check 3 (first_check 3 client_start))"
    by (rule cstep_second) (simp_all add: first_check_def client_start_def)
  moreover have "client_step (second_check 3 (first_check 3 client_start))
      (finish_create 3 (second_check 3 (first_check 3 client_start)))"
    by (rule cstep_create) (simp add: second_check_def first_check_def client_start_def)
  ultimately have "client_reachable (finish_create 3 (second_check 3 (first_check 3 client_start)))"
    unfolding client_reachable_def by (meson r_into_rtranclp rtranclp_trans)
  from shared_client_never_leaks [OF this] show ?thesis by simp
qed

end
