(* ===== verification/Storage_Client.thy ===== *)
theory Storage_Client
  imports Filesystem_Store S3_Store
begin

text \<open>
  The storage SDK (\<open>sdk/basic_infra_storage_client\<close>): its settings with their validation, the choice
  of the adapter, and the tenant-scoped clients, asynchronous and synchronous, over both adapters.
\<close>

subsection \<open>Settings\<close>

datatype storage_backend = FilesystemBackend | MinioBackend | S3Backend

record StorageSettings =
  sg_backend :: storage_backend
  sg_bucket :: "string option"
  sg_endpoint_url :: "string option"
  sg_region :: string
  sg_access_key :: "string option"
  sg_secret_key :: "string option"
  sg_use_ssl :: "bool option"
  sg_filesystem_root :: "string option"

definition storage_defaults :: StorageSettings where
  "storage_defaults = \<lparr>sg_backend = FilesystemBackend, sg_bucket = None, sg_endpoint_url = None,
     sg_region = ''us-east-1'', sg_access_key = None, sg_secret_key = None, sg_use_ssl = None,
     sg_filesystem_root = None\<rparr>"

definition missing_minio :: "StorageSettings \<Rightarrow> string list" where
  "missing_minio s = map fst (filter (\<lambda>(name, v). \<not> truthy v)
     [(''BUCKET'', sg_bucket s), (''ENDPOINT_URL'', sg_endpoint_url s),
      (''ACCESS_KEY'', sg_access_key s), (''SECRET_KEY'', sg_secret_key s)])"

definition validate_backend_settings :: "StorageSettings \<Rightarrow> exn + StorageSettings" where
  "validate_backend_settings s =
     rbind (case sg_backend s of
         FilesystemBackend \<Rightarrow>
           if \<not> truthy (sg_filesystem_root s)
           then Inl (ValueError ''filesystem backend requires BASIC_INFRA_STORAGE_FILESYSTEM_ROOT'')
           else Inr ()
       | MinioBackend \<Rightarrow>
           if missing_minio s \<noteq> []
           then Inl (ValueError (''minio backend requires: '' @
             py_join '', '' (map (\<lambda>m. ''BASIC_INFRA_STORAGE_'' @ m) (missing_minio s))))
           else Inr ()
       | S3Backend \<Rightarrow>
           if \<not> truthy (sg_bucket s)
           then Inl (ValueError ''s3 backend requires BASIC_INFRA_STORAGE_BUCKET'')
           else Inr ())
       (\<lambda>_. Inr (if sg_use_ssl s = None then s\<lparr>sg_use_ssl := Some (sg_backend s = S3Backend)\<rparr> else s))"

subsection \<open>The clients\<close>

datatype blob_backend = OnFilesystem fs_adapter | OnS3 s3_adapter

definition assertion :: "bool \<Rightarrow> blob_exn + unit" where
  "assertion b = (if b then Inr () else Inl (StorePy (AssertionError [])))"

text \<open>\<open>Path(root).resolve()\<close> of an absolute path.\<close>

definition build_backend :: "fs \<Rightarrow> StorageSettings \<Rightarrow> blob_exn + blob_backend" where
  "build_backend fs s =
     (case sg_backend s of
        FilesystemBackend \<Rightarrow>
          rbind (assertion (sg_filesystem_root s \<noteq> None))
            (\<lambda>_. rmap OnFilesystem (filesystem_adapter fs (pure_parts (the (sg_filesystem_root s)))))
      | MinioBackend \<Rightarrow>
          rbind (assertion (truthy (sg_bucket s) \<and> truthy (sg_endpoint_url s)))
            (\<lambda>_. rbind (assertion (truthy (sg_access_key s) \<and> truthy (sg_secret_key s)))
              (\<lambda>_. Inr (OnS3 (minio_adapter (the (sg_endpoint_url s)) (the (sg_bucket s))
                 (the (sg_access_key s)) (the (sg_secret_key s)) (sg_use_ssl s = Some True) (sg_region s)))))
      | S3Backend \<Rightarrow>
          rbind (assertion (sg_bucket s \<noteq> None))
            (\<lambda>_. Inr (OnS3 (aws_adapter (the (sg_bucket s)) (sg_region s) (sg_access_key s) (sg_secret_key s)))))"

record blob_client =
  cl_tenant_id :: string
  cl_backend :: blob_backend

definition new_client ::
  "fs \<Rightarrow> string \<Rightarrow> StorageSettings \<Rightarrow> blob_backend option \<Rightarrow> blob_exn + blob_client"
where
  "new_client fs tenant_id settings backend =
     (if tenant_id = [] then Inl (StorePy (ValueError ''tenant_id is required''))
      else case backend of
        Some b \<Rightarrow> Inr \<lparr>cl_tenant_id = tenant_id, cl_backend = b\<rparr>
      | None \<Rightarrow> rmap (\<lambda>b. \<lparr>cl_tenant_id = tenant_id, cl_backend = b\<rparr>) (build_backend fs settings))"

text \<open>What the adapters run on: the disk and the service, and their parameters.\<close>

record 's storage =
  sw_fs :: fs
  sw_s3 :: 's

record 's storage_env =
  st_codec :: codec
  st_now :: int
  st_s3 :: "'s s3_ops"

definition on_fs :: "'s storage \<Rightarrow> fs \<times> 'r \<Rightarrow> 's storage \<times> 'r" where
  "on_fs w r = (w\<lparr>sw_fs := fst r\<rparr>, snd r)"

definition on_s3 :: "'s storage \<Rightarrow> 's \<times> 'r \<Rightarrow> 's storage \<times> 'r" where
  "on_s3 w r = (w\<lparr>sw_s3 := fst r\<rparr>, snd r)"

definition client_put ::
  "'s storage_env \<Rightarrow> blob_client \<Rightarrow> 's storage \<Rightarrow> string \<Rightarrow> payload \<Rightarrow> string option
    \<Rightarrow> (string, string) pydict option \<Rightarrow> bool \<Rightarrow> 's storage \<times> (blob_exn + BlobRef)"
where
  "client_put ev c w key data content_type metadata if_none_match =
     (case cl_backend c of
        OnFilesystem a \<Rightarrow> on_fs w (fs_put (st_codec ev) a (st_now ev) (sw_fs w) (cl_tenant_id c) key data
          content_type metadata if_none_match)
      | OnS3 a \<Rightarrow> on_s3 w (s3_put (st_s3 ev) a (sw_s3 w) (cl_tenant_id c) key data
          content_type metadata if_none_match))"

definition client_get :: "'s storage_env \<Rightarrow> blob_client \<Rightarrow> 's storage \<Rightarrow> string \<Rightarrow> blob_exn + BlobData" where
  "client_get ev c w key =
     (case cl_backend c of
        OnFilesystem a \<Rightarrow> fs_get (st_codec ev) a (sw_fs w) (cl_tenant_id c) key
      | OnS3 a \<Rightarrow> s3_get (st_s3 ev) a (sw_s3 w) (cl_tenant_id c) key)"

definition client_delete :: "'s storage_env \<Rightarrow> blob_client \<Rightarrow> 's storage \<Rightarrow> string \<Rightarrow> 's storage \<times> (blob_exn + unit)" where
  "client_delete ev c w key =
     (case cl_backend c of
        OnFilesystem a \<Rightarrow> on_fs w (fs_delete a (sw_fs w) (cl_tenant_id c) key)
      | OnS3 a \<Rightarrow> on_s3 w (s3_delete (st_s3 ev) a (sw_s3 w) (cl_tenant_id c) key))"

definition client_head ::
  "'s storage_env \<Rightarrow> blob_client \<Rightarrow> 's storage \<Rightarrow> string \<Rightarrow> blob_exn + BlobMetadata option" where
  "client_head ev c w key =
     (case cl_backend c of
        OnFilesystem a \<Rightarrow> fs_head (st_codec ev) a (sw_fs w) (cl_tenant_id c) key
      | OnS3 a \<Rightarrow> s3_head (st_s3 ev) a (st_now ev) (sw_s3 w) (cl_tenant_id c) key)"

definition client_list ::
  "'s storage_env \<Rightarrow> blob_client \<Rightarrow> 's storage \<Rightarrow> string \<Rightarrow> BlobRef list \<times> blob_exn option" where
  "client_list ev c w pre =
     (case cl_backend c of
        OnFilesystem a \<Rightarrow> fs_list (st_codec ev) a (sw_fs w) (cl_tenant_id c) pre
      | OnS3 a \<Rightarrow> s3_list (st_s3 ev) a (sw_s3 w) (cl_tenant_id c) pre)"

definition client_presigned_url ::
  "'s storage_env \<Rightarrow> blob_client \<Rightarrow> string \<Rightarrow> string \<Rightarrow> int \<Rightarrow> string option \<Rightarrow> blob_exn + string" where
  "client_presigned_url ev c key op_name ttl_seconds content_type =
     (case cl_backend c of
        OnFilesystem a \<Rightarrow> fs_presigned_url (cl_tenant_id c) key op_name ttl_seconds content_type
      | OnS3 a \<Rightarrow> s3_presigned_url (st_s3 ev) a (cl_tenant_id c) key op_name ttl_seconds content_type)"

text \<open>The synchronous client: \<open>get\<close> reads the whole blob, \<open>list\<close> collects the generator.\<close>

definition sync_get :: "'s storage_env \<Rightarrow> blob_client \<Rightarrow> 's storage \<Rightarrow> string \<Rightarrow> blob_exn + bytes" where
  "sync_get ev c w key =
     rbind (client_get ev c w key)
       (\<lambda>blob. case blob_bytes blob of Inl e \<Rightarrow> Inl (StorePy e) | Inr b \<Rightarrow> Inr b)"

definition sync_put ::
  "'s storage_env \<Rightarrow> blob_client \<Rightarrow> 's storage \<Rightarrow> string \<Rightarrow> bytes \<Rightarrow> string option
    \<Rightarrow> (string, string) pydict option \<Rightarrow> bool \<Rightarrow> 's storage \<times> (blob_exn + BlobRef)"
where
  "sync_put ev c w key data content_type metadata if_none_match =
     client_put ev c w key (Bytes data) content_type metadata if_none_match"

definition sync_delete :: "'s storage_env \<Rightarrow> blob_client \<Rightarrow> 's storage \<Rightarrow> string \<Rightarrow> 's storage \<times> (blob_exn + unit)" where
  "sync_delete ev c w key = client_delete ev c w key"

definition sync_head :: "'s storage_env \<Rightarrow> blob_client \<Rightarrow> 's storage \<Rightarrow> string \<Rightarrow> blob_exn + BlobMetadata option" where
  "sync_head ev c w key = client_head ev c w key"

definition sync_presigned_url ::
  "'s storage_env \<Rightarrow> blob_client \<Rightarrow> string \<Rightarrow> string \<Rightarrow> int \<Rightarrow> string option \<Rightarrow> blob_exn + string" where
  "sync_presigned_url ev c key op_name ttl_seconds content_type =
     client_presigned_url ev c key op_name ttl_seconds content_type"

definition sync_list :: "'s storage_env \<Rightarrow> blob_client \<Rightarrow> 's storage \<Rightarrow> string \<Rightarrow> blob_exn + BlobRef list" where
  "sync_list ev c w pre =
     (case client_list ev c w pre of (refs, None) \<Rightarrow> Inr refs | (refs, Some e) \<Rightarrow> Inl e)"

subsection \<open>Closing, and event loops\<close>

text \<open>\<open>aclose\<close>: the shared client of S3 is closed, the filesystem has nothing to close.\<close>

definition client_aclose :: "blob_client \<Rightarrow> client_state \<Rightarrow> client_state" where
  "client_aclose c s =
     (case cl_backend c of
        OnFilesystem a \<Rightarrow> s
      | OnS3 a \<Rightarrow> (let s1 = begin_close s in if cs_closing s1 then finish_close s1 else s1))"

text \<open>
  The synchronous client runs each call by \<open>asyncio.run\<close>, in an event loop of its own that ends with the call. Loops
  are numbered in their order; \<open>sn_home\<close> gives the loop in which each shared S3 client was opened.
\<close>

record sync_state =
  sn_shared :: client_state
  sn_loop :: nat
  sn_home :: "nat \<Rightarrow> nat"

definition sync_start :: sync_state where
  "sync_start = \<lparr>sn_shared = client_start, sn_loop = 0, sn_home = (\<lambda>_. 0)\<rparr>"

text \<open>\<open>_get_client\<close> in the loop of one call, alone there: the client the call works with, if one could be opened.\<close>

definition sync_get_client :: "bool \<Rightarrow> sync_state \<Rightarrow> sync_state \<times> nat option" where
  "sync_get_client opens s =
     (let i = sn_loop s;
          s1 = first_check i (sn_shared s);
          s2 = (if cs_pc s1 i = WantLock then second_check i s1 else s1);
          creates = (cs_pc s2 i = Creating);
          s3 = (if creates then (if opens then finish_create i s2 else fail_create i s2) else s2)
      in (s\<lparr>sn_shared := s3, sn_loop := Suc i,
            sn_home := (if creates \<and> opens then (sn_home s)(cs_created s2 := i) else sn_home s)\<rparr>,
          case cs_pc s3 i of HasClient c \<Rightarrow> Some c | _ \<Rightarrow> None))"

definition sync_aclose :: "blob_client \<Rightarrow> sync_state \<Rightarrow> sync_state" where
  "sync_aclose c s = s\<lparr>sn_shared := client_aclose c (sn_shared s), sn_loop := Suc (sn_loop s)\<rparr>"

fun sync_calls :: "bool list \<Rightarrow> sync_state \<Rightarrow> sync_state \<times> nat option list" where
  "sync_calls [] s = (s, [])"
| "sync_calls (opens # calls) s =
     (case sync_get_client opens s of
        (s1, c) \<Rightarrow> (case sync_calls calls s1 of (s2, cs) \<Rightarrow> (s2, c # cs)))"

lemma sync_get_client_cached:
  assumes "cs_client (sn_shared s) = Some c" "sync_get_client opens s = (s', r)"
  shows "r = Some c" "cs_client (sn_shared s') = Some c" "sn_home s' = sn_home s"
  using assms by (auto simp: sync_get_client_def first_check_def Let_def)

lemma sync_get_client_fresh:
  assumes "cs_client (sn_shared s) = None" "sync_get_client opens s = (s', r)"
  shows "r = (if opens then Some (cs_created (sn_shared s)) else None)"
    "cs_client (sn_shared s') = r" "sn_loop s' = Suc (sn_loop s)"
    "\<not> opens \<Longrightarrow> cs_created (sn_shared s') = cs_created (sn_shared s)"
    "opens \<Longrightarrow> sn_home s' (cs_created (sn_shared s)) = sn_loop s"
  using assms
  by (auto simp: sync_get_client_def first_check_def second_check_def finish_create_def fail_create_def Let_def
      split: if_splits)

lemma sync_calls_cached:
  "cs_client (sn_shared s) = Some c \<Longrightarrow> sync_calls calls s = (s', rs) \<Longrightarrow>
     rs = replicate (length calls) (Some c) \<and> sn_home s' = sn_home s"
proof (induction calls arbitrary: s rs)
  case (Cons opens calls)
  obtain s1 r where one: "sync_get_client opens s = (s1, r)" by fastforce
  from sync_get_client_cached [OF Cons.prems(1) one] Cons.IH [of s1] Cons.prems(2) one show ?case
    by (auto split: prod.splits)
qed simp

text \<open>
  The synchronous client over S3 works across event loops: the first call that can open a shared client opens it in
  its own loop, and every later call works with that same client, although the loop it belongs to has ended with
  the call that opened it. (What the S3 library then does is not modelled; its connections belong to that loop.)
\<close>

theorem sync_calls_outlive_their_loop:
  assumes "sync_calls (replicate k False @ True # rest) sync_start = (s, rs)"
  shows "rs = replicate k None @ replicate (Suc (length rest)) (Some 0) \<and> sn_home s 0 = k"
proof -
  have "rs = replicate k None @ replicate (Suc (length rest)) (Some (cs_created (sn_shared s0))) \<and>
      sn_home s (cs_created (sn_shared s0)) = sn_loop s0 + k"
    if "sync_calls (replicate k False @ True # rest) s0 = (s, rs)" "cs_client (sn_shared s0) = None" for s0
    using that
  proof (induction k arbitrary: s0 rs)
    case 0
    obtain s1 r where one: "sync_get_client True s0 = (s1, r)" by fastforce
    obtain rs' where rs': "sync_calls rest s1 = (s, rs')" "rs = r # rs'"
      using 0(1) one by (auto split: prod.splits)
    from sync_get_client_fresh [OF 0(2) one] sync_calls_cached [OF _ rs'(1)] rs'(2) show ?case by simp
  next
    case (Suc k)
    obtain s1 r where one: "sync_get_client False s0 = (s1, r)" by fastforce
    obtain rs' where rs': "sync_calls (replicate k False @ True # rest) s1 = (s, rs')" "rs = r # rs'"
      using Suc.prems(1) one by (auto split: prod.splits)
    from sync_get_client_fresh [OF Suc.prems(2) one] Suc.IH [OF rs'(1)] rs'(2) show ?case by simp
  qed
  from this [OF assms] show ?thesis by (simp add: sync_start_def client_start_def)
qed

lemma sync_calls_outlive_their_loop_witness:
  "snd (sync_calls [False, True, True] sync_start) = [None, Some 0, Some 0]"
  using sync_calls_outlive_their_loop [of 1 "[True]"] by (cases "sync_calls [False, True, True] sync_start") simp

subsection \<open>Properties\<close>

lemma missing_minio_Nil:
  "missing_minio s = [] \<longleftrightarrow> truthy (sg_bucket s) \<and> truthy (sg_endpoint_url s) \<and>
     truthy (sg_access_key s) \<and> truthy (sg_secret_key s)"
  by (auto simp: missing_minio_def)

lemma truthy_Some: "truthy v \<Longrightarrow> \<exists>s. v = Some s \<and> s \<noteq> []"
  by (auto simp: truthy_def split: option.splits)

lemma validate_Inr:
  assumes "validate_backend_settings s = Inr s'"
  shows "s' = (if sg_use_ssl s = None then s\<lparr>sg_use_ssl := Some (sg_backend s = S3Backend)\<rparr> else s)"
    "sg_backend s = FilesystemBackend \<Longrightarrow> truthy (sg_filesystem_root s)"
    "sg_backend s = MinioBackend \<Longrightarrow> missing_minio s = []"
    "sg_backend s = S3Backend \<Longrightarrow> truthy (sg_bucket s)"
  using assms by (auto simp: validate_backend_settings_def rbind_Inr_iff split: storage_backend.splits if_splits)

text \<open>
  Settings that passed validation always build the adapter they name, with every mandatory
  credential present and not empty: the assertions of the builder never fail. The only failure
  left is a filesystem root that is not a directory, reported as a configuration error. TLS is
  on for AWS always, and for MinIO exactly when it was asked for.
\<close>

theorem validated_settings_build:
  assumes "validate_backend_settings s = Inr s'"
  shows "case build_backend fs s' of
      Inl e \<Rightarrow> sg_backend s = FilesystemBackend \<and> (\<exists>msg. e = BlobStoreConfigError msg)
    | Inr (OnFilesystem a) \<Rightarrow> sg_backend s = FilesystemBackend \<and> node_at fs (fa_root a) = Some Dir \<and> adapter_ok a
    | Inr (OnS3 a) \<Rightarrow> sa_bucket a \<noteq> [] \<and> sg_bucket s = Some (sa_bucket a) \<and>
        (sg_backend s = MinioBackend \<and> truthy (sa_endpoint_url a) \<and> truthy (sa_access_key a) \<and>
           truthy (sa_secret_key a) \<and> (sa_use_ssl a \<longleftrightarrow> sg_use_ssl s = Some True) \<or>
         sg_backend s = S3Backend \<and> sa_endpoint_url a = None \<and> sa_use_ssl a)"
proof -
  note v = validate_Inr [OF assms]
  have same: "sg_backend s' = sg_backend s" "sg_bucket s' = sg_bucket s" "sg_endpoint_url s' = sg_endpoint_url s"
    "sg_access_key s' = sg_access_key s" "sg_secret_key s' = sg_secret_key s"
    "sg_filesystem_root s' = sg_filesystem_root s"
    "sg_use_ssl s' = (if sg_use_ssl s = None then Some (sg_backend s = S3Backend) else sg_use_ssl s)"
    by (simp_all add: v(1))
  show ?thesis
  proof (cases "sg_backend s")
    case FilesystemBackend
    then obtain r where "sg_filesystem_root s = Some r" using v(2) truthy_Some by blast
    with FilesystemBackend show ?thesis
      using filesystem_adapter_ok [of fs "pure_parts r"]
      by (auto simp: build_backend_def same assertion_def filesystem_adapter_def
          split: option.splits node.splits)
  next
    case MinioBackend
    then have "truthy (sg_bucket s)" "truthy (sg_endpoint_url s)" "truthy (sg_access_key s)" "truthy (sg_secret_key s)"
      using v(3) missing_minio_Nil by blast+
    with MinioBackend show ?thesis
      by (auto simp: build_backend_def same assertion_def minio_adapter_def dest!: truthy_Some)
         (auto simp: truthy_def)
  next
    case S3Backend
    then obtain b where "sg_bucket s = Some b" "b \<noteq> []" using v(4) truthy_Some by blast
    with S3Backend show ?thesis
      by (simp add: build_backend_def same assertion_def aws_adapter_def)
  qed
qed

text \<open>What a successful S3 write leaves, for a payload of either kind.\<close>

lemma buffered_Inr: "buffered data = Inr b \<longleftrightarrow> payload_parts data = (b, None)"
  by (auto simp: buffered_def payload_parts_def split: payload.splits option.splits)

lemma s3_put_stores:
  assumes "s3_service ops objects" and "s3_put ops a s t k data ct md ifn = (s', Inr ref)"
  shows "payload_parts data = (fst (payload_parts data), None) \<and> s3_addr t k \<and>
    s3_content objects a s' t k = Some (fst (payload_parts data)) \<and>
    br_tenant_id ref = t \<and> br_key ref = k \<and> br_size ref = int (length (fst (payload_parts data)))"
proof -
  obtain ok body where prep: "object_key t k = Inr ok" "buffered data = Inr body" "s3_connected ops = Inr ()"
    using assms(2)
    by (cases "object_key t k"; cases "buffered data"; cases "s3_connected ops") (auto simp: s3_put_def)
  have b: "payload_parts data = (body, None)" using prep(2) by (simp add: buffered_Inr)
  have ok: "ok = t @ ''/'' @ k" using prep(1) by (simp add: object_key_Inr)
  let ?p = "\<lparr>sp_bucket = sa_bucket a, sp_key = ok, sp_body = body,
              sp_content_type = (if truthy ct then ct else None),
              sp_metadata = (if md = Some [] then None else md), sp_if_none_match = ifn\<rparr>"
  obtain etag where call: "so_put ops s ?p = (s', Inr etag)"
    and ref: "br_tenant_id ref = t" "br_key ref = k" "br_size ref = int (length body)"
    using assms(2) prep
    by (auto simp: s3_put_def split: prod.splits sum.splits s3_failure.splits if_splits)
  have "objects s' = (objects s)(sa_bucket a := (objects s (sa_bucket a))(ok \<mapsto> body))"
    using assms(1) call unfolding s3_service_def by fastforce
  then show ?thesis
    using ref b prep(1) by (simp add: s3_content_def ok s3_addr_def)
qed


subsection \<open>Witnesses\<close>

definition sample_storage_settings :: StorageSettings where
  "sample_storage_settings = storage_defaults\<lparr>sg_backend := MinioBackend, sg_bucket := Some ''blobs'',
     sg_endpoint_url := Some ''http://minio:9000'', sg_access_key := Some ''k'', sg_secret_key := Some ''s''\<rparr>"

lemma validated_settings_build_witness:
  "\<exists>a. build_backend [] (sample_storage_settings\<lparr>sg_use_ssl := Some False\<rparr>) = Inr (OnS3 a) \<and>
     sa_bucket a = ''blobs'' \<and> \<not> sa_use_ssl a"
proof -
  have v: "validate_backend_settings sample_storage_settings = Inr (sample_storage_settings\<lparr>sg_use_ssl := Some False\<rparr>)"
    by (simp add: validate_backend_settings_def sample_storage_settings_def storage_defaults_def
        missing_minio_def truthy_def)
  have b: "\<exists>a. build_backend [] (sample_storage_settings\<lparr>sg_use_ssl := Some False\<rparr>) = Inr (OnS3 a)"
    by (simp add: build_backend_def sample_storage_settings_def storage_defaults_def assertion_def truthy_def)
  from b validated_settings_build [OF v, of "[]"] show ?thesis
    by (auto simp: sample_storage_settings_def storage_defaults_def)
qed

definition sample_storage_env :: "sample_objects storage_env" where
  "sample_storage_env = \<lparr>st_codec = sample_codec, st_now = 9, st_s3 = sample_s3\<rparr>"


end
