(* ===== verification/Outbox.thy ===== *)
theory Outbox
  imports Prelude "HOL-Library.Multiset"
begin

text \<open>
  The outbox dispatcher (\<open>outbox/basic_infra_outbox\<close>): the sinks, one scan of the outbox table and
  the dispatcher's loop. The table is explicit; the connection to it and \<open>json.loads\<close> are
  parameters, and every statement may fail, with or without having taken effect.
\<close>

subsection \<open>Events and sinks\<close>

record OutboxEvent =
  oe_id :: int
  oe_event_type :: string
  oe_payload :: json
  oe_occurred_at :: int

text \<open>A sink has a state; a delivery changes it and succeeds, or raises.\<close>

type_synonym 'k sink_deliver = "'k \<Rightarrow> OutboxEvent \<Rightarrow> 'k \<times> (exn + unit)"

datatype log_entry = LogEntry string "(string \<times> json) list"

definition isoformat_entry :: "(int \<Rightarrow> string) \<Rightarrow> OutboxEvent \<Rightarrow> log_entry" where
  "isoformat_entry isoformat event =
     LogEntry ''outbox_event_delivered''
       [(''id'', JInt (oe_id event)), (''event_type'', JStr (oe_event_type event)),
        (''occurred_at'', JStr (isoformat (oe_occurred_at event))), (''payload'', oe_payload event)]"

definition log_sink_deliver :: "(int \<Rightarrow> string) \<Rightarrow> log_entry list sink_deliver" where
  "log_sink_deliver isoformat k event = (k @ [isoformat_entry isoformat event], Inr ())"

definition recording_sink_deliver :: "OutboxEvent list sink_deliver" where
  "recording_sink_deliver k event = (k @ [event], Inr ())"

subsection \<open>The table and the connection\<close>

text \<open>A JSON column arrives as text or already decoded.\<close>

datatype column = Text string | Decoded json

record outbox_row =
  ob_id :: int
  ob_event_type :: string
  ob_payload :: column
  ob_occurred_at :: int
  ob_processed_at :: "int option"

text \<open>
  \<open>None\<close> is a table that does not exist. Statements are counted: \<open>oc_fault n\<close> says whether
  statement \<open>n\<close> raises, and whether it took effect before that.
\<close>

record 'k outbox =
  ox_table :: "outbox_row list option"
  ox_sink :: 'k
  ox_calls :: nat

record conn =
  oc_fault :: "nat \<Rightarrow> (exn \<times> bool) option"
  oc_now :: "nat \<Rightarrow> int"
  oc_loads :: "string \<Rightarrow> exn + json"

definition pending :: "outbox_row list \<Rightarrow> outbox_row list" where
  "pending t = sort_key ob_id (filter (\<lambda>r. ob_processed_at r = None) t)"

definition mark :: "int \<Rightarrow> int \<Rightarrow> outbox_row list \<Rightarrow> outbox_row list" where
  "mark now i t = map (\<lambda>r. if ob_id r = i then r\<lparr>ob_processed_at := Some now\<rparr> else r) t"

definition fetch_pending :: "conn \<Rightarrow> 'k outbox \<Rightarrow> 'k outbox \<times> (exn + outbox_row list option)" where
  "fetch_pending c w =
     (w\<lparr>ox_calls := Suc (ox_calls w)\<rparr>,
      case oc_fault c (ox_calls w) of
        Some (e, _) \<Rightarrow> Inl e
      | None \<Rightarrow> Inr (map_option pending (ox_table w)))"

definition mark_processed :: "conn \<Rightarrow> 'k outbox \<Rightarrow> int \<Rightarrow> 'k outbox \<times> (exn + unit)" where
  "mark_processed c w i =
     (let n = ox_calls w;
          done = w\<lparr>ox_table := map_option (mark (oc_now c n) i) (ox_table w), ox_calls := Suc n\<rparr>
      in case oc_fault c n of
           None \<Rightarrow> (done, Inr ())
         | Some (e, True) \<Rightarrow> (done, Inl e)
         | Some (e, False) \<Rightarrow> (w\<lparr>ox_calls := Suc n\<rparr>, Inl e))"

subsection \<open>The dispatcher\<close>

definition row_event :: "(string \<Rightarrow> exn + json) \<Rightarrow> outbox_row \<Rightarrow> exn + OutboxEvent" where
  "row_event loads row =
     rmap (\<lambda>payload. \<lparr>oe_id = ob_id row, oe_event_type = ob_event_type row, oe_payload = payload,
                     oe_occurred_at = ob_occurred_at row\<rparr>)
       (case ob_payload row of Text s \<Rightarrow> loads s | Decoded j \<Rightarrow> Inr j)"

fun deliver_rows ::
  "conn \<Rightarrow> 'k sink_deliver \<Rightarrow> 'k outbox \<Rightarrow> nat \<Rightarrow> outbox_row list \<Rightarrow> 'k outbox \<times> (exn + nat)"
where
  "deliver_rows c deliver w delivered [] = (w, Inr delivered)"
| "deliver_rows c deliver w delivered (row # rows) =
     (case row_event (oc_loads c) row of
        Inl e \<Rightarrow> (w, Inl e)
      | Inr event \<Rightarrow>
          (case deliver (ox_sink w) event of
             (k, Inl e) \<Rightarrow> (w\<lparr>ox_sink := k\<rparr>, Inl e)
           | (k, Inr _) \<Rightarrow>
               (case mark_processed c (w\<lparr>ox_sink := k\<rparr>) (ob_id row) of
                  (w', Inl e) \<Rightarrow> (w', Inl e)
                | (w', Inr _) \<Rightarrow> deliver_rows c deliver w' (Suc delivered) rows)))"

definition deliver_backlog :: "conn \<Rightarrow> 'k sink_deliver \<Rightarrow> 'k outbox \<Rightarrow> 'k outbox \<times> (exn + nat)" where
  "deliver_backlog c deliver w =
     (case fetch_pending c w of
        (w', Inl e) \<Rightarrow> (w', Inl e)
      | (w', Inr None) \<Rightarrow> (w', Inr 0)
      | (w', Inr (Some rows)) \<Rightarrow> deliver_rows c deliver w' 0 rows)"

text \<open>
  The loop of \<open>run\<close>: a scan after every doorbell or timeout until the stop event is set. What
  other transactions do to the table while the loop waits is given by \<open>wakes\<close>, one entry per
  iteration; the list ends when the stop event is found set.
\<close>

fun dispatch_loop ::
  "conn \<Rightarrow> 'k sink_deliver \<Rightarrow> (outbox_row list option \<Rightarrow> outbox_row list option) list \<Rightarrow> 'k outbox
    \<Rightarrow> 'k outbox \<times> (exn + unit)"
where
  "dispatch_loop c deliver [] w = (w, Inr ())"
| "dispatch_loop c deliver (others # wakes) w =
     (case deliver_backlog c deliver (w\<lparr>ox_table := others (ox_table w)\<rparr>) of
        (w', Inl e) \<Rightarrow> (w', Inl e)
      | (w', Inr n) \<Rightarrow> dispatch_loop c deliver wakes w')"

text \<open>A call that does not touch the table: \<open>add_listener\<close>, and closing the connection.\<close>

definition conn_call :: "conn \<Rightarrow> 'k outbox \<Rightarrow> 'k outbox \<times> (exn + unit)" where
  "conn_call c w =
     (w\<lparr>ox_calls := Suc (ox_calls w)\<rparr>, case oc_fault c (ox_calls w) of None \<Rightarrow> Inr () | Some (e, _) \<Rightarrow> Inl e)"

text \<open>The body of the \<open>try\<close>, and \<open>run\<close> on an open connection: closing it may raise in place of the outcome.\<close>

definition dispatcher_body ::
  "conn \<Rightarrow> 'k sink_deliver \<Rightarrow> (outbox_row list option \<Rightarrow> outbox_row list option) list \<Rightarrow> 'k outbox
    \<Rightarrow> 'k outbox \<times> (exn + unit)"
where
  "dispatcher_body c deliver wakes w =
     (case deliver_backlog c deliver w of
        (w1, Inl e) \<Rightarrow> (w1, Inl e)
      | (w1, Inr n) \<Rightarrow>
          (case conn_call c w1 of
             (w2, Inl e) \<Rightarrow> (w2, Inl e)
           | (w2, Inr _) \<Rightarrow> dispatch_loop c deliver wakes w2))"

definition dispatcher_run ::
  "conn \<Rightarrow> 'k sink_deliver \<Rightarrow> (outbox_row list option \<Rightarrow> outbox_row list option) list \<Rightarrow> 'k outbox
    \<Rightarrow> 'k outbox \<times> (exn + unit)"
where
  "dispatcher_run c deliver wakes w =
     (case dispatcher_body c deliver wakes w of
        (w1, r) \<Rightarrow>
          (case conn_call c w1 of
             (w2, Inl e) \<Rightarrow> (w2, Inl e)
           | (w2, Inr _) \<Rightarrow> (w2, r)))"

subsection \<open>The contract of a sink\<close>

text \<open>
  \<open>received\<close> is what a sink has got so far, each event as \<open>shown\<close>. A delivery that returns has handed the event over; one
  that raises may or may not have.
\<close>

locale sink =
  fixes deliver :: "'k sink_deliver"
    and received :: "'k \<Rightarrow> 'v list"
    and shown :: "OutboxEvent \<Rightarrow> 'v"
  assumes delivered: "deliver k e = (k', Inr u) \<Longrightarrow> received k' = received k @ [shown e]"
    and refused: "deliver k e = (k', Inl x) \<Longrightarrow>
      received k' = received k \<or> received k' = received k @ [shown e]"

text \<open>What marking does to a table: exactly the rows with one of the ids get a timestamp.\<close>

definition marks :: "int set \<Rightarrow> outbox_row list \<Rightarrow> outbox_row list \<Rightarrow> bool" where
  "marks ids = list_all2 (\<lambda>r r'. if ob_id r \<in> ids then \<exists>n. r' = r\<lparr>ob_processed_at := Some n\<rparr> else r' = r)"

lemma marks_refl: "marks {} t t"
  by (simp add: marks_def list.rel_refl)

lemma marks_mark: "marks {i} t (mark now i t)"
  by (induction t) (auto simp: marks_def mark_def)

lemma marks_trans: "marks A t t' \<Longrightarrow> marks B t' t'' \<Longrightarrow> marks (A \<union> B) t t''"
  unfolding marks_def by (erule (1) list_all2_trans [rotated]) (auto split: if_splits)

text \<open>
  The rows a scan handed over and the ones it marked: both in id order without a gap, and at most
  one handed over that is not marked.
\<close>

definition progress ::
  "(string \<Rightarrow> exn + json) \<Rightarrow> outbox_row list \<Rightarrow> outbox_row list \<Rightarrow> outbox_row list \<Rightarrow> OutboxEvent list \<Rightarrow> bool"
where
  "progress loads rows sent acked evs \<longleftrightarrow>
     prefix sent rows \<and> prefix acked sent \<and> length sent \<le> Suc (length acked) \<and>
     list_all2 (\<lambda>r e. row_event loads r = Inr e) sent evs"

lemma progress_Cons:
  "progress loads rows sent acked evs \<Longrightarrow> row_event loads row = Inr e \<Longrightarrow>
     progress loads (row # rows) (row # sent) (row # acked) (e # evs)"
  by (simp add: progress_def)

lemma progress_none: "progress loads rows [] [] []"
  by (simp add: progress_def)

lemma progress_unmarked: "row_event loads row = Inr e \<Longrightarrow> progress loads (row # rows) [row] [] [e]"
  by (simp add: progress_def)

lemma progress_exI:
  "progress loads rows sent acked evs \<Longrightarrow> tab = Some t' \<Longrightarrow> got' = got @ map shown evs \<Longrightarrow>
     marks (ob_id ` set acked) t t' \<Longrightarrow> \<forall>m. res = Inr m \<longrightarrow> acked = rows \<and> m = n + length rows \<Longrightarrow>
   \<exists>sent acked evs t'. progress loads rows sent acked evs \<and> tab = Some t' \<and> got' = got @ map shown evs \<and>
     marks (ob_id ` set acked) t t' \<and> (\<forall>m. res = Inr m \<longrightarrow> acked = rows \<and> m = n + length rows)"
  by blast

lemma mark_processed_cases:
  assumes "mark_processed c w i = (w', res)" and "ox_table w = Some t"
  shows "ox_sink w' = ox_sink w \<and>
    (\<exists>t' ids. ox_table w' = Some t' \<and> marks ids t t' \<and> (ids = {i} \<or> ids = {} \<and> \<not> is_ok res))"
  using assms marks_mark marks_refl
  by (auto simp: mark_processed_def Let_def split: option.splits bool.splits) blast+

context sink
begin

lemma deliver_rows_progress:
  assumes "deliver_rows c deliver w n rows = (w', res)" and "ox_table w = Some t"
  shows "\<exists>sent acked evs t'. progress (oc_loads c) rows sent acked evs \<and> ox_table w' = Some t' \<and>
    received (ox_sink w') = received (ox_sink w) @ map shown evs \<and> marks (ob_id ` set acked) t t' \<and>
    (\<forall>m. res = Inr m \<longrightarrow> acked = rows \<and> m = n + length rows)"
  using assms
proof (induction rows arbitrary: w n t)
  case Nil
  then show ?case using progress_none marks_refl by fastforce
next
  case (Cons row rows)
  show ?case
  proof (cases "row_event (oc_loads c) row")
    case (Inl x)
    with Cons.prems show ?thesis using progress_none marks_refl by fastforce
  next
    case event: (Inr e)
    obtain k out where out: "deliver (ox_sink w) e = (k, out)" by (cases "deliver (ox_sink w) e")
    show ?thesis
    proof (cases out)
      case (Inl x)
      have w': "w' = w\<lparr>ox_sink := k\<rparr>" "res = Inl x" using Cons.prems(1) event out Inl by simp_all
      from refused [of "ox_sink w" e k x] out Inl
      consider "received k = received (ox_sink w)" | "received k = received (ox_sink w) @ [shown e]" by auto
      then show ?thesis
      proof cases
        case 1
        then show ?thesis using w' Cons.prems(2) progress_none marks_refl by fastforce
      next
        case 2
        then show ?thesis
          by (intro progress_exI [of _ _ "[row]" "[]" "[e]" _ t])
             (simp_all add: w' Cons.prems(2) progress_unmarked [OF event] marks_refl)
      qed
    next
      case (Inr u)
      have got: "received k = received (ox_sink w) @ [shown e]" using delivered out Inr by simp
      obtain w1 r1 where marked: "mark_processed c (w\<lparr>ox_sink := k\<rparr>) (ob_id row) = (w1, r1)"
        by (cases "mark_processed c (w\<lparr>ox_sink := k\<rparr>) (ob_id row)")
      obtain t1 ids where one: "ox_sink w1 = k" "ox_table w1 = Some t1" "marks ids t t1"
        "ids = {ob_id row} \<or> ids = {} \<and> \<not> is_ok r1"
        using mark_processed_cases [OF marked] Cons.prems(2) by auto
      show ?thesis
      proof (cases r1)
        case (Inl x)
        then have w': "w' = w1" "res = Inl x" using Cons.prems(1) event out Inr marked by simp_all
        from one(4) show ?thesis
        proof
          assume "ids = {ob_id row}"
          moreover have "progress (oc_loads c) (row # rows) [row] [row] [e]"
            using progress_Cons [OF progress_none event] .
          ultimately show ?thesis
            by (intro progress_exI [of _ _ "[row]" "[row]" "[e]" _ t1]) (use w' one got in simp_all)
        next
          assume "ids = {} \<and> \<not> is_ok r1"
          then show ?thesis
            by (intro progress_exI [of _ _ "[row]" "[]" "[e]" _ t1])
               (use w' one got progress_unmarked [OF event] in simp_all)
        qed
      next
        case r1: (Inr v)
        have ids: "ids = {ob_id row}" using one(4) r1 by auto
        have "deliver_rows c deliver w1 (Suc n) rows = (w', res)"
          using Cons.prems(1) event out Inr marked r1 by simp
        from Cons.IH [OF this one(2)] obtain sent acked evs t' where
          ih: "progress (oc_loads c) rows sent acked evs" "ox_table w' = Some t'"
            "received (ox_sink w') = received (ox_sink w1) @ map shown evs" "marks (ob_id ` set acked) t1 t'"
            "\<forall>m. res = Inr m \<longrightarrow> acked = rows \<and> m = Suc n + length rows"
          by blast
        have "marks (ob_id ` set (row # acked)) t t'"
          using marks_trans [OF one(3) ih(4)] by (simp add: ids)
        then show ?thesis
          by (intro progress_exI [of _ _ "row # sent" "row # acked" "e # evs" _ t'])
             (use progress_Cons [OF ih(1) event] ih(2,3,5) got one(1) in auto)
      qed
    qed
  qed
qed

lemma deliver_backlog_progress:
  assumes "deliver_backlog c deliver w = (w', res)" and "ox_table w = Some t"
  shows "\<exists>sent acked evs t'. progress (oc_loads c) (pending t) sent acked evs \<and> ox_table w' = Some t' \<and>
    received (ox_sink w') = received (ox_sink w) @ map shown evs \<and> marks (ob_id ` set acked) t t' \<and>
    (\<forall>m. res = Inr m \<longrightarrow> acked = pending t \<and> m = length (pending t))"
proof (cases "oc_fault c (ox_calls w)")
  case None
  then have "deliver_rows c deliver (w\<lparr>ox_calls := Suc (ox_calls w)\<rparr>) 0 (pending t) = (w', res)"
    using assms by (simp add: deliver_backlog_def fetch_pending_def)
  from deliver_rows_progress [OF this] assms(2) show ?thesis by simp
next
  case (Some f)
  then have "w' = w\<lparr>ox_calls := Suc (ox_calls w)\<rparr>" "\<not> is_ok res"
    using assms by (auto simp: deliver_backlog_def fetch_pending_def split: prod.splits)
  then show ?thesis
    using assms(2) progress_none marks_refl by fastforce
qed

lemma deliver_rows_healthy:
  assumes "\<forall>n. oc_fault c n = None" "\<forall>k e. is_ok (snd (deliver k e))"
    and "\<forall>r \<in> set rows. is_ok (row_event (oc_loads c) r)"
  shows "is_ok (snd (deliver_rows c deliver w n rows))"
  using assms(3)
proof (induction rows arbitrary: w n)
  case (Cons row rows)
  then obtain e where e: "row_event (oc_loads c) row = Inr e" by (cases "row_event (oc_loads c) row") auto
  obtain k u where k: "deliver (ox_sink w) e = (k, Inr u)"
    using assms(2) by (metis is_ok.simps(1) prod.collapse sumE)
  have "\<exists>w1. mark_processed c (w\<lparr>ox_sink := k\<rparr>) (ob_id row) = (w1, Inr ())"
    using assms(1) by (simp add: mark_processed_def Let_def)
  with Cons e k show ?case by auto
qed simp

lemma deliver_backlog_healthy:
  assumes "\<forall>n. oc_fault c n = None" "\<forall>k e. is_ok (snd (deliver k e))"
    and "\<forall>r \<in> set (pending t). is_ok (row_event (oc_loads c) r)" "ox_table w = Some t"
  shows "is_ok (snd (deliver_backlog c deliver w))"
  using deliver_rows_healthy [OF assms(1-3)] assms(1,4)
  by (simp add: deliver_backlog_def fetch_pending_def)

end

interpretation rec: sink recording_sink_deliver "\<lambda>k. k" "\<lambda>e. e"
  by unfold_locales (auto simp: recording_sink_deliver_def)

interpretation logs: sink "log_sink_deliver isoformat" "\<lambda>k. k" "isoformat_entry isoformat" for isoformat
  by unfold_locales (auto simp: log_sink_deliver_def)

subsection \<open>Scans\<close>

text \<open>
  One scan, whatever fails in it: the rows handed over to the sink are the first pending ones in id
  order, each once, all of them marked processed except possibly the last, and nothing else of the table
  changes. A scan that returns has handed over and marked every pending row and returns their number.
\<close>

theorem outbox_scan_in_order:
  assumes "sink deliver received shown"
    and "deliver_backlog c deliver w = (w', res)" and "ox_table w = Some t"
  shows "\<exists>sent acked evs t'. prefix sent (pending t) \<and> prefix acked sent \<and> length sent \<le> Suc (length acked) \<and>
    list_all2 (\<lambda>r e. row_event (oc_loads c) r = Inr e) sent evs \<and>
    received (ox_sink w') = received (ox_sink w) @ map shown evs \<and>
    ox_table w' = Some t' \<and> marks (ob_id ` set acked) t t' \<and>
    (\<forall>m. res = Inr m \<longrightarrow> acked = pending t \<and> m = length (pending t))"
  using sink.deliver_backlog_progress [OF assms] unfolding progress_def by metis

lemma set_pending [simp]: "set (pending t) = {r \<in> set t. ob_processed_at r = None}"
  by (auto simp: pending_def)

lemma pending_Nil: "pending t = [] \<longleftrightarrow> (\<forall>r \<in> set t. ob_processed_at r \<noteq> None)"
  by (metis (mono_tags, lifting) empty_Collect_eq set_empty set_pending)

lemma pending_distinct: "distinct (map ob_id t) \<Longrightarrow> distinct (map ob_id (pending t))"
  unfolding pending_def by (auto simp: distinct_map filter_sort intro: inj_on_subset)

lemma marks_ids: "marks ids t t' \<Longrightarrow> map ob_id t' = map ob_id t"
  unfolding marks_def by (induction t t' rule: list_all2_induct) (auto split: if_splits)

lemma marks_unprocessed:
  "marks ids t t' \<Longrightarrow> filter (\<lambda>r. ob_processed_at r = None) t' =
     filter (\<lambda>r. ob_id r \<notin> ids) (filter (\<lambda>r. ob_processed_at r = None) t)"
  unfolding marks_def by (induction t t' rule: list_all2_induct) (auto split: if_splits)

lemma marks_origin:
  "marks ids t t' \<Longrightarrow> r' \<in> set t' \<Longrightarrow>
     \<exists>r \<in> set t. row_event loads r' = row_event loads r \<and> ob_id r' = ob_id r \<and> (ob_id r \<in> ids \<or> r' = r)"
  unfolding marks_def
  by (induction t t' rule: list_all2_induct) (auto simp: row_event_def split: if_splits)

lemma marks_pending_left:
  assumes "marks (ob_id ` set acked) t t'" "prefix acked (pending t)" "distinct (map ob_id t)"
  shows "length (filter (\<lambda>r. ob_processed_at r = None) t') + length acked =
    length (filter (\<lambda>r. ob_processed_at r = None) t)"
proof -
  obtain rest where rest: "pending t = acked @ rest" using assms(2) by (auto elim: prefixE)
  have "distinct (map ob_id (acked @ rest))" using pending_distinct [OF assms(3)] rest by simp
  then have "filter (\<lambda>r. ob_id r \<notin> ob_id ` set acked) (pending t) = rest"
    by (auto simp: rest filter_empty_conv intro!: filter_True)
  moreover have "mset (filter (\<lambda>r. ob_id r \<notin> ob_id ` set acked) (pending t)) =
      mset (filter (\<lambda>r. ob_processed_at r = None) t')"
    by (simp only: marks_unprocessed [OF assms(1)] pending_def mset_filter mset_sort)
  ultimately have "length (filter (\<lambda>r. ob_processed_at r = None) t') = length rest"
    by (metis size_mset)
  moreover have "length (pending t) = length (filter (\<lambda>r. ob_processed_at r = None) t)"
    by (simp add: pending_def)
  ultimately show ?thesis by (simp add: rest)
qed

subsection \<open>Histories\<close>

text \<open>
  What happens to an outbox over time: producers insert rows, the dispatcher scans. A scan that raises
  ends the dispatcher, and the next one belongs to its restart. \<open>failed\<close> counts the scans that raised.
\<close>

datatype outbox_action = Insert outbox_row | Scan conn

fun outbox_history :: "'k sink_deliver \<Rightarrow> outbox_action list \<Rightarrow> 'k outbox \<Rightarrow> nat \<Rightarrow> 'k outbox \<times> nat" where
  "outbox_history deliver [] w failed = (w, failed)"
| "outbox_history deliver (Insert r # xs) w failed =
     outbox_history deliver xs (w\<lparr>ox_table := map_option (\<lambda>t. t @ [r]) (ox_table w)\<rparr>) failed"
| "outbox_history deliver (Scan c # xs) w failed =
     (case deliver_backlog c deliver w of
        (w', Inl e) \<Rightarrow> outbox_history deliver xs w' (Suc failed)
      | (w', Inr n) \<Rightarrow> outbox_history deliver xs w' failed)"

fun inserted :: "outbox_action list \<Rightarrow> outbox_row list" where
  "inserted [] = []"
| "inserted (Insert r # xs) = r # inserted xs"
| "inserted (Scan c # xs) = inserted xs"

text \<open>No processed row whose event the sink has not got, and one duplicate at most per failed scan.\<close>

definition outbox_inv ::
  "(string \<Rightarrow> exn + json) \<Rightarrow> (OutboxEvent \<Rightarrow> 'v) \<Rightarrow> outbox_row list \<Rightarrow> 'v list \<Rightarrow> nat \<Rightarrow> bool"
where
  "outbox_inv loads shown t got failed \<longleftrightarrow>
     (\<forall>r \<in> set t. ob_processed_at r \<noteq> None \<longrightarrow> (\<exists>e. row_event loads r = Inr e \<and> shown e \<in> set got)) \<and>
     length got + length (filter (\<lambda>r. ob_processed_at r = None) t) \<le> length t + failed"

lemma outbox_inv_insert:
  "outbox_inv loads shown t got failed \<Longrightarrow> ob_processed_at r = None \<Longrightarrow>
     outbox_inv loads shown (t @ [r]) got failed"
  by (auto simp: outbox_inv_def)

lemma list_all2_member: "list_all2 P xs ys \<Longrightarrow> x \<in> set xs \<Longrightarrow> \<exists>y \<in> set ys. P x y"
  by (induction xs ys rule: list_all2_induct) auto

lemma outbox_inv_scan:
  assumes "outbox_inv loads shown t got failed" and "distinct (map ob_id t)"
    and "progress loads (pending t) sent acked evs" and "marks (ob_id ` set acked) t t'"
    and "\<not> failing \<Longrightarrow> acked = pending t"
  shows "outbox_inv loads shown t' (got @ map shown evs) (if failing then Suc failed else failed)"
proof -
  from assms(3) have pre: "prefix sent (pending t)" "prefix acked sent" "length sent \<le> Suc (length acked)"
    and evs: "list_all2 (\<lambda>r e. row_event loads r = Inr e) sent evs"
    by (auto simp: progress_def)
  have acked: "prefix acked (pending t)" using pre(1,2) by (rule prefix_order.trans [rotated])
  have left: "length (filter (\<lambda>r. ob_processed_at r = None) t') + length acked =
      length (filter (\<lambda>r. ob_processed_at r = None) t)"
    by (rule marks_pending_left [OF assms(4) acked assms(2)])
  have len: "length evs = length sent" using evs by (simp add: list_all2_lengthD)
  have sent: "length sent \<le> length acked + (if failing then 1 else 0)"
    using assms(5) pre(1,3) by (cases failing) (auto dest: prefix_length_le)
  have same: "length t' = length t" using marks_ids [OF assms(4)] by (metis length_map)
  have "\<exists>e. row_event loads r' = Inr e \<and> shown e \<in> set (got @ map shown evs)"
    if r': "r' \<in> set t'" "ob_processed_at r' \<noteq> None" for r'
  proof -
    obtain r where r: "r \<in> set t" "row_event loads r' = row_event loads r" "ob_id r \<in> ob_id ` set acked \<or> r' = r"
      using marks_origin [OF assms(4) r'(1)] by blast
    show ?thesis
    proof (cases "ob_processed_at r")
      case (Some n)
      with assms(1) r show ?thesis by (auto simp: outbox_inv_def)
    next
      case None
      with r r'(2) obtain a where a: "a \<in> set acked" "ob_id a = ob_id r" by auto
      then have "a \<in> set t" using set_mono_prefix [OF acked] by auto
      then have "a = r" using assms(2) r(1) a(2) by (metis distinct_map inj_on_eq_iff)
      then have "r \<in> set sent" using a set_mono_prefix [OF pre(2)] by auto
      then obtain e where "row_event loads r = Inr e" "e \<in> set evs"
        using list_all2_member [OF evs] by blast
      with r(2) show ?thesis by auto
    qed
  qed
  with assms(1) left len sent same show ?thesis
    by (auto simp: outbox_inv_def)
qed

context sink
begin

lemma history_inv:
  assumes "ox_table w = Some t" and "outbox_inv loads shown t (received (ox_sink w)) failed"
    and "distinct (map ob_id (t @ inserted xs))" and "\<forall>r \<in> set (inserted xs). ob_processed_at r = None"
    and "\<forall>c. Scan c \<in> set xs \<longrightarrow> oc_loads c = loads"
    and "outbox_history deliver xs w failed = (w', failed')"
  shows "\<exists>t'. ox_table w' = Some t' \<and> map ob_id t' = map ob_id (t @ inserted xs) \<and>
    outbox_inv loads shown t' (received (ox_sink w')) failed'"
  using assms
proof (induction xs arbitrary: w t failed)
  case (Cons x xs)
  show ?case
  proof (cases x)
    case (Insert r)
    let ?w = "w\<lparr>ox_table := Some (t @ [r])\<rparr>"
    have inv: "outbox_inv loads shown (t @ [r]) (received (ox_sink ?w)) failed"
      using outbox_inv_insert [OF Cons.prems(2), of r] Cons.prems(4) Insert by simp
    have rest: "outbox_history deliver xs ?w failed = (w', failed')"
      using Cons.prems(1,6) Insert by simp
    have ids: "distinct (map ob_id ((t @ [r]) @ inserted xs))"
      using Cons.prems(3) Insert by simp
    have fresh: "\<forall>r \<in> set (inserted xs). ob_processed_at r = None" "\<forall>c. Scan c \<in> set xs \<longrightarrow> oc_loads c = loads"
      using Cons.prems(4,5) Insert by auto
    have "ox_table ?w = Some (t @ [r])" by simp
    from Cons.IH [OF this inv ids fresh rest] show ?thesis by (simp add: Insert)
  next
    case (Scan c)
    obtain w1 res where scan: "deliver_backlog c deliver w = (w1, res)" by (cases "deliver_backlog c deliver w")
    have loads: "oc_loads c = loads" using Cons.prems(5) unfolding Scan by (meson list.set_intros(1))
    obtain sent acked evs t1 where p: "progress loads (pending t) sent acked evs" "ox_table w1 = Some t1"
        "received (ox_sink w1) = received (ox_sink w) @ map shown evs" "marks (ob_id ` set acked) t t1"
        "\<forall>m. res = Inr m \<longrightarrow> acked = pending t"
      using deliver_backlog_progress [OF scan Cons.prems(1)] unfolding loads by blast
    let ?failed = "if is_ok res then failed else Suc failed"
    have ids: "map ob_id t1 = map ob_id t" by (rule marks_ids [OF p(4)])
    have "distinct (map ob_id t)" using Cons.prems(3) by simp
    then have "outbox_inv loads shown t1 (received (ox_sink w1)) (if \<not> is_ok res then Suc failed else failed)"
      unfolding p(3) by (rule outbox_inv_scan [OF Cons.prems(2) _ p(1,4)]) (use p(5) in \<open>cases res; simp\<close>)
    then have inv: "outbox_inv loads shown t1 (received (ox_sink w1)) ?failed" by (simp split: if_splits)
    have rest: "outbox_history deliver xs w1 ?failed = (w', failed')"
      using Cons.prems(6) Scan scan by (cases res) auto
    have distinct: "distinct (map ob_id (t1 @ inserted xs))"
      unfolding map_append ids using Cons.prems(3) unfolding Scan inserted.simps map_append .
    have fresh: "\<forall>r \<in> set (inserted xs). ob_processed_at r = None" "\<forall>c. Scan c \<in> set xs \<longrightarrow> oc_loads c = loads"
      using Cons.prems(4) Scan Cons.prems(5) by (simp, meson list.set_intros(2))
    from Cons.IH [OF p(2) inv distinct fresh rest] show ?thesis
      unfolding map_append ids Scan inserted.simps .
  qed
qed simp

end

text \<open>
  C20. At-least-once delivery: after any history of inserts and scans that starts with an empty table, over
  all the crashes, lost connections and failing deliveries in it, no row is lost, every row marked processed
  has reached the sink, and the sink got at most one duplicate per scan that failed.
\<close>

theorem outbox_at_least_once:
  assumes "sink deliver received shown" and "received k = []"
    and "distinct (map ob_id (inserted xs))" and "\<forall>r \<in> set (inserted xs). ob_processed_at r = None"
    and "\<forall>c. Scan c \<in> set xs \<longrightarrow> oc_loads c = loads"
    and "outbox_history deliver xs \<lparr>ox_table = Some [], ox_sink = k, ox_calls = 0\<rparr> 0 = (w, failed)"
  shows "\<exists>t. ox_table w = Some t \<and> map ob_id t = map ob_id (inserted xs) \<and>
    (\<forall>r \<in> set t. ob_processed_at r \<noteq> None \<longrightarrow>
      (\<exists>e. row_event loads r = Inr e \<and> shown e \<in> set (received (ox_sink w)))) \<and>
    length (received (ox_sink w)) \<le> length (filter (\<lambda>r. ob_processed_at r \<noteq> None) t) + failed"
proof -
  let ?w = "\<lparr>ox_table = Some [], ox_sink = k, ox_calls = 0\<rparr>"
  have "outbox_inv loads shown [] (received (ox_sink ?w)) 0" by (simp add: outbox_inv_def assms(2))
  from sink.history_inv [OF assms(1) _ this _ assms(4,5,6)] assms(3)
  obtain t where t: "ox_table w = Some t" "map ob_id t = map ob_id (inserted xs)"
    and inv: "outbox_inv loads shown t (received (ox_sink w)) failed"
    by auto
  have "length (filter (\<lambda>r. ob_processed_at r = None) t) + length (filter (\<lambda>r. ob_processed_at r \<noteq> None) t) = length t"
    by (rule sum_length_filter_compl)
  with inv have "length (received (ox_sink w)) \<le> length (filter (\<lambda>r. ob_processed_at r \<noteq> None) t) + failed"
    by (simp add: outbox_inv_def)
  moreover have "\<forall>r \<in> set t. ob_processed_at r \<noteq> None \<longrightarrow>
      (\<exists>e. row_event loads r = Inr e \<and> shown e \<in> set (received (ox_sink w)))"
    using inv by (simp add: outbox_inv_def)
  ultimately show ?thesis using t by blast
qed

lemma deliver_backlog_drains:
  assumes "sink deliver received shown" and "\<forall>n. oc_fault c n = None" and "\<forall>k e. is_ok (snd (deliver k e))"
    and "\<forall>text. is_ok (oc_loads c text)" and "ox_table w = Some t"
  obtains w' t' where "deliver_backlog c deliver w = (w', Inr (length (pending t)))" "ox_table w' = Some t'"
    "pending t' = []"
proof -
  have "is_ok (row_event (oc_loads c) r)" for r
    using assms(4) by (cases "ob_payload r"; cases "oc_loads c (case ob_payload r of Text s \<Rightarrow> s | Decoded j \<Rightarrow> [])")
      (auto simp: row_event_def dest: spec [of _ "case ob_payload r of Text s \<Rightarrow> s | Decoded j \<Rightarrow> []"])
  then have "is_ok (snd (deliver_backlog c deliver w))"
    by (intro sink.deliver_backlog_healthy [OF assms(1,2,3) _ assms(5)]) auto
  then obtain w' m where run: "deliver_backlog c deliver w = (w', Inr m)"
    by (cases "deliver_backlog c deliver w"; cases "snd (deliver_backlog c deliver w)") auto
  obtain sent acked evs t' where p: "progress (oc_loads c) (pending t) sent acked evs" "ox_table w' = Some t'"
      "marks (ob_id ` set acked) t t'" "\<forall>n. Inr m = (Inr n :: exn + nat) \<longrightarrow> acked = pending t \<and> n = length (pending t)"
    using sink.deliver_backlog_progress [OF assms(1) run assms(5)] by blast
  from p(3,4) have "filter (\<lambda>r. ob_processed_at r = None) t' = []"
    by (auto simp: marks_unprocessed filter_empty_conv)
  then have "pending t' = []" by (simp add: pending_def)
  with that run p(2,4) show ?thesis by auto
qed

lemma dispatch_loop_drains:
  assumes "sink deliver received shown" and "\<forall>n. oc_fault c n = None" and "\<forall>k e. is_ok (snd (deliver k e))"
    and "\<forall>text. is_ok (oc_loads c text)" and "\<forall>f \<in> set wakes. \<forall>t. f (Some t) \<noteq> None"
    and "ox_table w = Some t" "pending t = []"
  shows "\<exists>w' t'. dispatch_loop c deliver wakes w = (w', Inr ()) \<and> ox_table w' = Some t' \<and> pending t' = []"
  using assms(5-7)
proof (induction wakes arbitrary: w t)
  case (Cons f wakes)
  obtain t1 where t1: "f (Some t) = Some t1" using Cons.prems(1) by fastforce
  obtain w' t' where one: "deliver_backlog c deliver (w\<lparr>ox_table := f (ox_table w)\<rparr>) = (w', Inr (length (pending t1)))"
      "ox_table w' = Some t'" "pending t' = []"
    by (rule deliver_backlog_drains [OF assms(1-4), of "w\<lparr>ox_table := f (ox_table w)\<rparr>" t1])
       (simp_all add: Cons.prems(2) t1)
  show ?case
    using Cons.IH [OF _ one(2,3)] Cons.prems(1) one(1) by simp
qed simp

lemma dispatcher_run_drains:
  assumes "sink deliver received shown" and "\<forall>n. oc_fault c n = None" and "\<forall>k e. is_ok (snd (deliver k e))"
    and "\<forall>text. is_ok (oc_loads c text)" and "\<forall>f \<in> set wakes. \<forall>t. f (Some t) \<noteq> None"
    and "ox_table w = Some t"
  shows "\<exists>w' t'. dispatcher_run c deliver wakes w = (w', Inr ()) \<and> ox_table w' = Some t' \<and> pending t' = []"
proof -
  obtain w1 t1 where one: "deliver_backlog c deliver w = (w1, Inr (length (pending t)))" "ox_table w1 = Some t1"
      "pending t1 = []"
    by (rule deliver_backlog_drains [OF assms(1-4,6)])
  have "conn_call c w1 = (w1\<lparr>ox_calls := Suc (ox_calls w1)\<rparr>, Inr ())" for w1 :: "'a outbox"
    using assms(2) by (simp add: conn_call_def)
  moreover obtain w2 t2 where "dispatch_loop c deliver wakes (w1\<lparr>ox_calls := Suc (ox_calls w1)\<rparr>) = (w2, Inr ())"
    "ox_table w2 = Some t2" "pending t2 = []"
    using dispatch_loop_drains [OF assms(1-5), of "w1\<lparr>ox_calls := Suc (ox_calls w1)\<rparr>" t1] one(2,3) by auto
  ultimately show ?thesis
    using one(1) by (simp add: dispatcher_run_def dispatcher_body_def)
qed

text \<open>
  C21. The dispatcher keeps up: while its connection, its sink and the decoding of payloads do not fail, every
  iteration of its loop returns, whatever rows other transactions inserted while it waited (however the
  doorbell rang), and each leaves no unprocessed row of the table behind.
\<close>

theorem dispatcher_drains_outbox:
  assumes "sink deliver received shown" and "\<forall>n. oc_fault c n = None" and "\<forall>k e. is_ok (snd (deliver k e))"
    and "\<forall>text. is_ok (oc_loads c text)" and "\<forall>f \<in> set wakes. \<forall>t. f (Some t) \<noteq> None"
    and "ox_table w = Some t"
  shows "\<exists>w' t'. dispatcher_run c deliver wakes w = (w', Inr ()) \<and> ox_table w' = Some t' \<and> pending t' = []"
  using assms by (rule dispatcher_run_drains)

text \<open>A missing table is not an error: the scan warns, delivers nothing and returns 0.\<close>

lemma missing_table_tolerated:
  "ox_table w = None \<Longrightarrow> oc_fault c (ox_calls w) = None \<Longrightarrow>
     deliver_backlog c deliver w = (w\<lparr>ox_calls := Suc (ox_calls w)\<rparr>, Inr 0)"
  by (simp add: deliver_backlog_def fetch_pending_def)

subsection \<open>Witnesses\<close>

definition sample_event_row :: "int \<Rightarrow> outbox_row" where
  "sample_event_row i = \<lparr>ob_id = i, ob_event_type = ''created'', ob_payload = Decoded JNull, ob_occurred_at = 5,
     ob_processed_at = None\<rparr>"

text \<open>The first connection is lost after the first \<open>UPDATE\<close> was sent, and before it took effect.\<close>

definition sample_conn :: "nat \<Rightarrow> conn" where
  "sample_conn n = \<lparr>oc_fault = (\<lambda>i. if i = n then Some (ExternalError ''ConnectionResetError'', False) else None),
     oc_now = (\<lambda>i. 7), oc_loads = (\<lambda>s. Inr (JStr s))\<rparr>"

definition healthy_conn :: conn where
  "healthy_conn = \<lparr>oc_fault = (\<lambda>i. None), oc_now = (\<lambda>i. 7), oc_loads = (\<lambda>s. Inr (JStr s))\<rparr>"

definition sample_outbox :: "OutboxEvent list outbox" where
  "sample_outbox = \<lparr>ox_table = Some [sample_event_row 2, sample_event_row 1], ox_sink = [], ox_calls = 0\<rparr>"

lemma sample_scan:
  "map oe_id (ox_sink (fst (deliver_backlog (sample_conn 2) recording_sink_deliver sample_outbox))) = [1, 2]"
  "map ob_processed_at (the (ox_table (fst (deliver_backlog (sample_conn 2) recording_sink_deliver sample_outbox)))) =
     [None, Some 7]"
  "\<not> is_ok (snd (deliver_backlog (sample_conn 2) recording_sink_deliver sample_outbox))"
  by (simp_all add: deliver_backlog_def fetch_pending_def sample_conn_def sample_outbox_def pending_def sample_event_row_def
      row_event_def recording_sink_deliver_def mark_processed_def mark_def Let_def)

lemma outbox_scan_in_order_witness:
  "\<exists>acked. prefix acked (pending [sample_event_row 2, sample_event_row 1]) \<and>
     marks (ob_id ` set acked) [sample_event_row 2, sample_event_row 1]
       (the (ox_table (fst (deliver_backlog (sample_conn 2) recording_sink_deliver sample_outbox))))"
proof -
  obtain w' res where run: "deliver_backlog (sample_conn 2) recording_sink_deliver sample_outbox = (w', res)"
    by (cases "deliver_backlog (sample_conn 2) recording_sink_deliver sample_outbox")
  have "ox_table sample_outbox = Some [sample_event_row 2, sample_event_row 1]" by (simp add: sample_outbox_def)
  from outbox_scan_in_order [OF rec.sink_axioms run this] show ?thesis
    unfolding run by (auto intro: prefix_order.trans)
qed

lemma outbox_at_least_once_witness:
  "length (ox_sink (fst (outbox_history recording_sink_deliver
      [Insert (sample_event_row 1), Scan (sample_conn 1), Scan healthy_conn]
      \<lparr>ox_table = Some [], ox_sink = [], ox_calls = 0\<rparr> 0))) \<le> 2"
proof -
  let ?xs = "[Insert (sample_event_row 1), Scan (sample_conn 1), Scan healthy_conn]"
  obtain w failed where run: "outbox_history recording_sink_deliver ?xs
      \<lparr>ox_table = Some [], ox_sink = [], ox_calls = 0\<rparr> 0 = (w, failed)"
    by (cases "outbox_history recording_sink_deliver ?xs \<lparr>ox_table = Some [], ox_sink = [], ox_calls = 0\<rparr> 0")
  have failed: "failed = 1"
    using run by (simp add: deliver_backlog_def fetch_pending_def sample_conn_def healthy_conn_def pending_def
      sample_event_row_def row_event_def recording_sink_deliver_def mark_processed_def mark_def Let_def)
  have distinct: "distinct (map ob_id (inserted ?xs))" by simp
  have fresh: "\<forall>r \<in> set (inserted ?xs). ob_processed_at r = None" by (simp add: sample_event_row_def)
  have loads: "\<forall>c. Scan c \<in> set ?xs \<longrightarrow> oc_loads c = (\<lambda>s. Inr (JStr s))"
    by (simp add: sample_conn_def healthy_conn_def)
  obtain t :: "outbox_row list" where t: "map ob_id t = map ob_id (inserted ?xs)"
    and len: "length (ox_sink w) \<le> length (filter (\<lambda>r. ob_processed_at r \<noteq> None) t) + failed"
    using outbox_at_least_once [OF rec.sink_axioms refl distinct fresh loads run] by blast
  have "length t = 1" using t by (metis One_nat_def inserted.simps length_map list.size(3,4) add_0)
  then have "length (filter (\<lambda>r. ob_processed_at r \<noteq> None) t) \<le> 1"
    using length_filter_le [of "\<lambda>r. ob_processed_at r \<noteq> None" t] by simp
  with len failed run show ?thesis by simp
qed

lemma dispatcher_drains_outbox_witness:
  "\<exists>w' t'. dispatcher_run healthy_conn recording_sink_deliver [map_option (\<lambda>t. t @ [sample_event_row 3])] sample_outbox =
     (w', Inr ()) \<and> ox_table w' = Some t' \<and> pending t' = []"
  by (rule dispatcher_drains_outbox [OF rec.sink_axioms, where t = "[sample_event_row 2, sample_event_row 1]"])
     (simp_all add: healthy_conn_def recording_sink_deliver_def sample_outbox_def)

end
