(* ===== verification/Tenant_Names.thy ===== *)
theory Tenant_Names
  imports Prelude
begin

text \<open>
  What a tenant is called on the shared layers: its Redis namespace and ACL user
  (\<open>basic_infra_redis_client/namespace.py\<close>), its PostgreSQL database (\<open>postgres/_port.py\<close>), the name the
  PostgreSQL SDK derives by itself (\<open>basic_infra_postgres_client/config.py\<close>), and how they compare.
\<close>

subsection \<open>Redis\<close>

definition in_az :: "char \<Rightarrow> bool" where
  "in_az c \<longleftrightarrow> is_lower c"

definition in_az09 :: "char \<Rightarrow> bool" where
  "in_az09 c \<longleftrightarrow> is_lower c \<or> is_digit c"

definition namespace_char :: "char \<Rightarrow> bool" where
  "namespace_char c \<longleftrightarrow> in_az09 c \<or> c = CHR ''_''"

text \<open>\<open>_SANITIZE.sub("_", s)\<close>: every maximal run of other characters becomes one underscore.\<close>

function sub_runs :: "string \<Rightarrow> string" where
  "sub_runs [] = []"
| "sub_runs (c # cs) =
     (if namespace_char c then c # sub_runs cs
      else CHR ''_'' # sub_runs (dropWhile (\<lambda>x. \<not> namespace_char x) cs))"
  by pat_completeness auto
termination by (relation "measure length") (auto simp: le_imp_less_Suc length_dropWhile_le)

definition strip_underscores :: "string \<Rightarrow> string" where
  "strip_underscores s = strip_where (\<lambda>c. c = CHR ''_'') s"

definition derive_namespace :: "string \<Rightarrow> exn + string" where
  "derive_namespace tenant =
     (let norm = strip_underscores (sub_runs (py_lower (py_strip tenant)))
      in if norm = [] then Inl (ValueError (''tenant '' @ tenant @ '' normalises to an empty namespace''))
         else Inr norm)"

definition derive_username :: "string \<Rightarrow> exn + string" where
  "derive_username tenant = rmap (\<lambda>ns. ''app_'' @ ns) (derive_namespace tenant)"

definition namespace_key :: "string \<Rightarrow> string \<Rightarrow> string" where
  "namespace_key namespace name = namespace @ '':'' @ name"

subsection \<open>PostgreSQL\<close>

datatype pg_exn = InvalidTenantError string | PgExn exn

text \<open>
  \<open>^[a-z][a-z0-9-]{0,61}[a-z0-9]$\<close>, and \<open>match\<close> on it: \<open>$\<close> also matches before a final newline.
\<close>

definition tenant_core :: "string \<Rightarrow> bool" where
  "tenant_core s \<longleftrightarrow> 2 \<le> length s \<and> length s \<le> 63 \<and> in_az (hd s) \<and>
     list_all (\<lambda>c. in_az09 c \<or> c = CHR ''-'') (butlast (tl s)) \<and> in_az09 (last s)"

definition tenant_re_match :: "string \<Rightarrow> bool" where
  "tenant_re_match s \<longleftrightarrow> tenant_core s \<or> (s \<noteq> [] \<and> last s = CHR 0x0A \<and> tenant_core (butlast s))"

definition replace_hyphens :: "string \<Rightarrow> string" where
  "replace_hyphens s = map (\<lambda>c. if c = CHR ''-'' then CHR ''_'' else c) s"

definition database_name :: "string \<Rightarrow> pg_exn + string" where
  "database_name tenant =
     (if \<not> tenant_re_match tenant then Inl (InvalidTenantError (''tenant '' @ tenant))
      else let name = replace_hyphens tenant
           in if length name > 63 then Inl (InvalidTenantError name) else Inr name)"

text \<open>\<open>grant_runtime_role\<close> names the role after the tenant itself.\<close>

definition runtime_role :: "string \<Rightarrow> string" where
  "runtime_role tenant = ''app_'' @ tenant"

definition resolve_database :: "string option \<Rightarrow> string \<Rightarrow> string option" where
  "resolve_database database tenant =
     (case database of None \<Rightarrow> Some (replace_hyphens (py_lower tenant)) | Some d \<Rightarrow> Some d)"

subsection \<open>Namespaces\<close>

lemma namespace_char_underscore [simp]: "namespace_char CHR ''_''"
  by (simp add: namespace_char_def)

lemma namespace_char_facts:
  "namespace_char c \<Longrightarrow> \<not> is_space c \<and> \<not> is_upper c \<and> c \<noteq> CHR '':''"
  by (auto simp: namespace_char_def in_az09_def is_lower_def is_digit_def is_space_def is_upper_def char_code_def)

lemma sub_runs_chars: "c \<in> set (sub_runs s) \<Longrightarrow> namespace_char c"
  by (induction s rule: sub_runs.induct) (auto simp: namespace_char_def split: if_splits)

lemma sub_runs_id: "list_all namespace_char s \<Longrightarrow> sub_runs s = s"
  by (induction s) auto

lemma derive_namespace_chars:
  assumes "derive_namespace t = Inr ns"
  shows "ns \<noteq> []" "list_all namespace_char ns" "hd ns \<noteq> CHR ''_''" "last ns \<noteq> CHR ''_''"
proof -
  have ns: "ns = strip_underscores (sub_runs (py_lower (py_strip t)))" and ne: "ns \<noteq> []"
    using assms by (auto simp: derive_namespace_def Let_def split: if_splits)
  show "ns \<noteq> []" by (rule ne)
  show "list_all namespace_char ns"
    using set_strip_where sub_runs_chars unfolding ns strip_underscores_def list_all_iff by blast
  show "hd ns \<noteq> CHR ''_''" "last ns \<noteq> CHR ''_''"
    using strip_where_ends ne unfolding ns strip_underscores_def by blast+
qed

lemma strip_where_keeps: "s \<noteq> [] \<Longrightarrow> \<not> p (hd s) \<Longrightarrow> \<not> p (last s) \<Longrightarrow> strip_where p s = s"
proof -
  assume s: "s \<noteq> []" "\<not> p (hd s)" "\<not> p (last s)"
  have "dropWhile p s = s" using s(1,2) by (cases s) auto
  moreover have "dropWhile p (rev s) = rev s" using s(1,3) by (cases s rule: rev_cases) auto
  ultimately show ?thesis by (simp add: strip_where_def)
qed

lemma py_lower_id: "list_all (\<lambda>c. \<not> is_upper c) s \<Longrightarrow> py_lower s = s"
  unfolding py_lower_def list_all_iff by (induction s) (auto simp: lower_char_def)

lemma derive_namespace_fixed:
  assumes "ns \<noteq> []" "list_all namespace_char ns" "hd ns \<noteq> CHR ''_''" "last ns \<noteq> CHR ''_''"
  shows "derive_namespace ns = Inr ns"
proof -
  have "py_strip ns = ns"
    unfolding py_strip_def using assms(2) by (intro strip_where_none) (auto simp: list_all_iff dest: namespace_char_facts)
  moreover have "py_lower ns = ns"
    using assms(2) by (intro py_lower_id) (auto simp: list_all_iff dest: namespace_char_facts)
  ultimately show ?thesis
    using assms by (simp add: derive_namespace_def sub_runs_id strip_underscores_def strip_where_keeps)
qed

lemma namespace_no_colon: "derive_namespace t = Inr ns \<Longrightarrow> CHR '':'' \<notin> set ns"
  using derive_namespace_chars(2) namespace_char_facts by (auto simp: list_all_iff)

text \<open>
  C40. A Redis namespace is a nonempty word of \<open>[a-z0-9_]\<close> that neither starts nor ends with an underscore and
  derives to itself, so the separator occurs in no namespace: a key under one namespace is never a key under
  another one, whatever names the callers choose.
\<close>

theorem namespaces_partition_keys:
  assumes "derive_namespace t = Inr ns" and "derive_namespace t' = Inr ns'"
  shows "ns \<noteq> [] \<and> list_all namespace_char ns \<and> hd ns \<noteq> CHR ''_'' \<and> last ns \<noteq> CHR ''_'' \<and>
    derive_namespace ns = Inr ns \<and>
    (namespace_key ns name = namespace_key ns' name' \<longleftrightarrow> ns = ns' \<and> name = name') \<and>
    (starts_with (namespace_key ns name) (ns' @ '':'') \<longleftrightarrow> ns = ns')"
proof -
  note no_colon = namespace_no_colon [OF assms(1)] namespace_no_colon [OF assms(2)]
  have "starts_with (namespace_key ns name) (ns' @ '':'') \<longleftrightarrow> ns = ns'"
    using split_at_sep [OF no_colon] by (auto simp: starts_with_iff namespace_key_def)
  then show ?thesis
    using derive_namespace_chars [OF assms(1)] derive_namespace_fixed
    by (simp add: namespace_key_def split_at_sep [OF no_colon])
qed

subsection \<open>Database names\<close>

lemma in_az09_cases: "in_az09 c \<Longrightarrow> namespace_char c \<and> c \<noteq> CHR ''-'' \<and> c \<noteq> CHR 0x0A"
  by (auto simp: in_az09_def namespace_char_def is_lower_def is_digit_def char_code_def)

lemma in_az_09: "in_az c \<Longrightarrow> in_az09 c"
  by (simp add: in_az_def in_az09_def)

lemma tenant_core_chars:
  assumes "tenant_core s" "c \<in> set s"
  shows "in_az09 c \<or> c = CHR ''-''"
proof -
  obtain x y zs where s: "s = x # zs @ [y]"
  proof -
    obtain x r where "s = x # r" using assms(1) by (cases s) (auto simp: tenant_core_def)
    moreover then obtain zs y where "r = zs @ [y]"
      using assms(1) by (cases r rule: rev_cases) (auto simp: tenant_core_def)
    ultimately show ?thesis using that by blast
  qed
  with assms show ?thesis by (auto simp: tenant_core_def list_all_iff in_az_09)
qed

text \<open>A tenant the pattern accepts: a plain word, or one with a final newline.\<close>

lemma tenant_re_match_chars: "tenant_re_match s \<Longrightarrow> c \<in> set s \<Longrightarrow> in_az09 c \<or> c = CHR ''-'' \<or> c = CHR 0x0A"
  unfolding tenant_re_match_def
  using tenant_core_chars by (metis append_butlast_last_id in_set_conv_decomp_last rotate1.simps(2) set_ConsD set_rotate1)

lemma tenant_re_match_butlast: "tenant_re_match s \<Longrightarrow> c \<in> set (butlast s) \<Longrightarrow> in_az09 c \<or> c = CHR ''-''"
  unfolding tenant_re_match_def using tenant_core_chars in_set_butlastD by metis

lemma replace_hyphens_inject:
  "CHR ''_'' \<notin> set s \<Longrightarrow> CHR ''_'' \<notin> set s' \<Longrightarrow> replace_hyphens s = replace_hyphens s' \<longleftrightarrow> s = s'"
proof (induction s arbitrary: s')
  case Nil
  then show ?case by (cases s') (auto simp: replace_hyphens_def)
next
  case (Cons c s)
  then show ?case by (cases s') (auto simp: replace_hyphens_def)
qed

lemma database_name_Inr:
  "database_name t = Inr d \<longleftrightarrow> tenant_re_match t \<and> d = replace_hyphens t \<and> length d \<le> 63"
  by (auto simp: database_name_def Let_def replace_hyphens_def)

lemma tenant_re_match_facts:
  assumes "tenant_re_match t"
  shows "CHR ''_'' \<notin> set t" "t \<noteq> []" "in_az (hd t)"
proof -
  show "CHR ''_'' \<notin> set t"
    using tenant_re_match_chars [OF assms, of "CHR ''_''"]
    by (auto simp: in_az09_def is_lower_def is_digit_def char_code_def)
  show "t \<noteq> []" using assms by (auto simp: tenant_re_match_def tenant_core_def)
  show "in_az (hd t)"
    using assms by (cases t) (auto simp: tenant_re_match_def tenant_core_def split: if_splits)
qed

text \<open>
  One database per tenant: two tenants never get the same database name, and each name is an identifier
  PostgreSQL keeps whole (at most 63 characters), begins with a letter, and holds only \<open>[a-z0-9_]\<close>, or a
  newline that was the last character of the tenant.
\<close>

theorem database_names_separate_tenants:
  assumes "database_name t = Inr d" and "database_name t' = Inr d'"
  shows "(d = d' \<longleftrightarrow> t = t') \<and> length d \<le> 63 \<and> in_az (hd d) \<and>
    list_all namespace_char (butlast d) \<and> (namespace_char (last d) \<or> last t = CHR 0x0A)"
proof -
  from assms have t: "tenant_re_match t" "d = replace_hyphens t" "length d \<le> 63"
    and t': "tenant_re_match t'" "d' = replace_hyphens t'"
    by (auto simp: database_name_Inr)
  note facts = tenant_re_match_facts [OF t(1)]
  have chars: "list_all namespace_char (butlast d)"
    using tenant_re_match_butlast [OF t(1)] unfolding t(2) replace_hyphens_def map_butlast [symmetric] list_all_iff
    by (auto dest: in_az09_cases)
  have "hd d = hd t"
    using facts(2,3) t(2) by (cases t) (auto simp: replace_hyphens_def in_az_def is_lower_def char_code_def)
  moreover have "namespace_char (last d) \<or> last t = CHR 0x0A"
    using tenant_re_match_chars [OF t(1), of "last t"] facts(2)
    by (auto simp: t(2) replace_hyphens_def last_map dest: in_az09_cases)
  ultimately show ?thesis
    using replace_hyphens_inject [OF facts(1) tenant_re_match_facts(1) [OF t'(1)]] t t'(2) chars facts(3) by simp
qed

subsection \<open>The layers compared\<close>

lemma tenant_core_lower: "tenant_core t \<Longrightarrow> py_lower t = t \<and> py_strip t = t"
proof -
  assume t: "tenant_core t"
  have c: "\<not> is_space c \<and> \<not> is_upper c" if "c \<in> set t" for c
    using tenant_core_chars [OF t that]
    by (auto dest!: in_az09_cases namespace_char_facts simp: is_space_def is_upper_def char_code_def)
  show ?thesis
    unfolding py_strip_def by (intro conjI py_lower_id strip_where_none) (auto simp: list_all_iff c)
qed

lemma replace_hyphens_lower: "py_lower t = t \<Longrightarrow> replace_hyphens (py_lower t) = replace_hyphens t"
  by simp

lemma hyphen_no_namespace_char [simp]: "\<not> namespace_char CHR ''-''"
  by (simp add: namespace_char_def in_az09_def is_lower_def is_digit_def char_code_def)

text \<open>
  The PostgreSQL SDK and the control plane agree without talking to each other: for every tenant the
  control plane accepts, the database name the SDK's settings derive on their own is the name of the
  database the control plane creates; an explicit setting is left alone.
\<close>

theorem sdk_database_agrees:
  assumes "database_name t = Inr d"
  shows "resolve_database None t = Some d \<and> resolve_database (Some e) t = Some e"
proof -
  have "c \<in> set t \<Longrightarrow> \<not> is_upper c" for c
    using assms tenant_re_match_chars [of t c]
    by (auto simp: database_name_Inr is_upper_def char_code_def dest!: in_az09_cases namespace_char_facts)
  then have "py_lower t = t" by (intro py_lower_id) (simp add: list_all_iff)
  with assms show ?thesis by (simp add: resolve_database_def database_name_Inr)
qed

lemma sub_runs_hyphens:
  assumes "\<forall>c \<in> set s. in_az09 c \<or> c = CHR ''-''" "\<not> sublist ''--'' s"
  shows "sub_runs s = replace_hyphens s"
  using assms
proof (induction s)
  case (Cons c s)
  then have ih: "sub_runs s = replace_hyphens s" by (simp add: sublist_Cons_right)
  show ?case
  proof (cases "c = CHR ''-''")
    case True
    then have "\<not> prefix ''-'' s" using Cons.prems(2) by (auto simp: sublist_Cons_right)
    then have "dropWhile (\<lambda>x. \<not> namespace_char x) s = s"
      using Cons.prems(1) by (cases s) (auto dest: in_az09_cases)
    with True ih show ?thesis by (simp add: replace_hyphens_def)
  next
    case False
    with Cons.prems(1) ih show ?thesis by (auto simp: replace_hyphens_def dest: in_az09_cases)
  qed
qed (simp add: replace_hyphens_def)

lemma tenant_core_ends:
  assumes "tenant_core t"
  shows "replace_hyphens t \<noteq> [] \<and> hd (replace_hyphens t) \<noteq> CHR ''_'' \<and> last (replace_hyphens t) \<noteq> CHR ''_''"
proof -
  have ne: "t \<noteq> []" and h: "in_az09 (hd t)" and l: "in_az09 (last t)"
    using assms by (auto simp: tenant_core_def in_az_09)
  have u: "\<not> in_az09 CHR ''_''" "\<not> in_az09 CHR ''-''"
    by (simp_all add: in_az09_def is_lower_def is_digit_def char_code_def)
  show ?thesis
    using ne h l u unfolding replace_hyphens_def by (auto simp: hd_map last_map)
qed

text \<open>
  Where the layers mirror each other: a tenant without two hyphens in a row gets one name on the whole
  platform, its Redis namespace being its database name, so that on such tenants the namespaces are
  as separate as the databases.
\<close>

theorem layers_share_one_name:
  assumes "tenant_core t" and "\<not> sublist ''--'' t"
  shows "database_name t = Inr (replace_hyphens t) \<and> derive_namespace t = Inr (replace_hyphens t) \<and>
    derive_username t = Inr (''app_'' @ replace_hyphens t)"
proof -
  have "sub_runs t = replace_hyphens t"
    using assms tenant_core_chars by (intro sub_runs_hyphens) auto
  moreover have "strip_underscores (replace_hyphens t) = replace_hyphens t"
    using tenant_core_ends [OF assms(1)] by (simp add: strip_underscores_def strip_where_keeps)
  moreover have "length (replace_hyphens t) \<le> 63"
    using assms(1) by (simp add: tenant_core_def replace_hyphens_def)
  ultimately show ?thesis
    using tenant_core_lower [OF assms(1)] tenant_core_ends [OF assms(1)] assms(1)
    by (simp add: derive_username_def derive_namespace_def database_name_Inr tenant_re_match_def)
qed

lemma sub_runs_append: "a = [] \<or> namespace_char (last a) \<Longrightarrow> sub_runs (a @ s) = sub_runs a @ sub_runs s"
proof (induction a rule: sub_runs.induct)
  case (2 c cs)
  show ?case
  proof (cases "namespace_char c")
    case True
    then have "sub_runs (cs @ s) = sub_runs cs @ sub_runs s"
      using 2 by (intro 2(1)) (auto split: if_splits)
    with True show ?thesis by simp
  next
    case False
    then have cs: "cs \<noteq> []" "namespace_char (last cs)" using 2(3) by (auto split: if_splits)
    let ?d = "dropWhile (\<lambda>x. \<not> namespace_char x)"
    have "last cs \<in> set cs" using cs(1) by simp
    then have "?d (cs @ s) = ?d cs @ s" using cs(2) by (intro dropWhile_append1) auto
    moreover have "?d cs = [] \<or> namespace_char (last (?d cs))"
      using cs(2) by (metis last_appendR takeWhile_dropWhile_id)
    ultimately show ?thesis using 2(2) False by simp
  qed
qed simp

text \<open>
  Where they do not: two tenants that differ only in the length of a run of hyphens have two databases,
  but one Redis namespace and one ACL user between them, so each can read and purge the keys of the other.
\<close>

theorem hyphen_runs_share_namespace:
  assumes "tenant_core (a @ ''-'' @ b)" and "tenant_core (a @ ''--'' @ b)"
    and "a \<noteq> []" and "in_az09 (last a)"
  shows "a @ ''-'' @ b \<noteq> a @ ''--'' @ b \<and>
    database_name (a @ ''-'' @ b) \<noteq> database_name (a @ ''--'' @ b) \<and>
    derive_namespace (a @ ''-'' @ b) = derive_namespace (a @ ''--'' @ b) \<and>
    derive_username (a @ ''-'' @ b) = derive_username (a @ ''--'' @ b) \<and> is_ok (derive_namespace (a @ ''-'' @ b))"
proof -
  let ?t = "a @ ''-'' @ b" and ?u = "a @ ''--'' @ b"
  have "sub_runs ?t = sub_runs ?u"
    using assms(3,4) by (simp add: sub_runs_append in_az09_cases)
  moreover have low: "py_lower (py_strip ?t) = ?t" "py_lower (py_strip ?u) = ?u"
    using tenant_core_lower [OF assms(1)] tenant_core_lower [OF assms(2)] by simp_all
  ultimately have norm: "strip_underscores (sub_runs (py_lower (py_strip ?t))) =
      strip_underscores (sub_runs (py_lower (py_strip ?u)))"
    unfolding low by simp
  obtain x xs where ax: "a = x # xs" using assms(3) by (cases a) auto
  have x: "namespace_char x" "x \<noteq> CHR ''_''"
    using assms(1) ax by (auto simp: tenant_core_def in_az_def in_az09_def namespace_char_def is_lower_def char_code_def)
  have "strip_underscores (sub_runs (py_lower (py_strip ?t))) \<noteq> []"
    using x unfolding low by (simp add: ax strip_underscores_def strip_where_Nil)
  then have ns: "derive_namespace ?t = derive_namespace ?u" "is_ok (derive_namespace ?t)"
    using norm unfolding derive_namespace_def Let_def by simp_all
  have "length ?u = Suc (length ?t)" by simp
  then have ne: "?t \<noteq> ?u" by (metis n_not_Suc_n)
  have "database_name ?t = Inr (replace_hyphens ?t)" "database_name ?u = Inr (replace_hyphens ?u)"
    using assms(1,2) by (auto simp: database_name_Inr tenant_re_match_def) (auto simp: tenant_core_def replace_hyphens_def)
  moreover have "CHR ''_'' \<notin> set ?t" "CHR ''_'' \<notin> set ?u"
    using tenant_re_match_facts(1) assms(1,2) unfolding tenant_re_match_def by blast+
  ultimately have "database_name ?t \<noteq> database_name ?u"
    using ne replace_hyphens_inject by simp
  with ne ns show ?thesis by (simp add: derive_username_def)
qed

text \<open>
  The runtime roles are not as separate as the databases: PostgreSQL keeps the first 63 characters of an
  identifier, and \<open>app_<tenant>\<close> may have 67. Two tenants that agree on their first 59 characters have two
  databases, but their roles are the same for the server.
\<close>

theorem runtime_roles_can_collide:
  assumes "database_name t = Inr d" and "database_name t' = Inr d'" and "t \<noteq> t'" and "take 59 t = take 59 t'"
  shows "d \<noteq> d' \<and> runtime_role t \<noteq> runtime_role t' \<and>
    take 63 (runtime_role t) = take 63 (runtime_role t') \<and>
    (length t > 59 \<longrightarrow> take 63 (runtime_role t) \<noteq> runtime_role t)"
proof -
  from assms(1,2) have t: "tenant_re_match t" "d = replace_hyphens t" "tenant_re_match t'" "d' = replace_hyphens t'"
    by (auto simp: database_name_Inr)
  have "take 63 (runtime_role t) \<noteq> runtime_role t" if "length t > 59"
    using that by (auto simp: runtime_role_def dest: arg_cong [where f = length])
  with t assms(3,4) show ?thesis
    by (simp add: replace_hyphens_inject tenant_re_match_facts(1)) (simp add: runtime_role_def)
qed

text \<open>The final newline that \<open>$\<close> lets through ends up in the name of the database.\<close>

lemma newline_accepted:
  assumes "tenant_core t" "length t \<le> 62"
  shows "database_name (t @ [CHR 0x0A]) = Inr (replace_hyphens t @ [CHR 0x0A])"
  using assms by (auto simp: database_name_Inr tenant_re_match_def replace_hyphens_def)

subsection \<open>Witnesses\<close>

lemmas name_evals = tenant_core_def tenant_re_match_def in_az_def in_az09_def namespace_char_def text_defs

lemma sample_names:
  "derive_namespace ''My-Tenant '' = Inr ''my_tenant''" "derive_namespace ''b'' = Inr ''b''"
  "\<not> is_ok (derive_namespace ''-- '')"
  by code_simp+

lemma namespaces_partition_keys_witness:
  "namespace_key ''my_tenant'' ''x'' \<noteq> namespace_key ''b'' ''y''"
  using namespaces_partition_keys [OF sample_names(1,2), of "''x''" "''y''"] by simp

lemma sample_cores: "tenant_core ''a-b''" "tenant_core ''a--b''" "tenant_core ''telcoss''"
  by (simp_all add: name_evals)

lemma sample_databases: "database_name ''a-b'' = Inr ''a_b''" "database_name ''a--b'' = Inr ''a__b''"
  using sample_cores by (simp_all add: database_name_def tenant_re_match_def replace_hyphens_def)

lemma database_names_separate_tenants_witness: "''a_b'' \<noteq> ''a__b'' \<and> length ''a_b'' \<le> 63"
  using database_names_separate_tenants [OF sample_databases] by blast

lemma sdk_database_agrees_witness: "resolve_database None ''a--b'' = Some ''a__b''"
  using sdk_database_agrees [OF sample_databases(2)] by blast

lemma layers_share_one_name_witness: "derive_username ''telcoss'' = Inr ''app_telcoss''"
  using layers_share_one_name [OF sample_cores(3)] by (simp add: replace_hyphens_def sublist_Cons_right)

lemma hyphen_runs_share_namespace_witness:
  "derive_namespace ''a-b'' = derive_namespace ''a--b'' \<and> database_name ''a-b'' \<noteq> database_name ''a--b''"
  using hyphen_runs_share_namespace [of "''a''" "''b''"] sample_cores by (simp add: in_az09_def text_defs)

definition long_tenant :: "char \<Rightarrow> string" where
  "long_tenant c = replicate 59 CHR ''t'' @ [c]"

lemma runtime_roles_can_collide_witness:
  "take 63 (runtime_role (long_tenant CHR ''x'')) = take 63 (runtime_role (long_tenant CHR ''y''))"
proof -
  have core: "tenant_core (long_tenant c)" if "in_az09 c" for c
  proof -
    have "tl (long_tenant c) = replicate 58 CHR ''t'' @ [c]" "hd (long_tenant c) = CHR ''t''"
      by (simp_all add: long_tenant_def numeral_eq_Suc)
    with that show ?thesis
      by (simp add: tenant_core_def butlast_append) (simp add: long_tenant_def in_az_def in_az09_def text_defs list_all_iff)
  qed
  have db: "database_name (long_tenant c) = Inr (long_tenant c)" if "in_az09 c" for c
    using core [OF that] that
    by (auto simp: database_name_Inr tenant_re_match_def long_tenant_def replace_hyphens_def dest: in_az09_cases)
  have "in_az09 CHR ''x''" "in_az09 CHR ''y''" by (simp_all add: in_az09_def text_defs)
  from runtime_roles_can_collide [OF db [OF this(1)] db [OF this(2)]] show ?thesis
    by (simp add: long_tenant_def)
qed

end
