(* ===== verification/Admin_Session.thy ===== *)
theory Admin_Session
  imports Prelude
begin

text \<open>
  Programs over an administrative connection, as the control planes of Redis and PostgreSQL use them:
  a server that answers requests (a parameter), the log of what was asked, exceptions, and
  \<open>try/finally\<close>. The log is for the properties; no program reads it.
\<close>

record ('r, 'q) session =
  ss_server :: 'r
  ss_log :: "('q \<times> bool) list"

type_synonym ('r, 'q, 'e, 'a) cmd = "('r, 'q) session \<Rightarrow> ('r, 'q) session \<times> ('e + 'a)"

definition cret :: "'a \<Rightarrow> ('r, 'q, 'e, 'a) cmd" where
  "cret a s = (s, Inr a)"

definition cfail :: "'e \<Rightarrow> ('r, 'q, 'e, 'a) cmd" where
  "cfail e s = (s, Inl e)"

definition cbind :: "('r, 'q, 'e, 'a) cmd \<Rightarrow> ('a \<Rightarrow> ('r, 'q, 'e, 'b) cmd) \<Rightarrow> ('r, 'q, 'e, 'b) cmd" where
  "cbind m f s = (case m s of (s', Inl e) \<Rightarrow> (s', Inl e) | (s', Inr a) \<Rightarrow> f a s')"

definition cseq :: "('r, 'q, 'e, 'a) cmd \<Rightarrow> ('r, 'q, 'e, 'b) cmd \<Rightarrow> ('r, 'q, 'e, 'b) cmd" where
  "cseq m m' = cbind m (\<lambda>_. m')"

definition clift :: "'e + 'a \<Rightarrow> ('r, 'q, 'e, 'a) cmd" where
  "clift r s = (s, r)"

text \<open>\<open>try: m finally: c\<close>: an exception of the cleanup replaces the outcome.\<close>

definition cfinally :: "('r, 'q, 'e, 'a) cmd \<Rightarrow> ('r, 'q, 'e, 'b) cmd \<Rightarrow> ('r, 'q, 'e, 'a) cmd" where
  "cfinally m c s =
     (case m s of (s', r) \<Rightarrow> (case c s' of (s'', Inl e) \<Rightarrow> (s'', Inl e) | (s'', Inr _) \<Rightarrow> (s'', r)))"

definition ccatch :: "('r, 'q, 'e, 'a) cmd \<Rightarrow> ('e \<Rightarrow> ('r, 'q, 'e, 'a) cmd) \<Rightarrow> ('r, 'q, 'e, 'a) cmd" where
  "ccatch m h s = (case m s of (s', Inl e) \<Rightarrow> h e s' | (s', Inr a) \<Rightarrow> (s', Inr a))"

definition ccall :: "('r \<Rightarrow> 'q \<Rightarrow> 'r \<times> ('e + 'p)) \<Rightarrow> 'q \<Rightarrow> ('r, 'q, 'e, 'p) cmd" where
  "ccall server q s =
     (case server (ss_server s) q of
        (r, reply) \<Rightarrow> (s\<lparr>ss_server := r, ss_log := ss_log s @ [(q, is_ok reply)]\<rparr>, reply))"

fun cfor :: "('x \<Rightarrow> ('r, 'q, 'e, unit) cmd) \<Rightarrow> 'x list \<Rightarrow> ('r, 'q, 'e, unit) cmd" where
  "cfor f [] = cret ()"
| "cfor f (x # xs) = cseq (f x) (cfor f xs)"

definition cwhen :: "bool \<Rightarrow> ('r, 'q, 'e, unit) cmd \<Rightarrow> ('r, 'q, 'e, unit) cmd" where
  "cwhen b m = (if b then m else cret ())"

lemma cbind_lift [simp]: "cbind (clift (Inr a)) f = f a" "cbind (clift (Inl e)) f = cfail e"
  by (simp_all add: cbind_def clift_def cfail_def fun_eq_iff)

text \<open>Runs that return.\<close>

named_theorems runs \<open>successful runs of composed programs\<close>

lemma cret_Inr [runs]: "cret a s = (s', Inr b) \<longleftrightarrow> s' = s \<and> b = a"
  by (auto simp: cret_def)

lemma cfail_Inr [runs]: "cfail e s = (s', Inr b) \<longleftrightarrow> False"
  by (simp add: cfail_def)

lemma cbind_Inr [runs]: "cbind m f s = (s', Inr b) \<longleftrightarrow> (\<exists>s1 a. m s = (s1, Inr a) \<and> f a s1 = (s', Inr b))"
  by (auto simp: cbind_def split: prod.splits sum.splits)

lemma cseq_Inr [runs]: "cseq m m' s = (s', Inr b) \<longleftrightarrow> (\<exists>s1 a. m s = (s1, Inr a) \<and> m' s1 = (s', Inr b))"
  unfolding cseq_def by (rule cbind_Inr)

lemma cfinally_Inr [runs]:
  "cfinally m c s = (s', Inr a) \<longleftrightarrow> (\<exists>s1 b. m s = (s1, Inr a) \<and> c s1 = (s', Inr b))"
  by (auto simp: cfinally_def split: prod.splits sum.splits)

lemma cwhen_Inr [runs]: "cwhen b m s = (s', Inr u) \<longleftrightarrow> (if b then m s = (s', Inr u) else s' = s)"
  by (simp add: cwhen_def cret_def eq_commute)

lemma ccall_Inr [runs]:
  "ccall server q s = (s', Inr v) \<longleftrightarrow> (\<exists>r. server (ss_server s) q = (r, Inr v) \<and>
     s' = s\<lparr>ss_server := r, ss_log := ss_log s @ [(q, True)]\<rparr>)"
  by (auto simp: ccall_def split: prod.splits)

subsection \<open>What a program asks\<close>

text \<open>\<open>emits m Q\<close>: whatever the server answers, the requests a run of \<open>m\<close> makes and its outcome satisfy \<open>Q\<close>.\<close>

definition emits :: "('r, 'q, 'e, 'a) cmd \<Rightarrow> (('q \<times> bool) list \<Rightarrow> 'e + 'a \<Rightarrow> bool) \<Rightarrow> bool" where
  "emits m Q \<longleftrightarrow> (\<forall>s s' res. m s = (s', res) \<longrightarrow> (\<exists>qs. ss_log s' = ss_log s @ qs \<and> Q qs res))"

named_theorems emits_intros \<open>requests of composed programs\<close>

lemma emitsD: "emits m Q \<Longrightarrow> m s = (s', res) \<Longrightarrow> \<exists>qs. ss_log s' = ss_log s @ qs \<and> Q qs res"
  by (simp add: emits_def)

lemma emits_mono: "emits m Q \<Longrightarrow> (\<And>qs res. Q qs res \<Longrightarrow> R qs res) \<Longrightarrow> emits m R"
  unfolding emits_def by blast

lemma emits_ret: "Q [] (Inr a) \<Longrightarrow> emits (cret a) Q"
  by (auto simp: emits_def cret_def)

lemma emits_fail: "Q [] (Inl e) \<Longrightarrow> emits (cfail e) Q"
  by (auto simp: emits_def cfail_def)

lemma emits_lift: "Q [] r \<Longrightarrow> emits (clift r) Q"
  by (auto simp: emits_def clift_def)

lemma emits_call: "(\<And>reply. Q [(q, is_ok reply)] reply) \<Longrightarrow> emits (ccall server q) Q"
  by (auto simp: emits_def ccall_def split: prod.splits)

lemma emits_bind:
  assumes "emits m (\<lambda>qs res. case res of Inl e \<Rightarrow> Q qs (Inl e) | Inr a \<Rightarrow> emits (f a) (\<lambda>qs' r. Q (qs @ qs') r))"
  shows "emits (cbind m f) Q"
  unfolding emits_def
proof (intro allI impI)
  fix s s' res
  assume run: "cbind m f s = (s', res)"
  obtain s1 r1 where one: "m s = (s1, r1)" by (cases "m s")
  obtain qs where qs: "ss_log s1 = ss_log s @ qs"
    and post: "case r1 of Inl e \<Rightarrow> Q qs (Inl e) | Inr a \<Rightarrow> emits (f a) (\<lambda>qs' r. Q (qs @ qs') r)"
    using emitsD [OF assms one] by blast
  show "\<exists>qs. ss_log s' = ss_log s @ qs \<and> Q qs res"
  proof (cases r1)
    case (Inl e)
    with run one post qs show ?thesis by (auto simp: cbind_def)
  next
    case (Inr a)
    then have "f a s1 = (s', res)" using run one by (simp add: cbind_def)
    with post Inr obtain qs' where "ss_log s' = ss_log s1 @ qs'" "Q (qs @ qs') res"
      using emitsD by fastforce
    with qs show ?thesis by auto
  qed
qed

lemma emits_seq:
  assumes "emits m (\<lambda>qs res. case res of Inl e \<Rightarrow> Q qs (Inl e) | Inr a \<Rightarrow> emits m' (\<lambda>qs' r. Q (qs @ qs') r))"
  shows "emits (cseq m m') Q"
  unfolding cseq_def by (rule emits_bind) (rule assms)

lemma emits_finally:
  assumes "emits m (\<lambda>qs res. emits c (\<lambda>qs' r. case r of Inl e \<Rightarrow> Q (qs @ qs') (Inl e) | Inr _ \<Rightarrow> Q (qs @ qs') res))"
  shows "emits (cfinally m c) Q"
  unfolding emits_def
proof (intro allI impI)
  fix s s' res
  assume run: "cfinally m c s = (s', res)"
  obtain s1 r1 where one: "m s = (s1, r1)" by (cases "m s")
  obtain s2 r2 where two: "c s1 = (s2, r2)" by (cases "c s1")
  obtain qs where qs: "ss_log s1 = ss_log s @ qs"
    and post: "emits c (\<lambda>qs' r. case r of Inl e \<Rightarrow> Q (qs @ qs') (Inl e) | Inr _ \<Rightarrow> Q (qs @ qs') r1)"
    using emitsD [OF assms one] by blast
  obtain qs' where "ss_log s2 = ss_log s1 @ qs'"
      "case r2 of Inl e \<Rightarrow> Q (qs @ qs') (Inl e) | Inr _ \<Rightarrow> Q (qs @ qs') r1"
    using emitsD [OF post two] by blast
  with run one two qs show "\<exists>qs. ss_log s' = ss_log s @ qs \<and> Q qs res"
    by (cases r2) (auto simp: cfinally_def)
qed

text \<open>The frequent case: a property of every single request.\<close>

definition only :: "('q \<Rightarrow> bool) \<Rightarrow> ('r, 'q, 'e, 'a) cmd \<Rightarrow> bool" where
  "only P m \<longleftrightarrow> emits m (\<lambda>qs res. \<forall>q \<in> set qs. P (fst q))"

lemma onlyD: "only P m \<Longrightarrow> m s = (s', res) \<Longrightarrow> \<exists>qs. ss_log s' = ss_log s @ qs \<and> (\<forall>q \<in> set qs. P (fst q))"
  unfolding only_def by (rule emitsD)

lemma only_ret [emits_intros]: "only P (cret a)"
  by (simp add: only_def emits_ret)

lemma only_fail [emits_intros]: "only P (cfail e)"
  by (simp add: only_def emits_fail)

lemma only_lift [emits_intros]: "only P (clift r)"
  by (simp add: only_def emits_lift)

lemma only_call [emits_intros]: "P q \<Longrightarrow> only P (ccall server q)"
  by (simp add: only_def emits_call)

lemma only_bind [emits_intros]: "only P m \<Longrightarrow> (\<And>a. only P (f a)) \<Longrightarrow> only P (cbind m f)"
  unfolding only_def
  by (rule emits_bind, erule emits_mono) (auto split: sum.splits intro: emits_mono)

lemma only_seq [emits_intros]: "only P m \<Longrightarrow> only P m' \<Longrightarrow> only P (cseq m m')"
  unfolding cseq_def by (rule only_bind)

lemma only_finally [emits_intros]: "only P m \<Longrightarrow> only P c \<Longrightarrow> only P (cfinally m c)"
  unfolding only_def
  by (rule emits_finally, erule emits_mono) (auto split: sum.splits intro: emits_mono)

lemma only_for [emits_intros]: "(\<And>x. x \<in> set xs \<Longrightarrow> only P (f x)) \<Longrightarrow> only P (cfor f xs)"
  by (induction xs) (auto intro!: only_ret only_seq)

lemma only_when [emits_intros]: "(b \<Longrightarrow> only P m) \<Longrightarrow> only P (cwhen b m)"
  by (auto simp: cwhen_def intro: only_ret)

lemma emits_catch:
  assumes "emits m (\<lambda>qs res. case res of Inl e \<Rightarrow> emits (h e) (\<lambda>qs' r. Q (qs @ qs') r) | Inr a \<Rightarrow> Q qs (Inr a))"
  shows "emits (ccatch m h) Q"
  unfolding emits_def
proof (intro allI impI)
  fix s s' res
  assume run: "ccatch m h s = (s', res)"
  obtain s1 r1 where one: "m s = (s1, r1)" by (cases "m s")
  obtain qs where qs: "ss_log s1 = ss_log s @ qs"
    and post: "case r1 of Inl e \<Rightarrow> emits (h e) (\<lambda>qs' r. Q (qs @ qs') r) | Inr a \<Rightarrow> Q qs (Inr a)"
    using emitsD [OF assms one] by blast
  show "\<exists>qs. ss_log s' = ss_log s @ qs \<and> Q qs res"
  proof (cases r1)
    case (Inl e)
    then have "h e s1 = (s', res)" using run one by (simp add: ccatch_def)
    with post Inl obtain qs' where "ss_log s' = ss_log s1 @ qs'" "Q (qs @ qs') res"
      using emitsD by fastforce
    with qs show ?thesis by auto
  next
    case (Inr a)
    with run one post qs show ?thesis by (auto simp: ccatch_def)
  qed
qed

lemma only_catch [emits_intros]: "only P m \<Longrightarrow> (\<And>e. only P (h e)) \<Longrightarrow> only P (ccatch m h)"
  unfolding only_def
  by (rule emits_catch, erule emits_mono) (auto split: sum.splits intro: emits_mono)

text \<open>Calls made one after the other, until one of them raises.\<close>

definition stops_in :: "'q list \<Rightarrow> ('q \<times> bool) list \<Rightarrow> bool \<Rightarrow> bool" where
  "stops_in ops qs ok \<longleftrightarrow>
     (if ok then qs = map (\<lambda>q. (q, True)) ops
      else \<exists>before q after. ops = before @ q # after \<and> qs = map (\<lambda>q. (q, True)) before @ [(q, False)])"

lemma stops_in_Nil [simp]: "stops_in [] qs ok \<longleftrightarrow> ok \<and> qs = []"
  by (simp add: stops_in_def)

lemma stops_in_first [simp]: "stops_in (q # ops) [(q, b)] False \<longleftrightarrow> \<not> b"
  by (auto simp: stops_in_def Cons_eq_append_conv append_eq_Cons_conv)

lemma stops_in_Cons: "stops_in ops qs ok \<Longrightarrow> stops_in (q # ops) ((q, True) # qs) ok"
proof (cases ok)
  case False
  assume "stops_in ops qs ok"
  with False obtain before q' after where "ops = before @ q' # after" "qs = map (\<lambda>q. (q, True)) before @ [(q', False)]"
    by (auto simp: stops_in_def)
  then have "q # ops = (q # before) @ q' # after \<and> (q, True) # qs = map (\<lambda>q. (q, True)) (q # before) @ [(q', False)]"
    by simp
  with False show ?thesis unfolding stops_in_def by metis
qed (simp add: stops_in_def)

lemma stops_in_append: "stops_in ops' qs ok \<Longrightarrow> stops_in (ops @ ops') (map (\<lambda>q. (q, True)) ops @ qs) ok"
  by (induction ops) (auto intro: stops_in_Cons)

lemma stops_in_early: "stops_in ops qs False \<Longrightarrow> stops_in (ops @ ops') qs False"
  by (fastforce simp: stops_in_def)

lemma emits_calls: "emits (cfor (ccall server) ops) (\<lambda>qs res. stops_in ops qs (is_ok res))"
proof (induction ops)
  case Nil
  then show ?case by (simp add: emits_ret)
next
  case (Cons q ops)
  show ?case
    unfolding cfor.simps
  proof (rule emits_seq, rule emits_call)
    fix reply
    show "case reply of Inl e \<Rightarrow> stops_in (q # ops) [(q, is_ok reply)] (is_ok (Inl e))
        | Inr a \<Rightarrow> emits (cfor (ccall server) ops) (\<lambda>qs' r. stops_in (q # ops) ([(q, is_ok reply)] @ qs') (is_ok r))"
      using Cons by (cases reply) (auto elim!: emits_mono intro: stops_in_Cons)
  qed
qed

subsection \<open>Matched requests\<close>

text \<open>
  \<open>matched P Q m\<close>: every run of \<open>m\<close> makes as many requests (with their outcome) of the kind \<open>P\<close> as of the
  kind \<open>Q\<close>, such as connections opened and closed. A program that makes none of either is neutral.
\<close>

definition tally :: "('q \<times> bool \<Rightarrow> bool) \<Rightarrow> ('q \<times> bool) list \<Rightarrow> nat" where
  "tally P qs = length (filter P qs)"

lemma tally_append [simp]: "tally P (qs @ qs') = tally P qs + tally P qs'"
  by (simp add: tally_def)

lemma tally_Nil [simp]: "tally P [] = 0"
  by (simp add: tally_def)

lemma tally_Cons [simp]: "tally P (q # qs) = (if P q then 1 else 0) + tally P qs"
  by (simp add: tally_def)

definition matched ::
  "('q \<times> bool \<Rightarrow> bool) \<Rightarrow> ('q \<times> bool \<Rightarrow> bool) \<Rightarrow> ('r, 'q, 'e, 'a) cmd \<Rightarrow> bool"
where
  "matched P Q m \<longleftrightarrow> emits m (\<lambda>qs res. tally P qs = tally Q qs)"

named_theorems matched_intros \<open>matched requests of composed programs\<close>

lemma matched_neutral: "only (\<lambda>q. \<forall>b. \<not> P (q, b) \<and> \<not> Q (q, b)) m \<Longrightarrow> matched P Q m"
  unfolding matched_def only_def
proof (erule emits_mono)
  fix qs :: "('a \<times> bool) list" and res
  assume "\<forall>q \<in> set qs. \<forall>b. \<not> P (fst q, b) \<and> \<not> Q (fst q, b)"
  then have "filter P qs = []" "filter Q qs = []" by (auto simp: filter_empty_conv)
  then show "tally P qs = tally Q qs" by (simp add: tally_def)
qed

lemma matched_ret [matched_intros]: "matched P Q (cret a)"
  by (simp add: matched_def emits_ret)

lemma matched_fail [matched_intros]: "matched P Q (cfail e)"
  by (simp add: matched_def emits_fail)

lemma matched_lift [matched_intros]: "matched P Q (clift r)"
  by (simp add: matched_def emits_lift)

lemma matched_bind [matched_intros]: "matched P Q m \<Longrightarrow> (\<And>a. matched P Q (f a)) \<Longrightarrow> matched P Q (cbind m f)"
  unfolding matched_def
  by (rule emits_bind, erule emits_mono) (auto split: sum.splits intro: emits_mono)

lemma matched_seq [matched_intros]: "matched P Q m \<Longrightarrow> matched P Q m' \<Longrightarrow> matched P Q (cseq m m')"
  unfolding cseq_def by (rule matched_bind)

lemma matched_when [matched_intros]: "(b \<Longrightarrow> matched P Q m) \<Longrightarrow> matched P Q (cwhen b m)"
  by (auto simp: cwhen_def intro: matched_ret)

lemma matched_for [matched_intros]: "(\<And>x. x \<in> set xs \<Longrightarrow> matched P Q (f x)) \<Longrightarrow> matched P Q (cfor f xs)"
  by (induction xs) (auto intro!: matched_ret matched_seq)

lemma emits_conj: "emits m P \<Longrightarrow> emits m Q \<Longrightarrow> emits m (\<lambda>qs res. P qs res \<and> Q qs res)"
  unfolding emits_def by (metis same_append_eq)

subsection \<open>Effects on the server\<close>

text \<open>\<open>moves R m\<close>: every run of \<open>m\<close> takes the server along \<open>R\<close>, a reflexive and transitive relation.\<close>

definition moves :: "('r \<Rightarrow> 'r \<Rightarrow> bool) \<Rightarrow> ('r, 'q, 'e, 'a) cmd \<Rightarrow> bool" where
  "moves R m \<longleftrightarrow> (\<forall>s s' res. m s = (s', res) \<longrightarrow> R (ss_server s) (ss_server s'))"

named_theorems moves_intros \<open>effects of composed programs\<close>

lemma movesD: "moves R m \<Longrightarrow> m s = (s', res) \<Longrightarrow> R (ss_server s) (ss_server s')"
  by (simp add: moves_def)

lemma moves_ret [moves_intros]: "reflp R \<Longrightarrow> moves R (cret a)"
  by (simp add: moves_def cret_def reflp_def)

lemma moves_fail [moves_intros]: "reflp R \<Longrightarrow> moves R (cfail e)"
  by (simp add: moves_def cfail_def reflp_def)

lemma moves_lift [moves_intros]: "reflp R \<Longrightarrow> moves R (clift r)"
  by (simp add: moves_def clift_def reflp_def)

lemma moves_call [moves_intros]:
  "(\<And>r r' reply. server r q = (r', reply) \<Longrightarrow> R r r') \<Longrightarrow> moves R (ccall server q)"
  by (auto simp: moves_def ccall_def split: prod.splits)

lemma moves_bind [moves_intros]:
  "transp R \<Longrightarrow> moves R m \<Longrightarrow> (\<And>a. moves R (f a)) \<Longrightarrow> moves R (cbind m f)"
  unfolding moves_def cbind_def by (fastforce split: prod.splits sum.splits elim: transpE)

lemma moves_seq [moves_intros]: "transp R \<Longrightarrow> moves R m \<Longrightarrow> moves R m' \<Longrightarrow> moves R (cseq m m')"
  unfolding cseq_def by (rule moves_bind)

lemma moves_finally [moves_intros]: "transp R \<Longrightarrow> moves R m \<Longrightarrow> moves R c \<Longrightarrow> moves R (cfinally m c)"
  unfolding moves_def cfinally_def by (fastforce split: prod.splits sum.splits elim: transpE)

lemma moves_catch [moves_intros]: "transp R \<Longrightarrow> moves R m \<Longrightarrow> (\<And>e. moves R (h e)) \<Longrightarrow> moves R (ccatch m h)"
  unfolding moves_def ccatch_def by (fastforce split: prod.splits sum.splits elim: transpE)

lemma moves_for [moves_intros]:
  "reflp R \<Longrightarrow> transp R \<Longrightarrow> (\<And>x. x \<in> set xs \<Longrightarrow> moves R (f x)) \<Longrightarrow> moves R (cfor f xs)"
  by (induction xs) (auto intro!: moves_ret moves_seq)

lemma moves_when [moves_intros]: "reflp R \<Longrightarrow> (b \<Longrightarrow> moves R m) \<Longrightarrow> moves R (cwhen b m)"
  by (auto simp: cwhen_def intro: moves_ret)

end
