(* ===== verification/Redis_Admin.thy ===== *)
theory Redis_Admin
  imports Tenant_Names Admin_Session
begin

text \<open>
  The control plane of the shared Redis (\<open>redis_shared/\<close>): the local and managed adapters and the command
  line, and the connection settings of the data plane SDK (\<open>basic_infra_redis_client\<close>). The server behind
  \<open>redis.asyncio\<close> is a parameter, a function of the connection arguments.
\<close>

subsection \<open>Settings\<close>

record AdminSettings =
  ra_host :: string
  ra_port :: int
  ra_username :: string
  ra_password :: "string option"
  ra_ssl :: bool
  ra_env :: string
  ra_acl_save :: bool

definition admin_defaults :: AdminSettings where
  "admin_defaults = \<lparr>ra_host = ''127.0.0.1'', ra_port = 6380, ra_username = ''default'', ra_password = None,
     ra_ssl = False, ra_env = ''local'', ra_acl_save = True\<rparr>"

record TenantCredentials =
  tc_tenant :: string
  tc_username :: string
  tc_password :: string
  tc_namespace :: string
  tc_dsn :: string

record RedisSettings =
  rd_host :: string
  rd_port :: int
  rd_username :: "string option"
  rd_password :: "string option"
  rd_db :: int
  rd_tenant :: string
  rd_ssl :: bool
  rd_env :: string
  rd_max_connections :: int

definition redis_defaults :: RedisSettings where
  "redis_defaults = \<lparr>rd_host = ''redis-shared'', rd_port = 6379, rd_username = None, rd_password = None, rd_db = 0,
     rd_tenant = ''default'', rd_ssl = False, rd_env = ''local'', rd_max_connections = 20\<rparr>"

definition redis_namespace :: "RedisSettings \<Rightarrow> exn + string" where
  "redis_namespace s = derive_namespace (rd_tenant s)"

definition redis_dsn :: "RedisSettings \<Rightarrow> string" where
  "redis_dsn s =
     (let scheme = (if rd_ssl s then ''rediss'' else ''redis'');
          auth = (if truthy (rd_username s) \<and> truthy (rd_password s)
                  then the (rd_username s) @ '':'' @ the (rd_password s) @ ''@''
                  else if truthy (rd_password s) then '':'' @ the (rd_password s) @ ''@'' else [])
      in scheme @ ''://'' @ auth @ rd_host s @ '':'' @ show_int (rd_port s) @ ''/'' @ show_int (rd_db s))"

definition common_kwargs :: "RedisSettings \<Rightarrow> (string, json) pydict" where
  "common_kwargs s =
     [(''host'', JStr (rd_host s)), (''port'', JInt (rd_port s)), (''db'', JInt (rd_db s)),
      (''max_connections'', JInt (rd_max_connections s)), (''decode_responses'', JBool True)]
     @ (if truthy (rd_username s) then [(''username'', JStr (the (rd_username s)))] else [])
     @ (if truthy (rd_password s) then [(''password'', JStr (the (rd_password s)))] else [])
     @ (if rd_ssl s then [(''ssl'', JBool True)] else [])"

definition admin_kwargs :: "AdminSettings \<Rightarrow> (string, json) pydict" where
  "admin_kwargs s =
     [(''host'', JStr (ra_host s)), (''port'', JInt (ra_port s)), (''username'', JStr (ra_username s)),
      (''decode_responses'', JBool True)]
     @ (if truthy (ra_password s) then [(''password'', JStr (the (ra_password s)))] else [])
     @ (if ra_ssl s then [(''ssl'', JBool True)] else [])"

text \<open>The settings of the process, read from its environment once.\<close>

definition get_admin_settings :: "exn + AdminSettings \<Rightarrow> AdminSettings option \<Rightarrow> AdminSettings option \<times> (exn + AdminSettings)" where
  "get_admin_settings environment cache = cached_call environment cache"

definition get_redis_settings :: "exn + RedisSettings \<Rightarrow> RedisSettings option \<Rightarrow> RedisSettings option \<times> (exn + RedisSettings)" where
  "get_redis_settings environment cache = cached_call environment cache"

text \<open>The two client factories; \<open>connect\<close> is the class of the package, asynchronous or not.\<close>

definition create_async_client ::
  "((string, json) pydict \<Rightarrow> 'c) \<Rightarrow> exn + RedisSettings \<Rightarrow> RedisSettings option \<Rightarrow> RedisSettings option
    \<Rightarrow> RedisSettings option \<times> (exn + 'c)"
where
  "create_async_client connect environment settings cache =
     (case (case settings of Some s \<Rightarrow> (cache, Inr s) | None \<Rightarrow> get_redis_settings environment cache) of
        (cache', r) \<Rightarrow> (cache', rmap (\<lambda>s. connect (common_kwargs s)) r))"

definition create_sync_client ::
  "((string, json) pydict \<Rightarrow> 'c) \<Rightarrow> exn + RedisSettings \<Rightarrow> RedisSettings option \<Rightarrow> RedisSettings option
    \<Rightarrow> RedisSettings option \<times> (exn + 'c)"
where
  "create_sync_client connect environment settings cache =
     (case (case settings of Some s \<Rightarrow> (cache, Inr s) | None \<Rightarrow> get_redis_settings environment cache) of
        (cache', r) \<Rightarrow> (cache', rmap (\<lambda>s. connect (common_kwargs s)) r))"

text \<open>The managed adapter builds the arguments of its connection itself.\<close>

definition managed_kwargs :: "AdminSettings \<Rightarrow> (string, json) pydict" where
  "managed_kwargs s =
     [(''host'', JStr (ra_host s)), (''port'', JInt (ra_port s)), (''username'', JStr (ra_username s)),
      (''decode_responses'', JBool True)]
     @ (if truthy (ra_password s) then [(''password'', JStr (the (ra_password s)))] else [])
     @ (if ra_ssl s then [(''ssl'', JBool True)] else [])"

text \<open>The two adapters, as what their constructors keep: the settings, and the operator's secret.\<close>

definition redis_local_adapter ::
  "exn + AdminSettings \<Rightarrow> AdminSettings option \<Rightarrow> string option \<Rightarrow> AdminSettings option
    \<Rightarrow> AdminSettings option \<times> (exn + AdminSettings \<times> string option)"
where
  "redis_local_adapter environment settings app_password cache =
     (case (case settings of Some s \<Rightarrow> (cache, Inr s) | None \<Rightarrow> get_admin_settings environment cache) of
        (cache', r) \<Rightarrow> (cache', rmap (\<lambda>s. (s, app_password)) r))"

definition redis_managed_adapter ::
  "exn + AdminSettings \<Rightarrow> AdminSettings option \<Rightarrow> AdminSettings option \<Rightarrow> AdminSettings option \<times> (exn + AdminSettings)"
where
  "redis_managed_adapter environment settings cache =
     (case settings of Some s \<Rightarrow> (cache, Inr s) | None \<Rightarrow> get_admin_settings environment cache)"

subsection \<open>The server\<close>

datatype redis_request =
    Command "string list"
  | ScanKeys nat string nat
  | DeleteKeys "string list"
  | Ping
  | Aclose

datatype redis_reply = Reply json | Scanned nat "string list"

type_synonym 'r redis = "'r \<Rightarrow> redis_request \<Rightarrow> 'r \<times> (exn + redis_reply)"
type_synonym 'r redis_session = "('r, redis_request) session"

text \<open>\<open>cursor, keys = await admin.scan(...)\<close>; any other reply cannot be unpacked.\<close>

definition scan :: "'r redis \<Rightarrow> nat \<Rightarrow> string \<Rightarrow> nat \<Rightarrow> ('r, redis_request, exn, nat \<times> string list) cmd" where
  "scan server cursor pattern count =
     cbind (ccall server (ScanKeys cursor pattern count))
       (\<lambda>reply. case reply of Scanned c keys \<Rightarrow> cret (c, keys) | Reply v \<Rightarrow> cfail (TypeError ''cannot unpack''))"

definition command :: "'r redis \<Rightarrow> string list \<Rightarrow> ('r, redis_request, exn, unit) cmd" where
  "command server tokens = cseq (ccall server (Command tokens)) (cret ())"

definition aclose :: "'r redis \<Rightarrow> ('r, redis_request, exn, unit) cmd" where
  "aclose server = cseq (ccall server Aclose) (cret ())"

definition json_truth :: "json \<Rightarrow> bool" where
  "json_truth v = (case v of JNull \<Rightarrow> False | JBool b \<Rightarrow> b | JInt i \<Rightarrow> i \<noteq> 0 | JFloat x \<Rightarrow> x \<noteq> Fin 0
     | JStr s \<Rightarrow> s \<noteq> [] | JList xs \<Rightarrow> xs \<noteq> [] | JObj d \<Rightarrow> d \<noteq> [])"

subsection \<open>The local adapter\<close>

definition setuser_tokens :: "string \<Rightarrow> string \<Rightarrow> string \<Rightarrow> string list" where
  "setuser_tokens username password ns =
     [''ACL'', ''SETUSER'', username, ''reset'', ''on'', ''>'' @ password,
      ''~'' @ ns @ '':*'', ''&'' @ ns @ '':*'', ''+@all'', ''-@dangerous'']"

definition redis_provision ::
  "'r redis \<Rightarrow> AdminSettings \<Rightarrow> string option \<Rightarrow> string \<Rightarrow> ('r, redis_request, exn, TenantCredentials) cmd"
where
  "redis_provision server settings app_password tenant =
     (if \<not> truthy app_password
      then cfail (ValueError ''provision requires REDIS_APP_PASSWORD (consume-and-reassert; no weak default)'')
      else cbind (clift (derive_namespace tenant)) (\<lambda>ns.
        cbind (clift (derive_username tenant)) (\<lambda>username.
          let password = the app_password
          in cseq
            (cfinally
              (cseq (command server (setuser_tokens username password ns))
                 (cwhen (ra_acl_save settings) (command server [''ACL'', ''SAVE''])))
              (aclose server))
            (cret (let scheme = (if ra_ssl settings then ''rediss'' else ''redis'')
               in \<lparr>tc_tenant = tenant, tc_username = username, tc_password = password, tc_namespace = ns,
                   tc_dsn = scheme @ ''://'' @ username @ '':'' @ password @ ''@'' @ ra_host settings @ '':''
                     @ show_int (ra_port settings) @ ''/0''\<rparr>)))))"

text \<open>
  The loop of \<open>purge\<close>. The server decides when the cursor returns to zero, so the loop is a partial
  function: its value \<open>None\<close> is a loop that never ends.
\<close>

partial_function (option) purge_loop ::
  "'r redis \<Rightarrow> string \<Rightarrow> nat \<Rightarrow> 'r redis_session \<Rightarrow> ('r redis_session \<times> (exn + unit)) option"
where
  "purge_loop server ns cursor s =
     (case scan server cursor (ns @ '':*'') 500 s of
        (s1, Inl e) \<Rightarrow> Some (s1, Inl e)
      | (s1, Inr (cursor', keys)) \<Rightarrow>
          (case (if keys \<noteq> [] then cseq (ccall server (DeleteKeys keys)) (cret ()) s1 else (s1, Inr ())) of
             (s2, Inl e) \<Rightarrow> Some (s2, Inl e)
           | (s2, Inr _) \<Rightarrow> if cursor' = 0 then Some (s2, Inr ()) else purge_loop server ns cursor' s2))"

definition redis_deprovision ::
  "'r redis \<Rightarrow> AdminSettings \<Rightarrow> string \<Rightarrow> bool \<Rightarrow> 'r redis_session \<Rightarrow> ('r redis_session \<times> (exn + unit)) option"
where
  "redis_deprovision server settings tenant purge s =
     (case (derive_username tenant, derive_namespace tenant) of
        (Inr username, Inr ns) \<Rightarrow>
          map_option (\<lambda>(s', r). cfinally (clift r) (aclose server) s')
            (case command server [''ACL'', ''DELUSER'', username] s of
               (s1, Inl e) \<Rightarrow> Some (s1, Inl e)
             | (s1, Inr _) \<Rightarrow>
                 map_option (\<lambda>(s2, r). cseq (clift r) (cwhen (ra_acl_save settings) (command server [''ACL'', ''SAVE''])) s2)
                   (if purge then purge_loop server ns 0 s1 else Some (s1, Inr ())))
      | (Inl e, _) \<Rightarrow> Some (s, Inl e)
      | (Inr _, Inl e) \<Rightarrow> Some (s, Inl e))"

definition redis_health :: "'r redis \<Rightarrow> ('r, redis_request, exn, bool) cmd" where
  "redis_health server =
     cfinally
       (ccatch (cbind (ccall server Ping) (\<lambda>reply. cret (case reply of Reply v \<Rightarrow> json_truth v | Scanned c ks \<Rightarrow> True)))
         (\<lambda>e. cret False))
       (aclose server)"

text \<open>The managed adapter provisions nothing.\<close>

definition managed_provision :: "string \<Rightarrow> ('r, redis_request, exn, TenantCredentials) cmd" where
  "managed_provision tenant = cfail (NotImplementedError ''ManagedAdapter.provision is a stub'')"

definition managed_deprovision :: "string \<Rightarrow> bool \<Rightarrow> ('r, redis_request, exn, unit) cmd" where
  "managed_deprovision tenant purge = cfail (NotImplementedError ''ManagedAdapter.deprovision is a stub'')"

definition managed_health :: "'r redis \<Rightarrow> ('r, redis_request, exn, bool) cmd" where
  "managed_health server =
     cfinally
       (ccatch (cbind (ccall server Ping) (\<lambda>reply. cret (case reply of Reply v \<Rightarrow> json_truth v | Scanned c ks \<Rightarrow> True)))
         (\<lambda>e. cret False))
       (aclose server)"

text \<open>The probe of the data plane SDK, over a client made from the settings of the tenant.\<close>

definition sdk_check_health ::
  "((string, json) pydict \<Rightarrow> 'r redis) \<Rightarrow> RedisSettings \<Rightarrow> ('r, redis_request, exn, bool) cmd" where
  "sdk_check_health connect settings =
     (let client = connect (common_kwargs settings)
      in cfinally
        (ccatch (cbind (ccall client Ping) (\<lambda>reply. cret (case reply of Reply v \<Rightarrow> json_truth v | Scanned c ks \<Rightarrow> True)))
          (\<lambda>e. cret False))
        (aclose client))"

subsection \<open>The command line\<close>

datatype redis_cli = CliProvision string | CliDeprovision string bool bool | CliHealth

text \<open>\<open>s.replace(old, new)\<close> for a nonempty \<open>old\<close>.\<close>

function py_replace :: "string \<Rightarrow> string \<Rightarrow> string \<Rightarrow> string" where
  "py_replace old new s =
     (if s = [] \<or> old = [] then s
      else if starts_with s old then new @ py_replace old new (drop (length old) s)
      else hd s # py_replace old new (tl s))"
  by pat_completeness auto
termination by (relation "measure (\<lambda>(old, new, s). length s)") auto

declare py_replace.simps [simp del]

definition masked_dsn :: "TenantCredentials \<Rightarrow> string" where
  "masked_dsn creds = py_replace ('':'' @ tc_password creds @ ''@'') '':***@'' (tc_dsn creds)"

definition provision_output :: "TenantCredentials \<Rightarrow> string list" where
  "provision_output creds =
     [''provisioned: '' @ tc_tenant creds, ''username   : '' @ tc_username creds,
      ''namespace  : '' @ tc_namespace creds, ''dsn        : '' @ masked_dsn creds,
      ''credential : REDIS_APP_PASSWORD (as supplied)'']"

text \<open>Exit code and output lines of \<open>main\<close>, or the exception that escapes it.\<close>

definition redis_main ::
  "((string, json) pydict \<Rightarrow> 'r redis) \<Rightarrow> AdminSettings \<Rightarrow> string option \<Rightarrow> redis_cli \<Rightarrow> 'r redis_session
    \<Rightarrow> ('r redis_session \<times> (exn + int \<times> string list)) option"
where
  "redis_main connect settings app_password cli s =
     (let server = connect (admin_kwargs settings)
      in case cli of
        CliProvision tenant \<Rightarrow>
          Some (cbind (redis_provision server settings app_password tenant)
            (\<lambda>creds. cret (0, provision_output creds)) s)
      | CliDeprovision tenant confirm purge \<Rightarrow>
          if \<not> confirm
          then Some (s, Inr (2, [''refusing to deprovision without --confirm (this removes the tenant's ACL user)'']))
          else map_option (\<lambda>(s', r). (s', rmap (\<lambda>_. (0, [''deprovisioned '' @ tenant
                 @ (if purge then '' (+purged namespace keys)'' else [])])) r))
                 (redis_deprovision server settings tenant purge s)
      | CliHealth \<Rightarrow>
          Some (cbind (redis_health server)
            (\<lambda>ok. cret (if ok then (0, [''ok'']) else (1, [''unreachable'']))) s))"

subsection \<open>What deprovisioning touches\<close>

text \<open>
  What the adapter relies on of \<open>SCAN ... MATCH\<close> (the Redis documentation): with a pattern that is
  literal text and a final star, the keys returned start with that text.
\<close>

definition glob_literal :: "string \<Rightarrow> bool" where
  "glob_literal p \<longleftrightarrow> (\<forall>c \<in> set p. c \<noteq> CHR ''*'' \<and> c \<noteq> CHR ''?'' \<and> c \<noteq> CHR ''['' \<and> c \<noteq> CHR 0x5C)"

definition honours_match :: "'r redis \<Rightarrow> bool" where
  "honours_match server \<longleftrightarrow>
     (\<forall>r c p n r' c' ks. glob_literal p \<longrightarrow> server r (ScanKeys c (p @ ''*'') n) = (r', Inr (Scanned c' ks)) \<longrightarrow>
       (\<forall>k \<in> set ks. starts_with k p))"

fun confined :: "string \<Rightarrow> bool \<Rightarrow> redis_request \<Rightarrow> bool" where
  "confined ns purge (Command ts) = (ts = [''ACL'', ''DELUSER'', ''app_'' @ ns] \<or> ts = [''ACL'', ''SAVE''])"
| "confined ns purge (ScanKeys c pattern n) = (purge \<and> pattern = ns @ '':*'')"
| "confined ns purge (DeleteKeys ks) = (purge \<and> (\<forall>k \<in> set ks. starts_with k (ns @ '':'')))"
| "confined ns purge Ping = False"
| "confined ns purge Aclose = False"

lemma namespace_glob_literal: "list_all namespace_char ns \<Longrightarrow> glob_literal (ns @ '':'')"
  by (auto simp: glob_literal_def list_all_iff namespace_char_def in_az09_def is_lower_def is_digit_def char_code_def)

lemma scan_cases:
  assumes "scan server c pattern n s = (s', res)"
  shows "\<exists>reply. server (ss_server s) (ScanKeys c pattern n) = (ss_server s', reply) \<and>
    ss_log s' = ss_log s @ [(ScanKeys c pattern n, is_ok reply)] \<and>
    (\<forall>c' ks. res = Inr (c', ks) \<longrightarrow> reply = Inr (Scanned c' ks))"
proof -
  obtain r reply where call: "server (ss_server s) (ScanKeys c pattern n) = (r, reply)"
    by (cases "server (ss_server s) (ScanKeys c pattern n)")
  show ?thesis
  proof (cases reply)
    case (Inl e)
    with assms call show ?thesis by (auto simp: scan_def cbind_def ccall_def)
  next
    case (Inr v)
    with assms call show ?thesis
      by (cases v) (auto simp: scan_def cbind_def ccall_def cret_def cfail_def)
  qed
qed

lemma delete_cases:
  assumes "(if keys \<noteq> [] then cseq (ccall server (DeleteKeys keys)) (cret ()) s else (s, Inr ())) = (s', res)"
  shows "\<exists>qs. ss_log s' = ss_log s @ qs \<and> (\<forall>q \<in> set qs. fst q = DeleteKeys keys)"
  using assms
  by (auto simp: cseq_def cbind_def ccall_def cret_def split: if_splits prod.splits sum.splits)

lemma purge_loop_confined:
  assumes "purge_loop server ns cursor s = Some (s', res)" and "honours_match server" "list_all namespace_char ns"
  shows "\<exists>qs. ss_log s' = ss_log s @ qs \<and> (\<forall>q \<in> set qs. confined ns True (fst q))"
proof -
  have "case y of (s', res) \<Rightarrow> \<exists>qs. ss_log s' = ss_log s @ qs \<and> (\<forall>q \<in> set qs. confined ns True (fst q))"
    if "purge_loop server ns cursor s = Some y" "honours_match server" "list_all namespace_char ns" for y
    using that
  proof (induction rule: purge_loop.raw_induct [rotated, consumes 1])
    case (1 purge_loop server ns cursor s y)
    obtain s1 r1 where one: "scan server cursor (ns @ '':*'') 500 s = (s1, r1)"
      by (cases "scan server cursor (ns @ '':*'') 500 s")
    obtain reply where sc: "server (ss_server s) (ScanKeys cursor (ns @ '':*'') 500) = (ss_server s1, reply)"
      "ss_log s1 = ss_log s @ [(ScanKeys cursor (ns @ '':*'') 500, is_ok reply)]"
      "\<And>c' ks. r1 = Inr (c', ks) \<Longrightarrow> reply = Inr (Scanned c' ks)"
      using scan_cases [OF one] by blast
    show ?case
    proof (cases r1)
      case (Inl e)
      with 1(2) one sc(2) show ?thesis by auto
    next
      case (Inr a)
      obtain c' ks where a: "a = (c', ks)" by (cases a)
      have "\<forall>k \<in> set ks. starts_with k (ns @ '':'')"
      proof -
        have "server (ss_server s) (ScanKeys cursor ((ns @ '':'') @ ''*'') 500) = (ss_server s1, Inr (Scanned c' ks))"
          using sc(1) sc(3) [OF Inr [unfolded a]] by simp
        with 1(3) namespace_glob_literal [OF 1(4)] show ?thesis unfolding honours_match_def by blast
      qed
      obtain s2 r2 where two: "(if ks \<noteq> [] then cseq (ccall server (DeleteKeys ks)) (cret ()) s1 else (s1, Inr ())) = (s2, r2)"
        by (cases "if ks \<noteq> [] then cseq (ccall server (DeleteKeys ks)) (cret ()) s1 else (s1, Inr ())")
      obtain qs2 where qs2: "ss_log s2 = ss_log s1 @ qs2" "\<forall>q \<in> set qs2. fst q = DeleteKeys ks"
        using delete_cases [OF two] by blast
      let ?qs = "(ScanKeys cursor (ns @ '':*'') 500, is_ok reply) # qs2"
      have here: "ss_log s2 = ss_log s @ ?qs" "\<forall>q \<in> set ?qs. confined ns True (fst q)"
        using sc(2) qs2 \<open>\<forall>k \<in> set ks. _ k\<close> by auto
      show ?thesis
      proof (cases "is_ok r2 \<and> c' \<noteq> 0")
        case True
        then have "purge_loop server ns c' s2 = Some y"
          using 1(2) one Inr a two by (cases r2) auto
        from 1(1) [OF this 1(3,4)] obtain s' res qs where "y = (s', res)" "ss_log s' = ss_log s2 @ qs"
            "\<forall>q \<in> set qs. confined ns True (fst q)"
          by (cases y) auto
        with here show ?thesis by (simp only: prod.case) (intro exI [of _ "?qs @ qs"], auto)
      next
        case False
        then have "\<exists>r. y = (s2, r)" using 1(2) one Inr a two by (cases r2) auto
        with here show ?thesis by auto
      qed
    qed
  qed
  from this [OF assms] show ?thesis by simp
qed

lemma command_log: "command server ts s = (s', res) \<Longrightarrow> \<exists>b. ss_log s' = ss_log s @ [(Command ts, b)]"
  by (auto simp: command_def cseq_def cbind_def ccall_def cret_def split: prod.splits sum.splits)

lemma aclose_log:
  "cfinally (clift r) (aclose server) s = (s', res) \<Longrightarrow> \<exists>b. ss_log s' = ss_log s @ [(Aclose, b)]"
  by (auto simp: cfinally_def clift_def aclose_def cseq_def cbind_def ccall_def cret_def split: prod.splits sum.splits)

lemma save_log:
  assumes "cseq (clift r) (cwhen b (command server [''ACL'', ''SAVE''])) s = (s', res)"
  shows "\<exists>qs. ss_log s' = ss_log s @ qs \<and> (\<forall>q \<in> set qs. fst q = Command [''ACL'', ''SAVE''])"
  using assms
  by (cases r; cases b)
     (auto simp: cseq_def cbind_def clift_def cwhen_def cret_def cfail_def dest: command_log split: prod.splits)

lemma username_of_namespace: "derive_namespace t = Inr ns \<Longrightarrow> derive_username t = Inr (''app_'' @ ns)"
  by (simp add: derive_username_def)

lemma deprovision_body:
  assumes "redis_deprovision server settings tenant purge s = Some (s', res)"
    and "derive_namespace tenant = Inr ns" and "honours_match server"
    and one: "command server [''ACL'', ''DELUSER'', ''app_'' @ ns] s = (s1, r1)"
  obtains s2 r2 qs where "cfinally (clift r2) (aclose server) s2 = (s', res)"
    "ss_log s2 = ss_log s1 @ qs" "\<forall>q \<in> set qs. confined ns purge (fst q)"
proof (cases r1)
  case (Inl e)
  with one assms(1,2) have "cfinally (clift (Inl e)) (aclose server) s1 = (s', res)"
    by (simp add: redis_deprovision_def username_of_namespace)
  then show ?thesis using that by fastforce
next
  case (Inr u)
  note ns = derive_namespace_chars(2) [OF assms(2)]
  let ?save = "cwhen (ra_acl_save settings) (command server [''ACL'', ''SAVE''])"
  obtain s3 r3 where loop: "(if purge then purge_loop server ns 0 s1 else Some (s1, Inr ())) = Some (s3, r3)"
    and fin: "cfinally (clift (snd (cseq (clift r3) ?save s3))) (aclose server) (fst (cseq (clift r3) ?save s3)) = (s', res)"
    using one assms(1,2) Inr by (auto simp: redis_deprovision_def username_of_namespace split: prod.splits)
  have "\<exists>qs. ss_log s3 = ss_log s1 @ qs \<and> (\<forall>q \<in> set qs. confined ns purge (fst q))"
    using loop purge_loop_confined [OF _ assms(3) ns] by (cases purge) auto
  moreover have "\<exists>qs. ss_log (fst (cseq (clift r3) ?save s3)) = ss_log s3 @ qs \<and>
      (\<forall>q \<in> set qs. fst q = Command [''ACL'', ''SAVE''])"
    by (rule save_log [OF surjective_pairing])
  ultimately have "\<exists>qs. ss_log (fst (cseq (clift r3) ?save s3)) = ss_log s1 @ qs \<and>
      (\<forall>q \<in> set qs. confined ns purge (fst q))"
    by (metis (no_types, lifting) Un_iff append_assoc confined.simps(1) set_append)
  with fin that show ?thesis by blast
qed

text \<open>
  C23. Deprovisioning stays within its tenant, however it ends: the adapter removes the tenant's ACL user
  first, scans and deletes only when asked to purge, and then only keys under the tenant's own namespace and
  none under another tenant's, and its last request closes the connection.
\<close>

theorem deprovision_confined:
  assumes "redis_deprovision server settings tenant purge s = Some (s', res)"
    and "derive_namespace tenant = Inr ns" and "honours_match server"
  shows "\<exists>qs b b'. ss_log s' = ss_log s @ (Command [''ACL'', ''DELUSER'', ''app_'' @ ns], b) # qs @ [(Aclose, b')] \<and>
    (\<forall>q \<in> set qs. confined ns purge (fst q)) \<and>
    (\<forall>ks k t' ns'. DeleteKeys ks \<in> fst ` set qs \<and> k \<in> set ks \<and> derive_namespace t' = Inr ns' \<and> ns' \<noteq> ns \<longrightarrow>
      \<not> starts_with k (ns' @ '':''))"
proof -
  obtain s1 r1 where one: "command server [''ACL'', ''DELUSER'', ''app_'' @ ns] s = (s1, r1)"
    by (cases "command server [''ACL'', ''DELUSER'', ''app_'' @ ns] s")
  obtain b where b: "ss_log s1 = ss_log s @ [(Command [''ACL'', ''DELUSER'', ''app_'' @ ns], b)]"
    using command_log [OF one] by blast
  obtain s2 r2 qs where two: "cfinally (clift r2) (aclose server) s2 = (s', res)"
    and qs: "ss_log s2 = ss_log s1 @ qs" "\<forall>q \<in> set qs. confined ns purge (fst q)"
    by (rule deprovision_body [OF assms one])
  obtain b' where b': "ss_log s' = ss_log s2 @ [(Aclose, b')]" using aclose_log [OF two] by blast
  have foreign: "\<not> starts_with k (ns' @ '':'')"
    if "DeleteKeys ks \<in> fst ` set qs" "k \<in> set ks" "derive_namespace t' = Inr ns'" "ns' \<noteq> ns" for ks k t' ns'
  proof -
    have "starts_with k (ns @ '':'')" using that(1,2) qs(2) by fastforce
    then show ?thesis
      using that(4) split_at_sep [OF namespace_no_colon [OF assms(2)] namespace_no_colon [OF that(3)]]
      by (auto simp: starts_with_iff)
  qed
  have "ss_log s' = ss_log s @ (Command [''ACL'', ''DELUSER'', ''app_'' @ ns], b) # qs @ [(Aclose, b')]"
    using b b' qs(1) by simp
  with qs(2) foreign show ?thesis by blast
qed

subsection \<open>Termination of the purge\<close>

text \<open>
  Redis documents that a full iteration ends: from every cursor of an iteration the server comes nearer to
  the cursor 0 that ends it. \<open>rank\<close> is that distance.
\<close>

definition scan_advances :: "'r redis \<Rightarrow> (nat \<Rightarrow> nat) \<Rightarrow> bool" where
  "scan_advances server rank \<longleftrightarrow>
     (\<forall>r c p n r' c' ks. server r (ScanKeys c p n) = (r', Inr (Scanned c' ks)) \<longrightarrow> c' \<noteq> 0 \<longrightarrow> rank c' < rank c)"

lemma purge_loop_terminates:
  assumes "scan_advances server rank"
  shows "\<exists>out. purge_loop server ns cursor s = Some out"
proof (induction "rank cursor" arbitrary: cursor s rule: less_induct)
  case less
  obtain s1 r1 where one: "scan server cursor (ns @ '':*'') 500 s = (s1, r1)"
    by (cases "scan server cursor (ns @ '':*'') 500 s")
  show ?case
  proof (cases r1)
    case (Inl e)
    with one show ?thesis by (subst purge_loop.simps) simp
  next
    case (Inr a)
    obtain c' ks where a: "a = (c', ks)" by (cases a)
    obtain s2 r2 where two: "(if ks \<noteq> [] then cseq (ccall server (DeleteKeys ks)) (cret ()) s1 else (s1, Inr ())) = (s2, r2)"
      by (cases "if ks \<noteq> [] then cseq (ccall server (DeleteKeys ks)) (cret ()) s1 else (s1, Inr ())")
    have "rank c' < rank cursor" if "c' \<noteq> 0"
    proof -
      have "server (ss_server s) (ScanKeys cursor (ns @ '':*'') 500) = (ss_server s1, Inr (Scanned c' ks))"
        using scan_cases [OF one] Inr a by auto
      with that assms show ?thesis unfolding scan_advances_def by blast
    qed
    with less have "c' \<noteq> 0 \<Longrightarrow> \<exists>out. purge_loop server ns c' s2 = Some out" by blast
    with one Inr a two show ?thesis by (subst purge_loop.simps) (cases r2; auto)
  qed
qed

lemma deprovision_returns:
  assumes "scan_advances server rank"
  shows "\<exists>s' res. redis_deprovision server settings tenant purge s = Some (s', res)"
proof -
  show ?thesis
  proof (cases "derive_namespace tenant")
    case (Inl e)
    then show ?thesis by (simp add: redis_deprovision_def derive_username_def)
  next
    case (Inr ns)
    obtain s1 r1 where one: "command server [''ACL'', ''DELUSER'', ''app_'' @ ns] s = (s1, r1)"
      by (cases "command server [''ACL'', ''DELUSER'', ''app_'' @ ns] s")
    obtain out where "(if purge then purge_loop server ns 0 s1 else Some (s1, Inr ())) = Some out"
      using purge_loop_terminates [OF assms] by (cases purge) fastforce+
    with Inr one show ?thesis
      by (cases r1) (auto simp: redis_deprovision_def username_of_namespace split: prod.splits)
  qed
qed

text \<open>
  C24. Deprovisioning always ends, with or without a purge, whatever the server answers to the single
  requests, as long as its scan iterations do.
\<close>

theorem deprovision_terminates:
  assumes "scan_advances server rank"
  shows "\<exists>s' res. redis_deprovision server settings tenant purge s = Some (s', res)"
  using assms by (rule deprovision_returns)

subsection \<open>Provisioning and the command line\<close>

lemma provision_refused:
  "\<not> truthy pw \<or> \<not> is_ok (derive_namespace tenant) \<Longrightarrow> \<exists>e. redis_provision server settings pw tenant = cfail e"
  by (cases "derive_namespace tenant") (auto simp: redis_provision_def)

lemma provision_log:
  assumes run: "redis_provision server settings pw tenant s = (s', Inr creds)" and ns: "derive_namespace tenant = Inr ns"
  shows "ss_log s' = ss_log s @ (Command (setuser_tokens (''app_'' @ ns) (the pw) ns), True) #
      (if ra_acl_save settings then [(Command [''ACL'', ''SAVE''], True)] else []) @ [(Aclose, True)] \<and>
    tc_namespace creds = ns \<and> tc_username creds = ''app_'' @ ns \<and> tc_password creds = the pw"
proof -
  have "truthy pw"
    using run by (cases "truthy pw") (auto simp: redis_provision_def cfail_def)
  have log: "ss_log s2 = ss_log s1 @ [(Command ts, True)]" if "command server ts s1 = (s2, Inr u)" for ts s1 s2 u
    using that by (auto simp: command_def runs)
  have closing: "ss_log s2 = ss_log s1 @ [(Aclose, True)]" if "aclose server s1 = (s2, Inr u)" for s1 s2 u
    using that by (auto simp: aclose_def runs)
  from run \<open>truthy pw\<close> show ?thesis
    by (auto simp: redis_provision_def ns username_of_namespace [OF ns] Let_def runs split: if_splits
        dest!: log closing)
qed

text \<open>
  Provisioning consumes the operator's secret and re-asserts the tenant's user: without a secret or a
  namespace nothing is asked of the server; a success has issued exactly the reset-and-declare command with
  one password and the tenant's key and channel patterns, saved the ACLs if configured, and closed the
  connection, and returns the credentials that were set.
\<close>

theorem provision_asserts_user:
  assumes "redis_provision server settings pw tenant s = (s', res)"
  shows "(\<not> truthy pw \<or> \<not> is_ok (derive_namespace tenant) \<longrightarrow> s' = s \<and> \<not> is_ok res) \<and>
    (\<forall>creds. res = Inr creds \<longrightarrow> (\<exists>ns. derive_namespace tenant = Inr ns \<and>
       ss_log s' = ss_log s @ (Command (setuser_tokens (''app_'' @ ns) (the pw) ns), True) #
         (if ra_acl_save settings then [(Command [''ACL'', ''SAVE''], True)] else []) @ [(Aclose, True)] \<and>
       tc_namespace creds = ns \<and> tc_username creds = ''app_'' @ ns \<and> tc_password creds = the pw))"
proof (cases "truthy pw \<and> is_ok (derive_namespace tenant)")
  case False
  then have "\<exists>e. redis_provision server settings pw tenant = cfail e" by (intro provision_refused) auto
  with assms False show ?thesis by (auto simp: cfail_def)
next
  case True
  then obtain ns where ns: "derive_namespace tenant = Inr ns" by (cases "derive_namespace tenant") auto
  have "ss_log s' = ss_log s @ (Command (setuser_tokens (''app_'' @ ns) (the pw) ns), True) #
      (if ra_acl_save settings then [(Command [''ACL'', ''SAVE''], True)] else []) @ [(Aclose, True)] \<and>
    tc_namespace creds = ns \<and> tc_username creds = ''app_'' @ ns \<and> tc_password creds = the pw"
    if "res = Inr creds" for creds
    using assms unfolding that by (rule provision_log [OF _ ns])
  with True ns show ?thesis by auto
qed

lemma py_replace_Cons:
  "\<not> starts_with (c # s) old \<Longrightarrow> old \<noteq> [] \<Longrightarrow> py_replace old new (c # s) = c # py_replace old new s"
  by (subst py_replace.simps) simp

lemma py_replace_skip:
  "c \<notin> set p \<Longrightarrow> py_replace (c # old) new (p @ s) = p @ py_replace (c # old) new s"
  by (induction p) (auto simp: py_replace_Cons starts_with_def)

lemma py_replace_absent: "c \<in> set old \<Longrightarrow> c \<notin> set s \<Longrightarrow> py_replace old new s = s"
proof (induction s)
  case Nil
  then show ?case by (subst py_replace.simps) simp
next
  case (Cons x s)
  have "\<not> starts_with (x # s) old"
    using Cons.prems unfolding starts_with_iff by (metis Un_iff set_append)
  with Cons show ?case by (subst py_replace_Cons) auto
qed

lemma py_replace_here: "old \<noteq> [] \<Longrightarrow> py_replace old new (old @ s) = new @ py_replace old new s"
  by (subst py_replace.simps) simp

text \<open>A password that starts like what stands before it in the URL is still not found there.\<close>

lemma no_early_match:
  assumes "w \<noteq> []" "c \<notin> set w"
  shows "w @ pw @ c # u \<noteq> pw @ c # v"
proof (induction "length pw" arbitrary: pw v rule: less_induct)
  case less
  show ?case
  proof
    assume eq: "w @ pw @ c # u = pw @ c # v"
    then consider (long) us where "w = pw @ us" "us @ pw @ c # u = c # v"
      | (short) us where "pw = w @ us" "pw @ c # u = us @ c # v"
      using iffD1 [OF append_eq_append_conv2 eq] by blast
    then show False
    proof cases
      case long
      then show False using assms by (cases us; cases pw) auto
    next
      case short
      then have "length us < length pw" using assms(1) by simp
      from less.hyps [OF this] short show False by simp
    qed
  qed
qed

lemma mask_password:
  assumes "CHR '':'' \<notin> set scheme" "CHR ''@'' \<notin> set user" "CHR '':'' \<notin> set user" "CHR ''@'' \<notin> set rest"
  shows "py_replace ('':'' @ pw @ ''@'') new (scheme @ ''://'' @ user @ '':'' @ pw @ ''@'' @ rest) =
    scheme @ ''://'' @ user @ new @ rest"
proof -
  let ?old = "CHR '':'' # pw @ ''@''"
  have colon: "\<not> starts_with (CHR '':'' # ''//'' @ user @ '':'' @ pw @ ''@'' @ rest) ?old"
  proof
    assume "starts_with (CHR '':'' # ''//'' @ user @ '':'' @ pw @ ''@'' @ rest) ?old"
    then obtain v where "(''//'' @ user @ '':'') @ pw @ CHR ''@'' # rest = pw @ CHR ''@'' # v"
      by (auto simp: starts_with_iff)
    with no_early_match [of "''//'' @ user @ '':''" "CHR ''@''" pw rest v] assms(2) show False by simp
  qed
  have "py_replace ?old new (scheme @ CHR '':'' # ''//'' @ user @ ?old @ rest) =
      scheme @ CHR '':'' # py_replace ?old new ((''//'' @ user) @ ?old @ rest)"
    using py_replace_skip [OF assms(1), of "pw @ ''@''" new "CHR '':'' # ''//'' @ user @ '':'' @ pw @ ''@'' @ rest"]
      py_replace_Cons [OF colon, of new] by simp
  also have "\<dots> = scheme @ CHR '':'' # (''//'' @ user) @ py_replace ?old new (?old @ rest)"
    using assms(3) py_replace_skip [of "CHR '':''" "''//'' @ user" "pw @ ''@''" new "?old @ rest"] by simp
  also have "\<dots> = scheme @ CHR '':'' # (''//'' @ user) @ new @ rest"
    using assms(4) py_replace_here [of ?old new rest] py_replace_absent [of "CHR ''@''" ?old rest new] by simp
  finally show ?thesis by simp
qed

lemma provision_creds:
  assumes "redis_provision server settings (Some pw) tenant s = (s', Inr creds)"
  obtains ns where "derive_namespace tenant = Inr ns" "tc_tenant creds = tenant" "tc_namespace creds = ns"
    "tc_username creds = ''app_'' @ ns" "tc_password creds = pw"
    "tc_dsn creds = (if ra_ssl settings then ''rediss'' else ''redis'') @ ''://'' @ (''app_'' @ ns) @ '':'' @ pw
       @ ''@'' @ ra_host settings @ '':'' @ show_int (ra_port settings) @ ''/0''"
proof (cases "truthy (Some pw) \<and> is_ok (derive_namespace tenant)")
  case False
  then obtain e where "redis_provision server settings (Some pw) tenant = cfail e"
    using provision_refused by blast
  with assms show ?thesis by (simp add: cfail_def)
next
  case True
  then obtain ns where ns: "derive_namespace tenant = Inr ns" by (cases "derive_namespace tenant") auto
  from assms True have "creds = \<lparr>tc_tenant = tenant, tc_username = ''app_'' @ ns, tc_password = pw, tc_namespace = ns,
      tc_dsn = (if ra_ssl settings then ''rediss'' else ''redis'') @ ''://'' @ (''app_'' @ ns) @ '':'' @ pw
       @ ''@'' @ ra_host settings @ '':'' @ show_int (ra_port settings) @ ''/0''\<rparr>"
    by (auto simp: redis_provision_def ns username_of_namespace [OF ns] Let_def runs)
  with that ns show ?thesis by simp
qed

lemma show_int_no_at: "CHR ''@'' \<notin> set (show_int i)"
proof -
  have "\<not> is_digit CHR ''@''" by (simp add: is_digit_def char_code_def)
  then have "CHR ''@'' \<notin> set (show_nat n)" for n
    using show_nat_digits [of n] unfolding py_isdigit_def list_all_iff by blast
  then show ?thesis by (simp add: show_int_def)
qed

text \<open>
  The command line: a deprovision without \<open>--confirm\<close> asks nothing of the server and exits with 2, and
  what a successful provision prints is the same whatever the password is: the password never reaches the
  output, also when it repeats parts of the URL it stands in.
\<close>

theorem redis_cli_contract:
  assumes "CHR ''@'' \<notin> set (ra_host settings)"
  shows "(\<exists>msg. redis_main connect settings pw (CliDeprovision tenant False purge) s = Some (s, Inr (2, msg))) \<and>
    (redis_main connect settings pw (CliProvision tenant) s = Some (s', Inr (code, out)) \<longrightarrow>
      code = 0 \<and> (\<exists>ns. derive_namespace tenant = Inr ns \<and>
        out = [''provisioned: '' @ tenant, ''username   : app_'' @ ns, ''namespace  : '' @ ns,
          ''dsn        : '' @ (if ra_ssl settings then ''rediss'' else ''redis'') @ ''://app_'' @ ns @ '':***@''
            @ ra_host settings @ '':'' @ show_int (ra_port settings) @ ''/0'',
          ''credential : REDIS_APP_PASSWORD (as supplied)'']))"
proof (intro conjI impI)
  show "\<exists>msg. redis_main connect settings pw (CliDeprovision tenant False purge) s = Some (s, Inr (2, msg))"
    by (simp add: redis_main_def Let_def)
  assume run: "redis_main connect settings pw (CliProvision tenant) s = Some (s', Inr (code, out))"
  then obtain s1 creds where one:
      "redis_provision (connect (admin_kwargs settings)) settings pw tenant s = (s1, Inr creds)"
      "code = 0" "out = provision_output creds"
    by (auto simp: redis_main_def Let_def runs)
  then obtain p where pw: "pw = Some p"
    by (cases pw) (auto simp: redis_provision_def truthy_def cfail_def)
  obtain ns where c: "derive_namespace tenant = Inr ns" "tc_tenant creds = tenant" "tc_namespace creds = ns"
    "tc_username creds = ''app_'' @ ns" "tc_password creds = p"
    "tc_dsn creds = (if ra_ssl settings then ''rediss'' else ''redis'') @ ''://'' @ (''app_'' @ ns) @ '':'' @ p
       @ ''@'' @ ra_host settings @ '':'' @ show_int (ra_port settings) @ ''/0''"
    using provision_creds [OF one(1) [unfolded pw]] by blast
  have "CHR ''@'' \<notin> set ns"
    using derive_namespace_chars(2) [OF c(1)]
    by (auto simp: list_all_iff namespace_char_def in_az09_def is_lower_def is_digit_def char_code_def)
  then have "masked_dsn creds = (if ra_ssl settings then ''rediss'' else ''redis'') @ ''://'' @ (''app_'' @ ns) @ '':***@''
      @ ra_host settings @ '':'' @ show_int (ra_port settings) @ ''/0''"
    unfolding masked_dsn_def c(5,6)
    using namespace_no_colon [OF c(1)] assms show_int_no_at by (intro mask_password) auto
  with one(2,3) c show "code = 0" "\<exists>ns. derive_namespace tenant = Inr ns \<and>
        out = [''provisioned: '' @ tenant, ''username   : app_'' @ ns, ''namespace  : '' @ ns,
          ''dsn        : '' @ (if ra_ssl settings then ''rediss'' else ''redis'') @ ''://app_'' @ ns @ '':***@''
            @ ra_host settings @ '':'' @ show_int (ra_port settings) @ ''/0'',
          ''credential : REDIS_APP_PASSWORD (as supplied)'']"
    by (simp_all add: provision_output_def)
qed

text \<open>
  From the control plane to the data plane: with the credentials that provisioning a tenant has issued, a client of
  the SDK, synchronous or not, is made with exactly the user and the password that were declared on the server,
  and every key its namespace makes lies in the key pattern that was declared for that user.
\<close>

theorem issued_credentials_connect:
  assumes "redis_provision server settings pw tenant s = (s', Inr creds)"
    and "rd_tenant st = tenant" and "rd_username st = Some (tc_username creds)" and "rd_password st = Some (tc_password creds)"
  shows "create_async_client connect environment (Some st) cache = (cache, Inr (connect (common_kwargs st))) \<and>
    create_sync_client connect environment (Some st) cache = (cache, Inr (connect (common_kwargs st))) \<and>
    map_of (common_kwargs st) ''username'' = Some (JStr (tc_username creds)) \<and>
    map_of (common_kwargs st) ''password'' = Some (JStr (tc_password creds)) \<and>
    (Command (setuser_tokens (tc_username creds) (tc_password creds) (tc_namespace creds)), True) \<in> set (ss_log s') \<and>
    redis_namespace st = Inr (tc_namespace creds) \<and>
    starts_with (namespace_key (tc_namespace creds) name) (butlast (tl (setuser_tokens u p (tc_namespace creds) ! 6)))"
proof -
  obtain ns where ns: "derive_namespace tenant = Inr ns"
    using assms(1) by (cases "derive_namespace tenant") (auto simp: redis_provision_def runs split: if_splits)
  have "truthy pw"
    using assms(1) by (cases "truthy pw") (auto simp: redis_provision_def cfail_def)
  note made = provision_log [OF assms(1) ns] this
  from made show ?thesis
    using assms(2-4) ns
    by (auto simp: create_async_client_def create_sync_client_def common_kwargs_def redis_namespace_def truthy_def
        setuser_tokens_def namespace_key_def starts_with_def butlast_append split: option.splits)
qed

subsection \<open>Witnesses\<close>

text \<open>A server over a list of keys that answers a scan in one page.\<close>

fun sample_redis :: "string list redis" where
  "sample_redis keys (ScanKeys c pattern n) = (keys, Inr (Scanned 0 (filter (\<lambda>k. starts_with k (butlast pattern)) keys)))"
| "sample_redis keys (DeleteKeys ks) = (filter (\<lambda>k. k \<notin> set ks) keys, Inr (Reply (JInt (int (length ks)))))"
| "sample_redis keys (Command ts) = (keys, Inr (Reply (JStr ''OK'')))"
| "sample_redis keys Ping = (keys, Inr (Reply (JBool True)))"
| "sample_redis keys Aclose = (keys, Inr (Reply JNull))"

definition sample_redis_session :: "string list redis_session" where
  "sample_redis_session = \<lparr>ss_server = [''b:x'', ''telcoss:x''], ss_log = []\<rparr>"

lemma sample_redis_laws: "honours_match sample_redis" "scan_advances sample_redis (\<lambda>c. c)"
  by (auto simp: honours_match_def scan_advances_def butlast_append)

lemma deprovision_terminates_witness:
  "\<exists>s' res. redis_deprovision sample_redis admin_defaults ''telcoss'' True sample_redis_session = Some (s', res)"
  by (rule deprovision_terminates [OF sample_redis_laws(2)])

lemma sample_telcoss: "derive_namespace ''telcoss'' = Inr ''telcoss''"
  by (rule derive_namespace_fixed) (simp_all add: name_evals)

lemma deprovision_confined_witness:
  "\<exists>s' res qs b b'. redis_deprovision sample_redis admin_defaults ''telcoss'' True sample_redis_session = Some (s', res) \<and>
     ss_log s' = (Command [''ACL'', ''DELUSER'', ''app_telcoss''], b) # qs @ [(Aclose, b')]"
proof -
  obtain s' res where run: "redis_deprovision sample_redis admin_defaults ''telcoss'' True sample_redis_session = Some (s', res)"
    using deprovision_returns [OF sample_redis_laws(2)] by blast
  from deprovision_confined [OF run sample_telcoss sample_redis_laws(1)] run show ?thesis
    by (auto simp: sample_redis_session_def)
qed

lemma sample_provision:
  "\<exists>s' creds. redis_provision sample_redis admin_defaults (Some ''pw'') ''telcoss'' sample_redis_session = (s', Inr creds)"
  by (simp add: redis_provision_def sample_telcoss derive_username_def truthy_def Let_def runs command_def aclose_def)
     (simp add: ccall_def admin_defaults_def)

lemma issued_credentials_connect_witness:
  "\<exists>s' creds cache. redis_provision sample_redis admin_defaults (Some ''pw'') ''telcoss'' sample_redis_session = (s', Inr creds) \<and>
     snd (create_async_client (\<lambda>kw. map_of kw ''username'') (Inl (ValueError []))
       (Some (redis_defaults\<lparr>rd_tenant := ''telcoss'', rd_username := Some (tc_username creds),
          rd_password := Some (tc_password creds)\<rparr>)) cache) = Inr (Some (JStr ''app_telcoss''))"
proof -
  obtain s' creds where run: "redis_provision sample_redis admin_defaults (Some ''pw'') ''telcoss'' sample_redis_session = (s', Inr creds)"
    using sample_provision by blast
  let ?st = "redis_defaults\<lparr>rd_tenant := ''telcoss'', rd_username := Some (tc_username creds), rd_password := Some (tc_password creds)\<rparr>"
  have "rd_tenant ?st = ''telcoss''" "rd_username ?st = Some (tc_username creds)" "rd_password ?st = Some (tc_password creds)"
    by simp_all
  note issued = issued_credentials_connect [OF run this, of "\<lambda>kw. map_of kw ''username''"]
  have "tc_username creds = ''app_telcoss''"
    using run sample_telcoss
    by (auto simp: redis_provision_def derive_username_def truthy_def Let_def runs)
  with issued [of "Inl (ValueError [])" None] run show ?thesis
    by (auto intro!: exI [of _ s'] exI [of _ creds] exI [of _ None])
qed

lemma provision_asserts_user_witness:
  "\<exists>s' creds. redis_provision sample_redis admin_defaults (Some ''pw'') ''telcoss'' sample_redis_session = (s', Inr creds) \<and>
     tc_username creds = ''app_telcoss''"
proof -
  obtain s' creds where run: "redis_provision sample_redis admin_defaults (Some ''pw'') ''telcoss'' sample_redis_session = (s', Inr creds)"
    using sample_provision by blast
  from provision_asserts_user [OF run] run sample_telcoss show ?thesis by auto
qed

lemma redis_cli_contract_witness:
  "\<exists>msg. redis_main (\<lambda>kw. sample_redis) admin_defaults (Some ''pw'') (CliDeprovision ''telcoss'' False True) sample_redis_session =
     Some (sample_redis_session, Inr (2, msg))"
proof -
  have "CHR ''@'' \<notin> set (ra_host admin_defaults)" by (simp add: admin_defaults_def)
  from redis_cli_contract [OF this] show ?thesis by blast
qed

end
