(* ===== verification/Postgres_Admin.thy ===== *)
theory Postgres_Admin
  imports Tenant_Names Admin_Session
begin

text \<open>
  The control plane of the shared PostgreSQL (\<open>postgres/\<close>): the local and managed adapters and the command
  line. The server behind \<open>asyncpg\<close> is a parameter that answers connection attempts and statements.
\<close>

subsection \<open>Statements and connections\<close>

datatype pg_request =
    Connect string
  | Execute string string "string list"
  | Fetchval string string "string list"
  | Fetch string string
  | Begin string
  | Commit string
  | Rollback string
  | CloseConn string

datatype pg_reply = PgDone | PgValue "int option" | PgRows "string list"

type_synonym 'r pg = "'r \<Rightarrow> pg_request \<Rightarrow> 'r \<times> (pg_exn + pg_reply)"
type_synonym 'r pg_session = "('r, pg_request) session"
type_synonym ('r, 'a) pg_cmd = "('r, pg_request, pg_exn, 'a) cmd"

record pg_adapter =
  pa_host :: string
  pa_port :: int
  pa_admin_user :: string
  pa_admin_password :: string
  pa_allow_destructive :: bool
  pa_app_password :: "string option"

definition dquote :: "string \<Rightarrow> string" where
  "dquote s = CHR 0x22 # s @ [CHR 0x22]"

definition squote :: "string \<Rightarrow> string" where
  "squote s = CHR 0x27 # s @ [CHR 0x27]"

text \<open>\<open>s.replace('"', '""')\<close>\<close>

definition escape_ident :: "string \<Rightarrow> string" where
  "escape_ident s = concat (map (\<lambda>c. if c = CHR 0x22 then [CHR 0x22, CHR 0x22] else [c]) s)"

definition pg_execute :: "'r pg \<Rightarrow> string \<Rightarrow> string \<Rightarrow> string list \<Rightarrow> ('r, unit) pg_cmd" where
  "pg_execute server db sql args = cseq (ccall server (Execute db sql args)) (cret ())"

definition pg_fetchval :: "'r pg \<Rightarrow> string \<Rightarrow> string \<Rightarrow> string list \<Rightarrow> ('r, int option) pg_cmd" where
  "pg_fetchval server db sql args =
     cbind (ccall server (Fetchval db sql args))
       (\<lambda>reply. cret (case reply of PgValue v \<Rightarrow> v | _ \<Rightarrow> None))"

definition pg_fetch :: "'r pg \<Rightarrow> string \<Rightarrow> string \<Rightarrow> ('r, string list) pg_cmd" where
  "pg_fetch server db sql =
     cbind (ccall server (Fetch db sql)) (\<lambda>reply. cret (case reply of PgRows rs \<Rightarrow> rs | _ \<Rightarrow> []))"

text \<open>\<open>conn = await connect(...)\<close>, then \<open>try: ... finally: await conn.close()\<close>.\<close>

definition with_conn :: "'r pg \<Rightarrow> string \<Rightarrow> ('r, 'a) pg_cmd \<Rightarrow> ('r, 'a) pg_cmd" where
  "with_conn server db body =
     cseq (ccall server (Connect db)) (cfinally body (ccall server (CloseConn db)))"

text \<open>\<open>async with conn.transaction()\<close>: commit on success, rollback and re-raise on an exception.\<close>

definition transaction :: "'r pg \<Rightarrow> string \<Rightarrow> ('r, unit) pg_cmd \<Rightarrow> ('r, unit) pg_cmd" where
  "transaction server db body =
     cseq (ccall server (Begin db))
       (cseq (ccatch body (\<lambda>e. cseq (ccall server (Rollback db)) (cfail e)))
         (cseq (ccall server (Commit db)) (cret ())))"

subsection \<open>The statements\<close>

definition sql_exists :: string where
  "sql_exists = ''SELECT 1 FROM pg_database WHERE datname = $1''"

definition sql_create_database :: "string \<Rightarrow> string" where
  "sql_create_database db = ''CREATE DATABASE '' @ dquote db"

definition sql_drop_database :: "string \<Rightarrow> string" where
  "sql_drop_database db = ''DROP DATABASE IF EXISTS '' @ dquote db @ '' WITH (FORCE)''"

definition sql_postgis :: string where
  "sql_postgis = ''CREATE EXTENSION IF NOT EXISTS postgis''"

definition sql_set_config :: "string \<Rightarrow> string" where
  "sql_set_config name = ''SELECT set_config('' @ squote name @ '', $1, true)''"

definition sql_assert_role :: "string \<Rightarrow> string \<Rightarrow> string \<Rightarrow> string" where
  "sql_assert_role create alter name =
     ''DO $$ BEGIN IF NOT EXISTS (SELECT FROM pg_roles WHERE rolname = '' @ create @
     ''; END IF; EXECUTE format('' @ squote (alter @ ''NOBYPASSRLS PASSWORD %L'') @ name @ ''); END $$''"

definition sql_runtime_role :: "string \<Rightarrow> string" where
  "sql_runtime_role role =
     sql_assert_role (squote role @ '') THEN CREATE ROLE '' @ dquote role)
       ''ALTER ROLE %I WITH LOGIN NOSUPERUSER NOCREATEDB NOCREATEROLE ''
       ('', '' @ squote role @ '', current_setting('' @ squote ''basic_infra.app_pw'' @ '')'')"

definition sql_outbox_role :: string where
  "sql_outbox_role =
     sql_assert_role (squote ''outbox_reader'' @ '') THEN CREATE ROLE outbox_reader'')
       ''ALTER ROLE outbox_reader WITH LOGIN NOSUPERUSER NOCREATEDB NOCREATEROLE ''
       ('', current_setting('' @ squote ''basic_infra.outbox_reader_pw'' @ '')'')"

definition sql_user_schemas :: string where
  "sql_user_schemas = ''SELECT nspname FROM pg_namespace WHERE nspname NOT IN ('' @
     py_join '', '' (map squote [''pg_catalog'', ''information_schema'', ''pg_toast'', ''public'']) @
     '') AND nspname NOT LIKE '' @ squote ''pg_temp_%'' @ '' AND nspname NOT LIKE '' @ squote ''pg_toast_temp_%''"

definition sql_schema_grants :: "string \<Rightarrow> string \<Rightarrow> string list" where
  "sql_schema_grants s role =
     [''GRANT USAGE ON SCHEMA '' @ dquote (escape_ident s) @ '' TO '' @ dquote role,
      ''GRANT SELECT, INSERT, UPDATE, DELETE ON ALL TABLES IN SCHEMA '' @ dquote (escape_ident s) @ '' TO '' @ dquote role,
      ''GRANT USAGE, SELECT ON ALL SEQUENCES IN SCHEMA '' @ dquote (escape_ident s) @ '' TO '' @ dquote role]"

definition sql_public_grants :: "string \<Rightarrow> string list" where
  "sql_public_grants role =
     [''GRANT USAGE ON SCHEMA public TO '' @ dquote role,
      ''GRANT EXECUTE ON ALL FUNCTIONS IN SCHEMA public TO '' @ dquote role]"

definition sql_postgis_rels :: string where
  "sql_postgis_rels = ''SELECT c.relname FROM pg_class c JOIN pg_namespace n ON n.oid = c.relnamespace WHERE n.nspname = ''
     @ squote ''public'' @ '' AND c.relname IN ('' @
     py_join '', '' (map squote [''spatial_ref_sys'', ''geometry_columns'', ''geography_columns'']) @ '')''"

definition sql_rel_grant :: "string \<Rightarrow> string \<Rightarrow> string" where
  "sql_rel_grant rel role = ''GRANT SELECT ON public.'' @ dquote (escape_ident rel) @ '' TO '' @ dquote role"

definition sql_default_privileges :: "string \<Rightarrow> string \<Rightarrow> string list" where
  "sql_default_privileges owner role =
     [''ALTER DEFAULT PRIVILEGES FOR ROLE '' @ dquote owner @ '' GRANT SELECT, INSERT, UPDATE, DELETE ON TABLES TO '' @ dquote role,
      ''ALTER DEFAULT PRIVILEGES FOR ROLE '' @ dquote owner @ '' GRANT USAGE, SELECT ON SEQUENCES TO '' @ dquote role]"

subsection \<open>The local adapter\<close>

definition grant_runtime_role :: "'r pg \<Rightarrow> pg_adapter \<Rightarrow> string \<Rightarrow> string \<Rightarrow> ('r, unit) pg_cmd" where
  "grant_runtime_role server a tenant password =
     (if password = [] then cfail (PgExn (ValueError ''grant_runtime_role: empty password''))
      else cbind (clift (database_name tenant)) (\<lambda>db.
        let role = runtime_role tenant;
            owner = pa_admin_user a;
            execute = (\<lambda>sql. pg_execute server db sql [])
        in with_conn server db
          (cseq (transaction server db
             (cseq (pg_execute server db (sql_set_config ''basic_infra.app_pw'') [password])
                (execute (sql_runtime_role role))))
          (cseq (execute (''GRANT CONNECT ON DATABASE '' @ dquote db @ '' TO '' @ dquote role))
          (cbind (pg_fetch server db sql_user_schemas) (\<lambda>schemas.
           cseq (cfor (\<lambda>s. cfor execute (sql_schema_grants s role)) schemas)
          (cseq (cfor execute (sql_public_grants role))
          (cbind (pg_fetch server db sql_postgis_rels) (\<lambda>rels.
           cseq (cfor (\<lambda>rel. execute (sql_rel_grant rel role)) rels)
             (cfor execute (sql_default_privileges owner role)))))))))))"

definition pg_provision :: "'r pg \<Rightarrow> pg_adapter \<Rightarrow> string \<Rightarrow> ('r, unit) pg_cmd" where
  "pg_provision server a tenant =
     cbind (clift (database_name tenant)) (\<lambda>db.
       cseq (with_conn server ''postgres''
         (cbind (pg_fetchval server ''postgres'' sql_exists [db]) (\<lambda>already.
            cwhen (already = None \<or> already = Some 0)
              (pg_execute server ''postgres'' (sql_create_database db) []))))
       (cseq (with_conn server db (pg_execute server db sql_postgis []))
         (cwhen (truthy (pa_app_password a)) (grant_runtime_role server a tenant (the (pa_app_password a))))))"

definition provision_outbox_reader :: "'r pg \<Rightarrow> string \<Rightarrow> ('r, unit) pg_cmd" where
  "provision_outbox_reader server password =
     (if password = [] then cfail (PgExn (ValueError ''provision_outbox_reader: empty password''))
      else with_conn server ''postgres''
        (transaction server ''postgres''
          (cseq (pg_execute server ''postgres'' (sql_set_config ''basic_infra.outbox_reader_pw'') [password])
             (pg_execute server ''postgres'' sql_outbox_role []))))"

definition pg_deprovision :: "'r pg \<Rightarrow> pg_adapter \<Rightarrow> string \<Rightarrow> ('r, unit) pg_cmd" where
  "pg_deprovision server a tenant =
     (if \<not> pa_allow_destructive a
      then cfail (PgExn (PermissionError ''deprovision: LocalAdapter was created with allow_destructive=False''))
      else cbind (clift (database_name tenant)) (\<lambda>db.
        with_conn server ''postgres'' (pg_execute server ''postgres'' (sql_drop_database db) [])))"

definition pg_exists :: "'r pg \<Rightarrow> string \<Rightarrow> ('r, bool) pg_cmd" where
  "pg_exists server tenant =
     cbind (clift (database_name tenant)) (\<lambda>db.
       with_conn server ''postgres''
         (cbind (pg_fetchval server ''postgres'' sql_exists [db]) (\<lambda>row. cret (row \<noteq> None))))"

definition pg_dsn :: "pg_adapter \<Rightarrow> string \<Rightarrow> string \<Rightarrow> pg_exn + string" where
  "pg_dsn a tenant driver =
     rbind (database_name tenant) (\<lambda>db.
       if driver \<noteq> ''asyncpg'' \<and> driver \<noteq> ''psycopg'' then Inl (InvalidTenantError (''driver '' @ driver))
       else Inr (''postgresql+'' @ driver @ ''://'' @ pa_admin_user a @ '':'' @ pa_admin_password a
         @ ''@'' @ pa_host a @ '':'' @ show_int (pa_port a) @ ''/'' @ db))"

text \<open>\<open>except (OSError, asyncpg.PostgresError)\<close> around the connection attempt only.\<close>

definition connect_error :: "pg_exn \<Rightarrow> bool" where
  "connect_error e \<longleftrightarrow> e = PgExn (ExternalError ''OSError'') \<or> e = PgExn (ExternalError ''PostgresError'')"

definition probing :: "'r pg \<Rightarrow> ('r, bool) pg_cmd \<Rightarrow> ('r, bool) pg_cmd" where
  "probing server body =
     cbind (ccatch (cseq (ccall server (Connect ''postgres'')) (cret True))
              (\<lambda>e. if connect_error e then cret False else cfail e))
       (\<lambda>connected. if \<not> connected then cret False
                    else cfinally body (ccall server (CloseConn ''postgres'')))"

definition pg_health :: "'r pg \<Rightarrow> ('r, bool) pg_cmd" where
  "pg_health server =
     probing server (cbind (pg_fetchval server ''postgres'' ''SELECT 1'' []) (\<lambda>v. cret (v = Some 1)))"

subsection \<open>The managed adapter\<close>

record managed_adapter =
  ma_host :: string
  ma_port :: int
  ma_user :: string
  ma_password :: string
  ma_sslmode :: string

definition managed_pg_provision :: "string \<Rightarrow> ('r, unit) pg_cmd" where
  "managed_pg_provision tenant = cfail (PgExn (NotImplementedError ''ManagedAdapter.provision''))"

definition managed_pg_deprovision :: "string \<Rightarrow> ('r, unit) pg_cmd" where
  "managed_pg_deprovision tenant = cfail (PgExn (NotImplementedError ''ManagedAdapter.deprovision''))"

definition managed_exists :: "'r pg \<Rightarrow> string \<Rightarrow> ('r, bool) pg_cmd" where
  "managed_exists server tenant =
     cbind (clift (database_name tenant)) (\<lambda>db.
       probing server (cbind (pg_fetchval server ''postgres'' sql_exists [db]) (\<lambda>row. cret (row \<noteq> None))))"

definition managed_pg_health :: "'r pg \<Rightarrow> ('r, bool) pg_cmd" where
  "managed_pg_health server =
     probing server (cbind (pg_fetchval server ''postgres'' ''SELECT 1'' []) (\<lambda>v. cret (v = Some 1)))"

definition managed_dsn :: "managed_adapter \<Rightarrow> string \<Rightarrow> string \<Rightarrow> pg_exn + string" where
  "managed_dsn a tenant driver =
     rbind (database_name tenant) (\<lambda>db.
       if driver \<noteq> ''asyncpg'' \<and> driver \<noteq> ''psycopg'' then Inl (InvalidTenantError (''driver '' @ driver))
       else Inr (''postgresql+'' @ driver @ ''://'' @ ma_user a @ '':'' @ ma_password a
         @ ''@'' @ ma_host a @ '':'' @ show_int (ma_port a) @ ''/'' @ db @ ''?sslmode='' @ ma_sslmode a))"

subsection \<open>The command line\<close>

datatype pg_cli = PgProvision string | PgOutboxReader | PgDeprovision string bool

record pg_env =
  pe_host :: "string option"
  pe_port :: "int option"
  pe_admin_user :: "string option"
  pe_admin_password :: "string option"
  pe_app_password :: "string option"
  pe_outbox_password :: "string option"

definition default :: "'a \<Rightarrow> 'a option \<Rightarrow> 'a" where
  "default d v = (case v of None \<Rightarrow> d | Some x \<Rightarrow> x)"

definition cli_adapter :: "pg_env \<Rightarrow> bool \<Rightarrow> pg_adapter" where
  "cli_adapter env allow_destructive =
     \<lparr>pa_host = default ''localhost'' (pe_host env), pa_port = default 5434 (pe_port env),
      pa_admin_user = default ''postgres'' (pe_admin_user env),
      pa_admin_password = default ''changeme-please'' (pe_admin_password env),
      pa_allow_destructive = allow_destructive, pa_app_password = pe_app_password env\<rparr>"

text \<open>\<open>if not await adapter.health(): return 2\<close>, then the work and exit code 0.\<close>

definition when_healthy :: "'r pg \<Rightarrow> ('r, unit) pg_cmd \<Rightarrow> string \<Rightarrow> ('r, int \<times> string) pg_cmd" where
  "when_healthy server work done =
     cbind (pg_health server) (\<lambda>ok.
       if \<not> ok then cret (2, ''postgres-multi is unreachable (make up-postgres)'')
       else cseq work (cret (0, done)))"

definition pg_main :: "(pg_adapter \<Rightarrow> 'r pg) \<Rightarrow> pg_env \<Rightarrow> pg_cli \<Rightarrow> ('r, int \<times> string) pg_cmd" where
  "pg_main server env cli =
     (case cli of
        PgProvision tenant \<Rightarrow>
          let a = cli_adapter env False
          in when_healthy (server a) (pg_provision (server a) a tenant) (''provisioned: '' @ tenant)
      | PgOutboxReader \<Rightarrow>
          let a = cli_adapter env False; password = default [] (pe_outbox_password env)
          in if password = [] then cret (2, ''OUTBOX_READER_PASSWORD is not set'')
             else when_healthy (server a) (provision_outbox_reader (server a) password) ''provisioned: outbox_reader''
      | PgDeprovision tenant confirm \<Rightarrow>
          if \<not> confirm
          then cret (2, ''refusing to deprovision without --confirm (this drops the tenant's database)'')
          else let a = cli_adapter env True
               in cseq (pg_deprovision (server a) a tenant) (cret (0, ''deprovisioned: '' @ tenant)))"

subsection \<open>Connections and transactions\<close>

fun opens :: "pg_request \<times> bool \<Rightarrow> bool" where
  "opens (Connect db, b) = b"
| "opens (q, b) = False"

fun closes :: "pg_request \<times> bool \<Rightarrow> bool" where
  "closes (CloseConn db, b) = True"
| "closes (q, b) = False"

fun begins :: "pg_request \<times> bool \<Rightarrow> bool" where
  "begins (Begin db, b) = b"
| "begins (q, b) = False"

fun settles :: "pg_request \<times> bool \<Rightarrow> bool" where
  "settles (Commit db, b) = True"
| "settles (Rollback db, b) = True"
| "settles (q, b) = False"

fun statement :: "pg_request \<Rightarrow> bool" where
  "statement (Execute db sql args) = True"
| "statement (Fetchval db sql args) = True"
| "statement (Fetch db sql) = True"
| "statement q = False"

lemma statement_plain:
  "statement q \<Longrightarrow> \<not> opens (q, b) \<and> \<not> closes (q, b) \<and> \<not> begins (q, b) \<and> \<not> settles (q, b)"
  by (cases q) auto

lemma only_mono: "only P m \<Longrightarrow> (\<And>q. P q \<Longrightarrow> R q) \<Longrightarrow> only R m"
  unfolding only_def by (erule emits_mono) auto

lemma only_statements [emits_intros]:
  "P (Execute db sql args) \<Longrightarrow> only P (pg_execute server db sql args)"
  "P (Fetchval db sql args) \<Longrightarrow> only P (pg_fetchval server db sql args)"
  "P (Fetch db sql) \<Longrightarrow> only P (pg_fetch server db sql)"
  unfolding pg_execute_def pg_fetchval_def pg_fetch_def by (intro emits_intros; assumption)+

lemma statements_neutral:
  assumes "only statement m"
  shows "matched opens closes m" "matched begins settles m"
  using assms by (auto intro!: matched_neutral elim!: only_mono dest: statement_plain)

lemma with_conn_matched:
  assumes "matched opens closes body"
  shows "matched opens closes (with_conn server db body)"
  unfolding matched_def with_conn_def
proof (rule emits_seq, rule emits_call)
  fix reply
  have "emits (cfinally body (ccall server (CloseConn db))) (\<lambda>qs' r. Suc (tally opens qs') = tally closes qs')"
    by (rule emits_finally, rule emits_mono [OF assms [unfolded matched_def]], rule emits_call)
       (auto split: sum.splits)
  then show "case reply of
      Inl e \<Rightarrow> tally opens [(Connect db, is_ok reply)] = tally closes [(Connect db, is_ok reply)]
    | Inr a \<Rightarrow> emits (cfinally body (ccall server (CloseConn db)))
        (\<lambda>qs' r. tally opens ([(Connect db, is_ok reply)] @ qs') = tally closes ([(Connect db, is_ok reply)] @ qs'))"
    by (auto split: sum.splits elim!: emits_mono)
qed

lemma with_conn_settles:
  assumes "matched begins settles body"
  shows "matched begins settles (with_conn server db body)"
  unfolding matched_def with_conn_def
proof (rule emits_seq, rule emits_call)
  fix reply
  have "emits (cfinally body (ccall server (CloseConn db))) (\<lambda>qs' r. tally begins qs' = tally settles qs')"
    by (rule emits_finally, rule emits_mono [OF assms [unfolded matched_def]], rule emits_call)
       (auto split: sum.splits)
  then show "case reply of
      Inl e \<Rightarrow> tally begins [(Connect db, is_ok reply)] = tally settles [(Connect db, is_ok reply)]
    | Inr a \<Rightarrow> emits (cfinally body (ccall server (CloseConn db)))
        (\<lambda>qs' r. tally begins ([(Connect db, is_ok reply)] @ qs') = tally settles ([(Connect db, is_ok reply)] @ qs'))"
    by (auto split: sum.splits elim!: emits_mono)
qed

lemma transaction_opens:
  assumes "only statement body"
  shows "matched opens closes (transaction server db body)"
  unfolding transaction_def
  by (rule matched_neutral) (intro emits_intros; (simp | rule only_mono [OF assms], erule statement.elims; simp))

lemma transaction_settles:
  assumes "only statement body"
  shows "matched begins settles (transaction server db body)"
  unfolding matched_def transaction_def
proof (rule emits_seq, rule emits_call)
  fix reply
  have "emits (ccatch body (\<lambda>e. cseq (ccall server (Rollback db)) (cfail e)))
      (\<lambda>qs r. tally begins qs = 0 \<and> tally settles qs = (if is_ok r then 0 else 1))"
  proof (rule emits_catch, rule emits_mono [OF assms [unfolded only_def]])
    fix qs :: "(pg_request \<times> bool) list" and res :: "pg_exn + unit"
    assume "\<forall>q \<in> set qs. statement (fst q)"
    then have "filter begins qs = []" "filter settles qs = []"
      unfolding filter_empty_conv using statement_plain by (metis prod.collapse)+
    then have none: "tally begins qs = 0" "tally settles qs = 0" by (simp_all add: tally_def)
    have roll: "emits (cseq (ccall server (Rollback db)) (cfail e))
        (\<lambda>qs' r. tally begins (qs @ qs') = 0 \<and> tally settles (qs @ qs') = (if is_ok r then 0 else 1))" for e
      by (rule emits_seq, rule emits_call) (auto simp: none split: sum.splits intro: emits_fail)
    show "case res of
        Inl e \<Rightarrow> emits (cseq (ccall server (Rollback db)) (cfail e))
          (\<lambda>qs' r. tally begins (qs @ qs') = 0 \<and> tally settles (qs @ qs') = (if is_ok r then 0 else 1))
      | Inr a \<Rightarrow> tally begins qs = 0 \<and> tally settles qs = (if is_ok (Inr a) then 0 else 1)"
      using roll none by (cases res) (simp_all only: sum.case is_ok.simps if_True)
  qed
  then have "emits (cseq (ccatch body (\<lambda>e. cseq (ccall server (Rollback db)) (cfail e)))
      (cseq (ccall server (Commit db)) (cret ()))) (\<lambda>qs r. Suc (tally begins qs) = tally settles qs)"
    by (intro emits_seq, elim emits_mono)
       (auto split: sum.splits intro!: emits_seq emits_call emits_ret)
  then show "case reply of
      Inl e \<Rightarrow> tally begins [(Begin db, is_ok reply)] = tally settles [(Begin db, is_ok reply)]
    | Inr a \<Rightarrow> emits (cseq (ccatch body (\<lambda>e. cseq (ccall server (Rollback db)) (cfail e)))
        (cseq (ccall server (Commit db)) (cret ())))
        (\<lambda>qs' r. tally begins ([(Begin db, is_ok reply)] @ qs') = tally settles ([(Begin db, is_ok reply)] @ qs'))"
    by (auto split: sum.splits elim!: emits_mono)
qed

lemma matched_statements [matched_intros]:
  "matched opens closes (pg_execute server db sql args)" "matched begins settles (pg_execute server db sql args)"
  "matched opens closes (pg_fetchval server db sql args)" "matched begins settles (pg_fetchval server db sql args)"
  "matched opens closes (pg_fetch server db sql)" "matched begins settles (pg_fetch server db sql)"
  by (intro statements_neutral only_statements statement.simps(1-3) [THEN iffD2] TrueI)+

lemma probing_matched [matched_intros]:
  assumes "only statement body"
  shows "matched opens closes (probing server body)" "matched begins settles (probing server body)"
proof -
  let ?connect = "ccatch (cseq (ccall server (Connect ''postgres'')) (cret True))
      (\<lambda>e. if connect_error e then cret False else cfail e)"
  have connect: "emits ?connect (\<lambda>qs r. tally begins qs = 0 \<and> tally settles qs = 0 \<and> tally closes qs = 0 \<and>
      tally opens qs = (if r = Inr True then 1 else 0))"
    by (rule emits_catch, rule emits_seq, rule emits_call) (auto intro!: emits_ret emits_fail split: sum.splits)
  note body = statements_neutral [OF assms, unfolded matched_def]
  have "emits (cfinally body (ccall server (CloseConn ''postgres''))) (\<lambda>qs r. Suc (tally opens qs) = tally closes qs)"
    by (rule emits_finally, rule emits_mono [OF body(1)], rule emits_call) (auto split: sum.splits)
  then show "matched opens closes (probing server body)"
    unfolding matched_def probing_def
    by (intro emits_bind, intro emits_mono [OF connect]) (auto split: sum.splits intro!: emits_ret elim!: emits_mono)
  have "emits (cfinally body (ccall server (CloseConn ''postgres''))) (\<lambda>qs r. tally begins qs = tally settles qs)"
    by (rule emits_finally, rule emits_mono [OF body(2)], rule emits_call) (auto split: sum.splits)
  then show "matched begins settles (probing server body)"
    unfolding matched_def probing_def
    by (intro emits_bind, intro emits_mono [OF connect]) (auto split: sum.splits intro!: emits_ret elim!: emits_mono)
qed

lemmas connection_intros = matched_intros with_conn_matched with_conn_settles transaction_opens transaction_settles
  emits_intros

lemma pg_operations_matched [matched_intros]:
  "matched opens closes (grant_runtime_role server a tenant password)"
  "matched begins settles (grant_runtime_role server a tenant password)"
  "matched opens closes (provision_outbox_reader server password)"
  "matched begins settles (provision_outbox_reader server password)"
  "matched opens closes (pg_deprovision server a tenant)" "matched begins settles (pg_deprovision server a tenant)"
  "matched opens closes (pg_health server)" "matched begins settles (pg_health server)"
  "matched opens closes (pg_exists server tenant)" "matched begins settles (pg_exists server tenant)"
  "matched opens closes (managed_exists server tenant)" "matched begins settles (managed_exists server tenant)"
  unfolding grant_runtime_role_def provision_outbox_reader_def pg_deprovision_def pg_health_def pg_exists_def
    managed_exists_def Let_def
  by (auto intro!: connection_intros)

lemma pg_provision_matched [matched_intros]:
  "matched opens closes (pg_provision server a tenant)" "matched begins settles (pg_provision server a tenant)"
  unfolding pg_provision_def by (auto intro!: connection_intros pg_operations_matched)


subsection \<open>What is asked of the databases\<close>

text \<open>The statements that setting up a tenant may send; the password is in none of them.\<close>

definition provision_statement :: "string \<Rightarrow> string \<Rightarrow> string \<Rightarrow> string \<Rightarrow> bool" where
  "provision_statement db role owner sql \<longleftrightarrow>
     sql \<in> {sql_create_database db, sql_postgis, sql_set_config ''basic_infra.app_pw'', sql_runtime_role role,
       ''GRANT CONNECT ON DATABASE '' @ dquote db @ '' TO '' @ dquote role} \<or>
     sql \<in> set (sql_public_grants role) \<or> sql \<in> set (sql_default_privileges owner role) \<or>
     (\<exists>schema. sql \<in> set (sql_schema_grants schema role)) \<or> (\<exists>rel. sql = sql_rel_grant rel role)"

lemmas sql_texts = sql_create_database_def sql_postgis_def sql_set_config_def sql_runtime_role_def sql_assert_role_def
  sql_public_grants_def sql_default_privileges_def sql_schema_grants_def sql_rel_grant_def sql_outbox_role_def

lemma provision_statement_no_drop: "provision_statement db role owner sql \<Longrightarrow> \<not> starts_with sql ''DROP''"
  by (auto simp: provision_statement_def sql_texts starts_with_def)

definition provision_request :: "string \<Rightarrow> string \<Rightarrow> string \<Rightarrow> string \<Rightarrow> pg_request \<Rightarrow> bool" where
  "provision_request db role owner pw q \<longleftrightarrow>
     (case q of
        Execute x sql args \<Rightarrow> x \<in> {''postgres'', db} \<and> provision_statement db role owner sql \<and>
          (args = [] \<or> args = [pw] \<and> sql = sql_set_config ''basic_infra.app_pw'')
      | _ \<Rightarrow> True)"

lemma provision_request_execute:
  "provision_request db role owner pw (Execute x sql args) \<longleftrightarrow>
     x \<in> {''postgres'', db} \<and> provision_statement db role owner sql \<and>
       (args = [] \<or> args = [pw] \<and> sql = sql_set_config ''basic_infra.app_pw'')"
  by (simp add: provision_request_def)

lemma provision_request_other:
  "provision_request db role owner pw (Connect x)" "provision_request db role owner pw (CloseConn x)"
  "provision_request db role owner pw (Begin x)" "provision_request db role owner pw (Commit x)"
  "provision_request db role owner pw (Rollback x)" "provision_request db role owner pw (Fetch x sql)"
  "provision_request db role owner pw (Fetchval x sql args)"
  by (simp_all add: provision_request_def)

lemma only_with_conn [emits_intros]:
  "only P body \<Longrightarrow> P (Connect db) \<Longrightarrow> P (CloseConn db) \<Longrightarrow> only P (with_conn server db body)"
  unfolding with_conn_def by (intro emits_intros)

lemma only_transaction [emits_intros]:
  "only P body \<Longrightarrow> P (Begin db) \<Longrightarrow> P (Commit db) \<Longrightarrow> P (Rollback db) \<Longrightarrow> only P (transaction server db body)"
  unfolding transaction_def by (intro emits_intros)

lemma grant_only:
  "database_name tenant = Inr db \<Longrightarrow>
     only (provision_request db (runtime_role tenant) (pa_admin_user a) pw) (grant_runtime_role server a tenant pw)"
  unfolding grant_runtime_role_def Let_def
  by (auto intro!: emits_intros simp: provision_request_execute provision_request_other provision_statement_def)

lemma provision_only:
  "database_name tenant = Inr db \<Longrightarrow>
     only (provision_request db (runtime_role tenant) (pa_admin_user a) (the (pa_app_password a)))
       (pg_provision server a tenant)"
  unfolding pg_provision_def
  by (auto intro!: emits_intros grant_only simp: provision_request_execute provision_request_other provision_statement_def)

text \<open>
  Setting up a tenant, whatever the server answers: statements go to the maintenance database and the
  tenant's own database only, each of them is one of the fixed texts over the tenant's names, none drops
  anything, and the role's password is in no statement, but travels once as a bound value.
\<close>

theorem provision_statements_confined:
  assumes "database_name tenant = Inr db" and "pg_provision server a tenant s = (s', res)"
    and "ss_log s' = ss_log s @ qs" and "(Execute x sql args, b) \<in> set qs"
  shows "x \<in> {''postgres'', db} \<and> provision_statement db (runtime_role tenant) (pa_admin_user a) sql \<and>
    \<not> starts_with sql ''DROP'' \<and>
    (args = [] \<or> args = [the (pa_app_password a)] \<and> sql = sql_set_config ''basic_infra.app_pw'')"
proof -
  have "provision_request db (runtime_role tenant) (pa_admin_user a) (the (pa_app_password a)) (Execute x sql args)"
    using onlyD [OF provision_only [OF assms(1), of a server] assms(2)] assms(3,4) by fastforce
  then show ?thesis
    using provision_statement_no_drop by (auto simp: provision_request_execute)
qed

definition drop_request :: "pg_cli \<Rightarrow> pg_request \<Rightarrow> bool" where
  "drop_request cli q \<longleftrightarrow>
     (\<forall>x sql args. q = Execute x sql args \<longrightarrow> starts_with sql ''DROP'' \<longrightarrow>
       (\<exists>tenant db. cli = PgDeprovision tenant True \<and> database_name tenant = Inr db \<and> x = ''postgres'' \<and>
          sql = sql_drop_database db \<and> args = []))"

lemma drop_request_other:
  "drop_request cli (Connect x)" "drop_request cli (CloseConn x)" "drop_request cli (Begin x)"
  "drop_request cli (Commit x)" "drop_request cli (Rollback x)" "drop_request cli (Fetch x sql)"
  "drop_request cli (Fetchval x sql args)"
  by (simp_all add: drop_request_def)

lemma provision_no_drop: "only (drop_request cli) (pg_provision server a tenant)"
proof (cases "database_name tenant")
  case (Inl e)
  then show ?thesis by (simp add: pg_provision_def only_fail)
next
  case (Inr db)
  from provision_only [OF this] show ?thesis
    by (rule only_mono) (auto simp: drop_request_def provision_request_execute dest: provision_statement_no_drop)
qed

lemma outbox_no_drop: "only (drop_request cli) (provision_outbox_reader server pw)"
  unfolding provision_outbox_reader_def
  by (auto intro!: emits_intros simp: drop_request_other)
     (auto simp: drop_request_def sql_texts starts_with_def)

lemma health_no_drop: "only (drop_request cli) (pg_health server)"
  unfolding pg_health_def probing_def by (auto intro!: emits_intros simp: drop_request_other)

lemma deprovision_drops_own: "only (drop_request (PgDeprovision tenant True)) (pg_deprovision server a tenant)"
proof (cases "database_name tenant")
  case (Inl e)
  then show ?thesis by (simp add: pg_deprovision_def only_fail)
next
  case (Inr db)
  then show ?thesis
    unfolding pg_deprovision_def
    by (auto intro!: emits_intros simp: drop_request_other) (auto simp: drop_request_def)
qed

text \<open>
  Nothing is dropped without the operator's word: a statement that begins with \<open>DROP\<close> is sent, over any
  run of any command, only by a deprovision with \<open>--confirm\<close>, to the maintenance database, and names
  exactly the database of the tenant that was given.
\<close>

theorem drop_needs_confirmation:
  assumes "pg_main server env cli s = (s', res)" and "ss_log s' = ss_log s @ qs"
    and "(Execute x sql args, b) \<in> set qs" and "starts_with sql ''DROP''"
  shows "\<exists>tenant db. cli = PgDeprovision tenant True \<and> database_name tenant = Inr db \<and> x = ''postgres'' \<and>
    sql = sql_drop_database db \<and> args = []"
proof -
  have "only (drop_request cli) (pg_main server env cli)"
    unfolding pg_main_def when_healthy_def Let_def
    by (auto split: pg_cli.splits
        intro!: emits_intros provision_no_drop outbox_no_drop health_no_drop deprovision_drops_own)
  from onlyD [OF this assms(1)] assms(2,3) have "drop_request cli (Execute x sql args)" by fastforce
  with assms(4) show ?thesis by (simp add: drop_request_def)
qed

subsection \<open>Databases created and dropped\<close>

text \<open>
  What the adapter relies on of the server: \<open>pg_database\<close> lists its databases, \<open>CREATE DATABASE\<close> and
  \<open>DROP DATABASE\<close> add and remove one when they succeed, and nothing else changes the list.
\<close>

definition pg_catalog :: "'r pg \<Rightarrow> ('r \<Rightarrow> string set) \<Rightarrow> bool" where
  "pg_catalog server dbs \<longleftrightarrow>
     (\<forall>r db r' v. server r (Fetchval ''postgres'' sql_exists [db]) = (r', Inr v) \<longrightarrow>
        v = PgValue (if db \<in> dbs r then Some 1 else None)) \<and>
     (\<forall>r x db args r' v. server r (Execute x (sql_create_database db) args) = (r', v) \<longrightarrow>
        dbs r' = (if is_ok v then insert db (dbs r) else dbs r)) \<and>
     (\<forall>r x db args r' v. server r (Execute x (sql_drop_database db) args) = (r', v) \<longrightarrow>
        dbs r' = (if is_ok v then dbs r - {db} else dbs r)) \<and>
     (\<forall>r q r' v. server r q = (r', v) \<longrightarrow>
        (\<forall>x db args. q \<noteq> Execute x (sql_create_database db) args \<and> q \<noteq> Execute x (sql_drop_database db) args) \<longrightarrow>
        dbs r' = dbs r)"

lemma pg_catalogD:
  assumes "pg_catalog server dbs" "server r q = (r', v)"
  shows "q = Fetchval ''postgres'' sql_exists [db] \<Longrightarrow> v = Inr w \<Longrightarrow> w = PgValue (if db \<in> dbs r then Some 1 else None)"
    "q = Execute x (sql_create_database db) args \<Longrightarrow> dbs r' = (if is_ok v then insert db (dbs r) else dbs r)"
    "q = Execute x (sql_drop_database db) args \<Longrightarrow> dbs r' = (if is_ok v then dbs r - {db} else dbs r)"
    "(\<And>x db args. q \<noteq> Execute x (sql_create_database db) args \<and> q \<noteq> Execute x (sql_drop_database db) args) \<Longrightarrow>
       dbs r' = dbs r"
proof -
  note law = assms(1) [unfolded pg_catalog_def]
  show "w = PgValue (if db \<in> dbs r then Some 1 else None)"
    if "q = Fetchval ''postgres'' sql_exists [db]" "v = Inr w"
    using conjunct1 [OF law, rule_format, of r db r' w] assms(2) that by simp
  show "dbs r' = (if is_ok v then insert db (dbs r) else dbs r)" if "q = Execute x (sql_create_database db) args"
    using conjunct1 [OF conjunct2 [OF law], rule_format, of r x db args r' v] assms(2) that by simp
  show "dbs r' = (if is_ok v then dbs r - {db} else dbs r)" if "q = Execute x (sql_drop_database db) args"
    using conjunct1 [OF conjunct2 [OF conjunct2 [OF law]], rule_format, of r x db args r' v] assms(2) that by simp
  show "dbs r' = dbs r"
    if "\<And>x db args. q \<noteq> Execute x (sql_create_database db) args \<and> q \<noteq> Execute x (sql_drop_database db) args"
    using conjunct2 [OF conjunct2 [OF conjunct2 [OF law]], rule_format, of r q r' v] assms(2) that by simp
qed

definition gains :: "('r \<Rightarrow> string set) \<Rightarrow> string \<Rightarrow> 'r \<Rightarrow> 'r \<Rightarrow> bool" where
  "gains dbs db r r' \<longleftrightarrow> dbs r \<subseteq> dbs r' \<and> dbs r' \<subseteq> insert db (dbs r)"

lemma gains_order: "reflp (gains dbs db)" "transp (gains dbs db)"
  by (auto simp: gains_def reflp_def transp_def)

lemma drop_starts: "starts_with (sql_drop_database d) ''DROP''"
  by (simp add: sql_drop_database_def starts_with_def)

lemma gains_step:
  assumes "pg_catalog server dbs" "provision_request db role owner pw q" "server r q = (r', v)"
  shows "gains dbs db r r'"
proof (cases "\<exists>x d args. q = Execute x (sql_create_database d) args")
  case True
  then obtain x d args where q: "q = Execute x (sql_create_database d) args" by blast
  have "sql_create_database d \<noteq> sql_create_database db \<Longrightarrow> \<not> provision_statement db role owner (sql_create_database d)"
    by (auto simp: provision_statement_def sql_texts)
  with assms(2) q have "d = db"
    by (auto simp: provision_request_execute sql_create_database_def dquote_def)
  then show ?thesis using pg_catalogD(2) [OF assms(1,3) q] by (auto simp: gains_def)
next
  case False
  have "\<nexists>x d args. q = Execute x (sql_drop_database d) args"
    using assms(2) provision_statement_no_drop drop_starts unfolding provision_request_def by fastforce
  with False have "dbs r' = dbs r" using pg_catalogD(4) [OF assms(1,3)] by blast
  then show ?thesis by (auto simp: gains_def)
qed

lemma with_conn_Inr [runs]:
  "with_conn server db body s = (s', Inr a) \<longleftrightarrow>
     (\<exists>s1 s2 c d. ccall server (Connect db) s = (s1, Inr c) \<and> body s1 = (s2, Inr a) \<and>
       ccall server (CloseConn db) s2 = (s', Inr d))"
  by (simp add: with_conn_def runs)

lemma pg_execute_Inr [runs]:
  "pg_execute server db sql args s = (s', Inr u) \<longleftrightarrow> (\<exists>v. ccall server (Execute db sql args) s = (s', Inr v))"
  by (auto simp: pg_execute_def cseq_def cbind_def cret_def split: prod.splits sum.splits)

lemma ccall_keeps:
  assumes "pg_catalog server dbs" "ccall server q s = (s', v)"
    and "\<And>x db args. q \<noteq> Execute x (sql_create_database db) args \<and> q \<noteq> Execute x (sql_drop_database db) args"
  shows "dbs (ss_server s') = dbs (ss_server s)"
  using assms(2) pg_catalogD(4) [OF assms(1) _ assms(3)] by (auto simp: ccall_def split: prod.splits)

lemma ensure_database:
  assumes "pg_catalog server dbs"
    and "with_conn server ''postgres'' (cbind (pg_fetchval server ''postgres'' sql_exists [db])
      (\<lambda>already. cwhen (already = None \<or> already = Some 0)
        (pg_execute server ''postgres'' (sql_create_database db) []))) s = (s', Inr ())"
  shows "db \<in> dbs (ss_server s')"
proof -
  obtain s1 s2 s3 c reply d already where
      connect: "ccall server (Connect ''postgres'') s = (s1, Inr c)"
    and fetch: "ccall server (Fetchval ''postgres'' sql_exists [db]) s1 = (s2, Inr reply)"
    and found: "already = (case reply of PgValue v \<Rightarrow> v | _ \<Rightarrow> None)"
    and create: "cwhen (already = None \<or> already = Some 0)
      (pg_execute server ''postgres'' (sql_create_database db) []) s2 = (s3, Inr ())"
    and closed: "ccall server (CloseConn ''postgres'') s3 = (s', Inr d)"
    using assms(2) by (auto simp: with_conn_Inr cbind_Inr pg_fetchval_def cret_Inr)
  have reply: "reply = PgValue (if db \<in> dbs (ss_server s1) then Some 1 else None)"
  proof -
    from fetch obtain r where "server (ss_server s1) (Fetchval ''postgres'' sql_exists [db]) = (r, Inr reply)"
      by (auto simp: ccall_Inr)
    from pg_catalogD(1) [OF assms(1) this refl refl] show ?thesis .
  qed
  have same: "dbs (ss_server s2) = dbs (ss_server s1)" "dbs (ss_server s') = dbs (ss_server s3)"
    using ccall_keeps [OF assms(1) fetch] ccall_keeps [OF assms(1) closed] by auto
  have "db \<in> dbs (ss_server s3)"
  proof (cases "db \<in> dbs (ss_server s1)")
    case True
    then show ?thesis using create same(1) by (simp add: found reply cwhen_Inr)
  next
    case False
    then obtain v where "ccall server (Execute ''postgres'' (sql_create_database db) []) s2 = (s3, Inr v)"
      using create by (auto simp: found reply cwhen_Inr pg_execute_Inr)
    then show ?thesis using pg_catalogD(2) [OF assms(1) _ refl] by (fastforce simp: ccall_Inr)
  qed
  with same(2) show ?thesis by simp
qed

lemma moves_with_conn [moves_intros]:
  "transp R \<Longrightarrow> moves R (ccall server (Connect db)) \<Longrightarrow> moves R body \<Longrightarrow> moves R (ccall server (CloseConn db)) \<Longrightarrow>
     moves R (with_conn server db body)"
  unfolding with_conn_def by (intro moves_seq moves_finally)

lemma grant_moves:
  assumes "pg_catalog server dbs" "database_name tenant = Inr db"
  shows "moves (gains dbs db) (grant_runtime_role server a tenant pw)"
proof -
  have step: "moves (gains dbs db) (ccall server q)"
    if "provision_request db (runtime_role tenant) (pa_admin_user a) pw q" for q
    using gains_step [OF assms(1) that] by (rule moves_call)
  show ?thesis
    unfolding grant_runtime_role_def Let_def transaction_def with_conn_def pg_execute_def pg_fetch_def
    by (auto simp: assms(2) provision_request_execute provision_request_other provision_statement_def
        intro!: gains_order step moves_seq moves_bind moves_finally moves_catch moves_for moves_when moves_ret moves_fail)
qed

lemma provision_parts:
  assumes "pg_catalog server dbs" "database_name tenant = Inr db"
  shows "moves (gains dbs db) (with_conn server ''postgres'' (cbind (pg_fetchval server ''postgres'' sql_exists [db])
      (\<lambda>already. cwhen (already = None \<or> already = Some 0)
        (pg_execute server ''postgres'' (sql_create_database db) []))))"
    "moves (gains dbs db) (cseq (with_conn server db (pg_execute server db sql_postgis []))
      (cwhen (truthy (pa_app_password a)) (grant_runtime_role server a tenant (the (pa_app_password a)))))"
proof -
  have step: "moves (gains dbs db) (ccall server q)"
    if "provision_request db (runtime_role tenant) (pa_admin_user a) (the (pa_app_password a)) q" for q
    using gains_step [OF assms(1) that] by (rule moves_call)
  note intros = gains_order step grant_moves [OF assms] moves_seq moves_bind moves_finally moves_when moves_ret
  show "moves (gains dbs db) (with_conn server ''postgres'' (cbind (pg_fetchval server ''postgres'' sql_exists [db])
      (\<lambda>already. cwhen (already = None \<or> already = Some 0)
        (pg_execute server ''postgres'' (sql_create_database db) []))))"
    unfolding with_conn_def pg_execute_def pg_fetchval_def
    by (auto simp: provision_request_execute provision_request_other provision_statement_def intro!: intros)
  show "moves (gains dbs db) (cseq (with_conn server db (pg_execute server db sql_postgis []))
      (cwhen (truthy (pa_app_password a)) (grant_runtime_role server a tenant (the (pa_app_password a)))))"
    unfolding with_conn_def pg_execute_def
    by (auto simp: provision_request_execute provision_request_other provision_statement_def intro!: intros)
qed

lemma provision_database:
  assumes "pg_catalog server dbs" and "database_name tenant = Inr db"
    and run: "pg_provision server a tenant s = (s', res)"
  shows "dbs (ss_server s) \<subseteq> dbs (ss_server s')" "dbs (ss_server s') \<subseteq> insert db (dbs (ss_server s))"
    "res = Inr () \<Longrightarrow> db \<in> dbs (ss_server s')"
proof -
  let ?ensure = "with_conn server ''postgres'' (cbind (pg_fetchval server ''postgres'' sql_exists [db])
      (\<lambda>already. cwhen (already = None \<or> already = Some 0)
        (pg_execute server ''postgres'' (sql_create_database db) [])))"
  let ?rest = "cseq (with_conn server db (pg_execute server db sql_postgis []))
      (cwhen (truthy (pa_app_password a)) (grant_runtime_role server a tenant (the (pa_app_password a))))"
  have eq: "pg_provision server a tenant = cseq ?ensure ?rest" by (simp add: pg_provision_def assms(2))
  have "moves (gains dbs db) (pg_provision server a tenant)"
    unfolding eq by (rule moves_seq [OF gains_order(2) provision_parts [OF assms(1,2)]])
  from movesD [OF this run] show "dbs (ss_server s) \<subseteq> dbs (ss_server s')"
    "dbs (ss_server s') \<subseteq> insert db (dbs (ss_server s))"
    by (simp_all add: gains_def)
  assume "res = Inr ()"
  then obtain s1 where s1: "?ensure s = (s1, Inr ())" "?rest s1 = (s', Inr ())"
    using run unfolding eq by (auto simp: cseq_Inr)
  from ensure_database [OF assms(1) s1(1)] movesD [OF provision_parts(2) [OF assms(1,2)] s1(2)]
  show "db \<in> dbs (ss_server s')" by (auto simp: gains_def)
qed

lemma deprovision_database:
  assumes "pg_catalog server dbs" and "database_name tenant = Inr db"
    and run: "pg_deprovision server a tenant s = (s', res)"
  shows "dbs (ss_server s) - {db} \<subseteq> dbs (ss_server s')" "dbs (ss_server s') \<subseteq> dbs (ss_server s)"
    "res = Inr () \<Longrightarrow> db \<notin> dbs (ss_server s')"
proof -
  let ?R = "\<lambda>r r'. dbs r - {db} \<subseteq> dbs r' \<and> dbs r' \<subseteq> dbs r"
  have drop: "?R r r'" if "server r (Execute x (sql_drop_database db) args) = (r', v)" for r x args r' v
    using pg_catalogD(3) [OF assms(1) that refl] by auto
  have conn: "dbs r' = dbs r" if "server r (Connect x) = (r', v)" for r x r' v
    using pg_catalogD(4) [OF assms(1) that] by simp
  have closed: "dbs r' = dbs r" if "server r (CloseConn x) = (r', v)" for r x r' v
    using pg_catalogD(4) [OF assms(1) that] by simp
  have order: "reflp ?R" "transp ?R" by (auto simp: reflp_def transp_def)
  have "moves ?R (pg_deprovision server a tenant)"
    unfolding pg_deprovision_def with_conn_def pg_execute_def
    by (auto simp: assms(2) intro!: order moves_fail moves_seq moves_finally moves_ret moves_call
        dest: drop conn closed)
  from movesD [OF this run] show "dbs (ss_server s) - {db} \<subseteq> dbs (ss_server s')"
    "dbs (ss_server s') \<subseteq> dbs (ss_server s)"
    by simp_all
  assume "res = Inr ()"
  then obtain s1 s2 v c where
      exec: "ccall server (Execute ''postgres'' (sql_drop_database db) []) s1 = (s2, Inr v)"
    and shut: "ccall server (CloseConn ''postgres'') s2 = (s', Inr c)"
    using run by (auto simp: pg_deprovision_def assms(2) cfail_Inr with_conn_Inr pg_execute_Inr split: if_splits)
  from exec obtain r where r: "server (ss_server s1) (Execute ''postgres'' (sql_drop_database db) []) = (r, Inr v)"
    "ss_server s2 = r"
    by (auto simp: ccall_Inr)
  have "db \<notin> dbs (ss_server s2)" using pg_catalogD(3) [OF assms(1) r(1) refl] r(2) by simp
  moreover have "dbs (ss_server s') = dbs (ss_server s2)"
    by (rule ccall_keeps [OF assms(1) shut]) simp
  ultimately show "db \<notin> dbs (ss_server s')" by simp
qed

text \<open>
  C26. The life cycle of a tenant's database: provisioning keeps every database, creates none but the
  tenant's, and when it returns that database exists, however often it is run; a permitted deprovisioning
  that returns removes exactly the tenant's database, and also one that fails removes no other.
\<close>

theorem pg_database_lifecycle:
  assumes "pg_catalog server dbs" and "database_name tenant = Inr db"
  shows "(pg_provision server a tenant s = (s', res) \<longrightarrow>
      dbs (ss_server s) \<subseteq> dbs (ss_server s') \<and> dbs (ss_server s') \<subseteq> insert db (dbs (ss_server s)) \<and>
      (res = Inr () \<longrightarrow> db \<in> dbs (ss_server s'))) \<and>
    (pg_deprovision server a tenant s = (s', res) \<longrightarrow>
      dbs (ss_server s) - {db} \<subseteq> dbs (ss_server s') \<and> dbs (ss_server s') \<subseteq> dbs (ss_server s) \<and>
      (res = Inr () \<longrightarrow> db \<notin> dbs (ss_server s')))"
  using provision_database [OF assms] deprovision_database [OF assms] by (intro conjI impI) blast+

subsection \<open>Witnesses\<close>

text \<open>A server over the list of its databases.\<close>

definition sample_pg :: "string list pg" where
  "sample_pg dbs q =
     (case q of
        Fetchval x sql args \<Rightarrow>
          (dbs, Inr (PgValue (if sql = sql_exists then (if hd args \<in> set dbs then Some 1 else None) else Some 1)))
      | Execute x sql args \<Rightarrow>
          ((if sql = sql_create_database (butlast (drop 17 sql)) then [butlast (drop 17 sql)] else [])
             @ filter (\<lambda>d. sql \<noteq> sql_drop_database d) dbs, Inr PgDone)
      | Fetch x sql \<Rightarrow> (dbs, Inr (PgRows [''inventory'']))
      | _ \<Rightarrow> (dbs, Inr PgDone))"

lemma sql_names: "sql_drop_database d = sql_drop_database d' \<longleftrightarrow> d = d'"
  "sql_create_database d = sql_create_database d' \<longleftrightarrow> d = d'" "sql_create_database d \<noteq> sql_drop_database d'"
  "sql_drop_database d \<noteq> sql_create_database d'" "butlast (drop 17 (sql_create_database d)) = d"
  by (simp_all add: sql_drop_database_def sql_create_database_def dquote_def)

lemma sample_pg_catalog: "pg_catalog sample_pg set"
  unfolding pg_catalog_def
proof (intro conjI allI impI, goal_cases)
  case (4 r q r' v)
  show ?case
  proof (cases q)
    case (Execute x sql args)
    then have "sql \<noteq> sql_create_database d" "sql \<noteq> sql_drop_database d" for d
      using 4(2) by auto
    with 4(1) Execute show ?thesis by (auto simp: sample_pg_def)
  qed (use 4(1) in \<open>auto simp: sample_pg_def\<close>)
qed (auto simp: sample_pg_def sql_names)

definition sample_pg_adapter :: pg_adapter where
  "sample_pg_adapter = \<lparr>pa_host = ''localhost'', pa_port = 5434, pa_admin_user = ''postgres'', pa_admin_password = ''x'',
     pa_allow_destructive = True, pa_app_password = Some ''secret''\<rparr>"

definition sample_pg_session :: "string list pg_session" where
  "sample_pg_session = \<lparr>ss_server = [''postgres''], ss_log = []\<rparr>"

definition sample_pg_run :: "string list pg_session \<times> (pg_exn + unit)" where
  "sample_pg_run = pg_provision sample_pg sample_pg_adapter ''a-b'' sample_pg_session"

lemma provision_statements_confined_witness:
  "\<forall>qs x sql args b. ss_log (fst sample_pg_run) = qs \<and> (Execute x sql args, b) \<in> set qs \<longrightarrow>
     x \<in> {''postgres'', ''a_b''} \<and> \<not> starts_with sql ''DROP''"
proof (intro allI impI)
  fix qs x sql args b
  assume q: "ss_log (fst sample_pg_run) = qs \<and> (Execute x sql args, b) \<in> set qs"
  have run: "pg_provision sample_pg sample_pg_adapter ''a-b'' sample_pg_session = (fst sample_pg_run, snd sample_pg_run)"
    by (simp add: sample_pg_run_def)
  have "ss_log (fst sample_pg_run) = ss_log sample_pg_session @ qs" using q by (simp add: sample_pg_session_def)
  from provision_statements_confined [OF sample_databases(1) run this] q
  show "x \<in> {''postgres'', ''a_b''} \<and> \<not> starts_with sql ''DROP''" by blast
qed

lemma pg_database_lifecycle_witness:
  "set (ss_server (fst sample_pg_run)) \<subseteq> {''a_b'', ''postgres''}"
proof -
  have run: "pg_provision sample_pg sample_pg_adapter ''a-b'' sample_pg_session = (fst sample_pg_run, snd sample_pg_run)"
    by (simp add: sample_pg_run_def)
  have "set (ss_server (fst sample_pg_run)) \<subseteq> insert ''a_b'' (set (ss_server sample_pg_session))"
    using pg_database_lifecycle [OF sample_pg_catalog sample_databases(1)] run by blast
  then show ?thesis by (simp add: sample_pg_session_def)
qed

definition sample_pg_env :: pg_env where
  "sample_pg_env = \<lparr>pe_host = None, pe_port = None, pe_admin_user = None, pe_admin_password = None,
     pe_app_password = None, pe_outbox_password = None\<rparr>"

definition sample_drop_log :: "(pg_request \<times> bool) list" where
  "sample_drop_log = [(Connect ''postgres'', True), (Execute ''postgres'' (sql_drop_database ''a_b'') [], True),
     (CloseConn ''postgres'', True)]"

lemma sample_drop_run:
  "\<exists>s' res. pg_main (\<lambda>a. sample_pg) sample_pg_env (PgDeprovision ''a-b'' True) sample_pg_session = (s', res) \<and>
     ss_log s' = ss_log sample_pg_session @ sample_drop_log"
  by (simp add: pg_main_def pg_deprovision_def cli_adapter_def sample_databases cseq_def cbind_def with_conn_def
      cfinally_def ccall_def pg_execute_def cret_def sample_pg_def sample_drop_log_def sample_pg_session_def Let_def)

lemma drop_needs_confirmation_witness:
  "\<exists>tenant db. PgDeprovision ''a-b'' True = PgDeprovision tenant True \<and> database_name tenant = Inr db \<and>
     sql_drop_database ''a_b'' = sql_drop_database db"
proof -
  obtain s' res where run: "pg_main (\<lambda>a. sample_pg) sample_pg_env (PgDeprovision ''a-b'' True) sample_pg_session = (s', res)"
    and log: "ss_log s' = ss_log sample_pg_session @ sample_drop_log"
    using sample_drop_run by blast
  have "(Execute ''postgres'' (sql_drop_database ''a_b'') [], True) \<in> set sample_drop_log"
    by (simp add: sample_drop_log_def)
  from drop_needs_confirmation [OF run log this drop_starts] show ?thesis by blast
qed

end
