(* ===== verification/Llm_Client.thy ===== *)
theory Llm_Client
  imports Llm_Providers
begin

text \<open>
  The client SDK's client (\<open>vams_llm_client/client.py\<close>, \<open>capabilities.py\<close>, \<open>cache.py\<close>): the capability and
  alias tables, construction, the gate in front of every call and the embedding cache.
\<close>

subsection \<open>Tables\<close>

definition provider_capabilities :: "(string, string list) pydict" where
  "provider_capabilities =
     [(''basic-infra'', [''chat'', ''embed'', ''rerank'', ''structured'']),
      (''openai'', [''chat'', ''embed'', ''structured'']),
      (''anthropic'', [''chat'', ''structured''])]"

definition provider_model_aliases :: "(string, (string, string) pydict) pydict" where
  "provider_model_aliases =
     [(''basic-infra'',
       [(''default-chat'', ''t-pro-it-2.1-q8''), (''default-embed'', ''bge-m3''),
        (''default-rerank'', ''bge-reranker-v2-m3'')]),
      (''openai'', [(''default-chat'', ''gpt-4o-mini''), (''default-embed'', ''text-embedding-3-small'')]),
      (''anthropic'', [(''default-chat'', ''claude-haiku-4-5'')])]"

definition known_providers :: "string list" where
  "known_providers = dict_keys provider_capabilities"

definition resolve_model :: "string \<Rightarrow> string \<Rightarrow> string" where
  "resolve_model provider alias_or_id =
     (case map_of (case map_of provider_model_aliases provider of None \<Rightarrow> [] | Some t \<Rightarrow> t) alias_or_id of
        None \<Rightarrow> alias_or_id
      | Some m \<Rightarrow> m)"

subsection \<open>The embedding cache\<close>

text \<open>
  The rows of the cache database, with \<open>sha256\<close> and the two directions of the JSON codec for a list of
  floats as parameters.
\<close>

type_synonym cache_db = "(string, string) pydict"

record vector_codec =
  vc_digest :: "string \<Rightarrow> string"
  vc_dumps :: "vector \<Rightarrow> string"
  vc_loads :: "string \<Rightarrow> exn + vector"

definition cache_key :: "vector_codec \<Rightarrow> string \<Rightarrow> string \<Rightarrow> string \<Rightarrow> string" where
  "cache_key vc provider model text = vc_digest vc (provider @ [CHR 0x00] @ model @ [CHR 0x00] @ text)"

definition cache_get :: "vector_codec \<Rightarrow> cache_db \<Rightarrow> string \<Rightarrow> string \<Rightarrow> string \<Rightarrow> exn + vector option" where
  "cache_get vc db provider model text =
     (case map_of db (cache_key vc provider model text) of
        None \<Rightarrow> Inr None
      | Some row \<Rightarrow> rmap Some (vc_loads vc row))"

definition cache_put :: "vector_codec \<Rightarrow> cache_db \<Rightarrow> string \<Rightarrow> string \<Rightarrow> string \<Rightarrow> vector \<Rightarrow> cache_db" where
  "cache_put vc db provider model text v = AList.update (cache_key vc provider model text) (vc_dumps vc v) db"

subsection \<open>Construction\<close>

datatype provider_impl =
    PlatformImpl BasicInfraProvider
  | OpenAIImpl OpenAIProvider
  | AnthropicImpl AnthropicProvider

text \<open>What the SDK finds around it: the network, the optional packages, and the library functions.\<close>

record 'w services =
  sv_platform :: "'w platform"
  sv_openai_chat :: "OpenAIProvider \<Rightarrow> (string, json) pydict \<Rightarrow> 'w \<Rightarrow> 'w \<times> (exn + openai_chat_reply)"
  sv_openai_embeddings :: "OpenAIProvider \<Rightarrow> string \<Rightarrow> string list \<Rightarrow> 'w \<Rightarrow> 'w \<times> (exn + openai_embeddings)"
  sv_anthropic :: "AnthropicProvider \<Rightarrow> (string, json) pydict \<Rightarrow> 'w \<Rightarrow> 'w \<times> (exn + anthropic_message)"
  sv_installed :: "string \<Rightarrow> bool"
  sv_codecs :: codecs
  sv_vectors :: vector_codec

record LlmClient =
  lc_provider :: string
  lc_base_url :: "string option"
  lc_api_key :: "string option"
  lc_cache_dir :: "string option"
  lc_impl :: provider_impl
  lc_cache :: "cache_db option"
  lc_cache_enabled :: bool

definition dependency_missing :: "string \<Rightarrow> vams_error" where
  "dependency_missing package =
     ProviderDependencyMissing (''LLM_PROVIDER='' @ package @ '' needs the extra (install vams-llm-client['' @ package @ ''])'')"

definition build_provider ::
  "'w services \<Rightarrow> string \<Rightarrow> string option \<Rightarrow> string option \<Rightarrow> vams_error + provider_impl"
where
  "build_provider sv provider base_url api_key =
     (if provider = ''basic-infra''
      then if \<not> truthy base_url \<or> \<not> truthy api_key
           then Inl (ProviderNotConfigured ''basic-infra provider needs LLM_BASE_URL and LLM_API_KEY'')
           else Inr (PlatformImpl (basic_infra_provider (the base_url) (the api_key)))
      else if provider = ''openai''
      then if \<not> truthy api_key then Inl (ProviderNotConfigured ''openai provider needs LLM_API_KEY'')
           else if \<not> sv_installed sv ''openai'' then Inl (dependency_missing ''openai'')
           else Inr (OpenAIImpl \<lparr>op_api_key = the api_key, op_base_url = base_url\<rparr>)
      else if provider = ''anthropic''
      then if \<not> truthy api_key then Inl (ProviderNotConfigured ''anthropic provider needs LLM_API_KEY'')
           else if \<not> sv_installed sv ''anthropic'' then Inl (dependency_missing ''anthropic'')
           else Inr (AnthropicImpl \<lparr>an_api_key = the api_key, an_base_url = (if truthy base_url then base_url else None)\<rparr>)
      else Inl (ProviderNotConfigured (''unknown provider '' @ np_repr (cd_numbers (sv_codecs sv)) (JStr provider))))"

text \<open>\<open>disk\<close> is what the cache database already holds.\<close>

definition new_llm_client ::
  "'w services \<Rightarrow> cache_db \<Rightarrow> string \<Rightarrow> string option \<Rightarrow> string option \<Rightarrow> string option \<Rightarrow> vams_error + LlmClient"
where
  "new_llm_client sv disk provider base_url api_key cache_dir =
     (if provider \<notin> set known_providers
      then Inl (ProviderNotConfigured (''unknown provider '' @ np_repr (cd_numbers (sv_codecs sv)) (JStr provider)
        @ '' (known: anthropic, basic-infra, openai)''))
      else rmap (\<lambda>impl. \<lparr>lc_provider = provider, lc_base_url = base_url, lc_api_key = api_key, lc_cache_dir = cache_dir,
               lc_impl = impl, lc_cache = (if truthy cache_dir then Some disk else None), lc_cache_enabled = False\<rparr>)
             (build_provider sv provider base_url api_key))"

definition from_env :: "'w services \<Rightarrow> cache_db \<Rightarrow> (string \<Rightarrow> string option) \<Rightarrow> vams_error + LlmClient" where
  "from_env sv disk getenv =
     new_llm_client sv disk (case getenv ''LLM_PROVIDER'' of None \<Rightarrow> ''basic-infra'' | Some p \<Rightarrow> p)
       (getenv ''LLM_BASE_URL'') (getenv ''LLM_API_KEY'') (getenv ''LLM_CACHE_DIR'')"

subsection \<open>Dispatch\<close>

definition impl_chat :: "'w services \<Rightarrow> provider_impl \<Rightarrow> chat_args \<Rightarrow> 'w \<Rightarrow> 'w \<times> (vams_error + SdkChatResponse)" where
  "impl_chat sv impl a =
     (case impl of
        PlatformImpl p \<Rightarrow> basic_infra_chat (sv_platform sv) (sv_codecs sv) p a
      | OpenAIImpl p \<Rightarrow> openai_provider_chat (sv_openai_chat sv p) a
      | AnthropicImpl p \<Rightarrow> anthropic_chat (sv_anthropic sv p) (sv_codecs sv) a)"

definition impl_embeddings ::
  "'w services \<Rightarrow> provider_impl \<Rightarrow> string \<Rightarrow> string list \<Rightarrow> 'w \<Rightarrow> 'w \<times> (vams_error + SdkEmbeddings)"
where
  "impl_embeddings sv impl model inputs =
     (case impl of
        PlatformImpl p \<Rightarrow> basic_infra_embeddings (sv_platform sv) (sv_codecs sv) p model inputs
      | OpenAIImpl p \<Rightarrow> openai_provider_embeddings (sv_openai_embeddings sv p) model inputs
      | AnthropicImpl p \<Rightarrow> anthropic_embeddings model inputs)"

definition impl_rerank :: "'w services \<Rightarrow> provider_impl \<Rightarrow> rerank_args \<Rightarrow> 'w \<Rightarrow> 'w \<times> (vams_error + SdkRerank)" where
  "impl_rerank sv impl a =
     (case impl of
        PlatformImpl p \<Rightarrow> basic_infra_rerank (sv_platform sv) (sv_codecs sv) p a
      | OpenAIImpl p \<Rightarrow> openai_rerank a
      | AnthropicImpl p \<Rightarrow> anthropic_rerank a)"

definition has_capability :: "LlmClient \<Rightarrow> string \<Rightarrow> bool" where
  "has_capability c capability =
     (case map_of provider_capabilities (lc_provider c) of None \<Rightarrow> False | Some caps \<Rightarrow> capability \<in> set caps)"

definition client_capabilities :: "LlmClient \<Rightarrow> (string, bool) pydict" where
  "client_capabilities c = map (\<lambda>k. (k, has_capability c k)) [''chat'', ''embed'', ''rerank'']"

definition require :: "LlmClient \<Rightarrow> string \<Rightarrow> vams_error + unit" where
  "require c capability =
     (case map_of (client_capabilities c) capability of
        Some True \<Rightarrow> Inr ()
      | Some False \<Rightarrow> Inl (CapabilityNotAvailable (''provider '' @ CHR 0x27 # lc_provider c @ [CHR 0x27]
            @ '' does not support '' @ CHR 0x27 # capability @ [CHR 0x27]))
      | None \<Rightarrow> Inl (PyError (KeyError capability)))"

definition client_chat :: "'w services \<Rightarrow> LlmClient \<Rightarrow> chat_args \<Rightarrow> 'w \<Rightarrow> 'w \<times> (vams_error + SdkChatResponse)" where
  "client_chat sv c a w =
     (case require c ''chat'' of
        Inl e \<Rightarrow> (w, Inl e)
      | Inr _ \<Rightarrow> impl_chat sv (lc_impl c) (a\<lparr>ca_model := resolve_model (lc_provider c) (ca_model a)\<rparr>) w)"

definition client_rerank :: "'w services \<Rightarrow> LlmClient \<Rightarrow> rerank_args \<Rightarrow> 'w \<Rightarrow> 'w \<times> (vams_error + SdkRerank)" where
  "client_rerank sv c a w =
     (case require c ''rerank'' of
        Inl e \<Rightarrow> (w, Inl e)
      | Inr _ \<Rightarrow> impl_rerank sv (lc_impl c) (a\<lparr>ra_model := resolve_model (lc_provider c) (ra_model a)\<rparr>) w)"

subsection \<open>Embeddings through the cache\<close>

text \<open>\<open>xs[i]\<close>: a negative index counts from the end.\<close>

definition py_index :: "'a list \<Rightarrow> int \<Rightarrow> exn + 'a" where
  "py_index xs i =
     (if 0 \<le> i \<and> i < int (length xs) then Inr (xs ! nat i)
      else if - int (length xs) \<le> i \<and> i < 0 then Inr (xs ! nat (int (length xs) + i))
      else Inl (IndexError ''list index out of range''))"

text \<open>The cached vectors by position, and the texts that miss.\<close>

fun scan_cache ::
  "vector_codec \<Rightarrow> cache_db \<Rightarrow> string \<Rightarrow> string \<Rightarrow> nat \<Rightarrow> string list \<Rightarrow> exn + (nat, vector) pydict \<times> string list"
where
  "scan_cache vc db provider model i [] = Inr ([], [])"
| "scan_cache vc db provider model i (text # texts) =
     rbind (cache_get vc db provider model text) (\<lambda>hit.
       rmap (\<lambda>(cached, misses). case hit of
              None \<Rightarrow> (cached, text # misses)
            | Some v \<Rightarrow> ((i, v) # cached, misses))
         (scan_cache vc db provider model (Suc i) texts))"

text \<open>The loop over the fresh vectors: each is remembered under its text and put into the cache.\<close>

fun store_fresh ::
  "vector_codec \<Rightarrow> string \<Rightarrow> string \<Rightarrow> string list \<Rightarrow> EmbeddingItem list \<Rightarrow> cache_db \<Rightarrow> (string, vector) pydict
    \<Rightarrow> cache_db \<times> (exn + (string, vector) pydict)"
where
  "store_fresh vc provider model misses [] db fetched = (db, Inr fetched)"
| "store_fresh vc provider model misses (item # items) db fetched =
     (case py_index misses (ei_index item) of
        Inl e \<Rightarrow> (db, Inl e)
      | Inr text \<Rightarrow>
          store_fresh vc provider model misses items (cache_put vc db provider model text (ei_embedding item))
            (AList.update text (ei_embedding item) fetched))"

definition assemble ::
  "(nat, vector) pydict \<Rightarrow> (string, vector) pydict \<Rightarrow> string list \<Rightarrow> exn + EmbeddingItem list"
where
  "assemble cached fetched texts =
     rmap_list (\<lambda>(i, text).
       case map_of cached i of
         Some v \<Rightarrow> Inr \<lparr>ei_index = int i, ei_embedding = v\<rparr>
       | None \<Rightarrow> (case map_of fetched text of
             Some v \<Rightarrow> Inr \<lparr>ei_index = int i, ei_embedding = v\<rparr>
           | None \<Rightarrow> Inl (KeyError text)))
       (enumerate 0 texts)"

definition embed_cached ::
  "'w services \<Rightarrow> LlmClient \<Rightarrow> cache_db \<Rightarrow> string \<Rightarrow> string list \<Rightarrow> 'w \<Rightarrow> cache_db \<times> 'w \<times> (vams_error + SdkEmbeddings)"
where
  "embed_cached sv c db model texts w =
     (case scan_cache (sv_vectors sv) db (lc_provider c) model 0 texts of
        Inl e \<Rightarrow> (db, w, Inl (PyError e))
      | Inr (cached, misses) \<Rightarrow>
          (case (if misses = [] then (db, w, Inr [])
                 else case impl_embeddings sv (lc_impl c) model misses w of
                   (w', Inl e) \<Rightarrow> (db, w', Inl e)
                 | (w', Inr fresh) \<Rightarrow>
                     (case store_fresh (sv_vectors sv) (lc_provider c) model misses (se_data fresh) db [] of
                        (db', r) \<Rightarrow> (db', w', py_result r))) of
             (db', w', Inl e) \<Rightarrow> (db', w', Inl e)
           | (db', w', Inr fetched) \<Rightarrow>
               (db', w', rmap (\<lambda>items. \<lparr>se_model = model, se_data = items\<rparr>) (py_result (assemble cached fetched texts)))))"

definition client_embed ::
  "'w services \<Rightarrow> LlmClient \<Rightarrow> string \<Rightarrow> one_or_many \<Rightarrow> 'w \<Rightarrow> LlmClient \<times> 'w \<times> (vams_error + SdkEmbeddings)"
where
  "client_embed sv c model text_input w =
     (case require c ''embed'' of
        Inl e \<Rightarrow> (c, w, Inl e)
      | Inr _ \<Rightarrow>
          let resolved = resolve_model (lc_provider c) model; texts = input_list text_input
          in case (if lc_cache_enabled c then lc_cache c else None) of
               None \<Rightarrow> (case impl_embeddings sv (lc_impl c) resolved texts w of (w', r) \<Rightarrow> (c, w', r))
             | Some db \<Rightarrow>
                 (case embed_cached sv c db resolved texts w of
                    (db', w', r) \<Rightarrow> (c\<lparr>lc_cache := Some db'\<rparr>, w', r)))"

text \<open>The facades \<open>chat.completions\<close> and \<open>embeddings\<close>; an argument that is left out has the default.\<close>

definition completions_create ::
  "'w services \<Rightarrow> LlmClient \<Rightarrow> string \<Rightarrow> (string, json) pydict list \<Rightarrow> (string, json) pydict option \<Rightarrow> pyfloat option
    \<Rightarrow> int option \<Rightarrow> (string, json) pydict \<Rightarrow> 'w \<Rightarrow> 'w \<times> (vams_error + SdkChatResponse)"
where
  "completions_create sv c model messages response_format temperature max_tokens extra =
     client_chat sv c \<lparr>ca_model = model, ca_messages = messages, ca_response_format = response_format,
       ca_temperature = (case temperature of None \<Rightarrow> Fin (1 / 10) | Some t \<Rightarrow> t), ca_max_tokens = max_tokens, ca_extra = extra\<rparr>"

definition embeddings_create ::
  "'w services \<Rightarrow> LlmClient \<Rightarrow> string \<Rightarrow> one_or_many \<Rightarrow> 'w \<Rightarrow> LlmClient \<times> 'w \<times> (vams_error + SdkEmbeddings)"
where
  "embeddings_create sv c model input = client_embed sv c model input"

subsection \<open>Clients in use\<close>

text \<open>
  The clients a program can hold: a new one, one whose embedding cache was switched on or off, and
  one that has embedded.
\<close>

inductive client_in_use :: "'w services \<Rightarrow> LlmClient \<Rightarrow> bool" for sv where
  new: "new_llm_client sv disk provider base_url api_key cache_dir = Inr c \<Longrightarrow> client_in_use sv c"
| switch: "client_in_use sv c \<Longrightarrow> client_in_use sv (c\<lparr>lc_cache_enabled := b\<rparr>)"
| embed: "client_in_use sv c \<Longrightarrow> client_embed sv c model text_input w = (c', w', r) \<Longrightarrow> client_in_use sv c'"

definition impl_matches :: "LlmClient \<Rightarrow> bool" where
  "impl_matches c \<longleftrightarrow>
     (case lc_impl c of
        PlatformImpl p \<Rightarrow> lc_provider c = ''basic-infra''
      | OpenAIImpl p \<Rightarrow> lc_provider c = ''openai''
      | AnthropicImpl p \<Rightarrow> lc_provider c = ''anthropic'')"

lemma new_llm_client_matches: "new_llm_client sv disk provider base_url api_key cache_dir = Inr c \<Longrightarrow> impl_matches c"
  by (auto simp: new_llm_client_def build_provider_def impl_matches_def rmap_Inr_iff split: if_splits)

lemma client_embed_frame:
  "client_embed sv c model text_input w = (c', w', r) \<Longrightarrow> lc_impl c' = lc_impl c \<and> lc_provider c' = lc_provider c"
  by (auto simp: client_embed_def Let_def split: sum.splits option.splits prod.splits if_splits)

lemma impl_matches_cong:
  "lc_impl c' = lc_impl c \<Longrightarrow> lc_provider c' = lc_provider c \<Longrightarrow> impl_matches c' = impl_matches c"
  by (cases "lc_impl c") (simp_all add: impl_matches_def)

lemma in_use_matches: "client_in_use sv c \<Longrightarrow> impl_matches c"
proof (induction rule: client_in_use.induct)
  case (new disk provider base_url api_key cache_dir c)
  then show ?case by (rule new_llm_client_matches)
next
  case (switch c b)
  then show ?case by (simp add: impl_matches_cong [of "c\<lparr>lc_cache_enabled := b\<rparr>" c])
next
  case (embed c model text_input w c' w' r)
  then show ?case using impl_matches_cong [of c' c] client_embed_frame [OF embed(2)] by simp
qed

lemma require_listed:
  assumes "map_of (client_capabilities c) k = Some b"
  shows "b \<Longrightarrow> require c k = Inr ()" "\<not> b \<Longrightarrow> \<exists>m. require c k = Inl (CapabilityNotAvailable m)"
  using assms by (auto simp: require_def)

lemma listed:
  "map_of (client_capabilities c) ''chat'' = Some (has_capability c ''chat'')"
  "map_of (client_capabilities c) ''embed'' = Some (has_capability c ''embed'')"
  "map_of (client_capabilities c) ''rerank'' = Some (has_capability c ''rerank'')"
  by (simp_all add: client_capabilities_def)

lemmas require_chat = require_listed [OF listed(1)]
  and require_embed = require_listed [OF listed(2)]
  and require_rerank = require_listed [OF listed(3)]

lemma matching_capabilities:
  assumes "impl_matches c"
  shows "has_capability c ''chat''"
    "has_capability c ''embed'' \<longleftrightarrow> (\<forall>p. lc_impl c \<noteq> AnthropicImpl p)"
    "has_capability c ''rerank'' \<longleftrightarrow> (\<exists>p. lc_impl c = PlatformImpl p)"
  using assms by (auto simp: impl_matches_def has_capability_def provider_capabilities_def split: provider_impl.splits)

fun capability_error :: "vams_error + 'a \<Rightarrow> bool" where
  "capability_error (Inl (CapabilityNotAvailable m)) = True"
| "capability_error r = False"

lemma no_capability_error [simp]:
  "\<not> capability_error (py_result r)"
  "\<not> capability_error (snd (platform_post http cd p path payload w))"
  by (cases r) (auto simp: py_result_def platform_post_def split: prod.split platform_reply.split sum.split)

lemma capability_error_iff: "capability_error r \<longleftrightarrow> (\<exists>m. r = Inl (CapabilityNotAvailable m))"
  by (cases r rule: capability_error.cases) auto

lemma capability_error_bind:
  "(\<And>v. \<not> capability_error (f v)) \<Longrightarrow> capability_error (rbind r f) \<longleftrightarrow> capability_error r"
  by (cases r rule: capability_error.cases) auto

lemma then_parse_snd: "snd (then_parse f wr) = f (snd wr)"
  by (simp add: then_parse_def split: prod.split)

lemma impl_no_capability_error:
  "\<not> capability_error (snd (impl_chat sv impl a w))"
  "\<forall>p. impl \<noteq> AnthropicImpl p \<Longrightarrow> \<not> capability_error (snd (impl_embeddings sv impl model inputs w))"
  "impl = PlatformImpl p \<Longrightarrow> \<not> capability_error (snd (impl_rerank sv impl ra w))"
  by (auto simp: impl_chat_def impl_embeddings_def impl_rerank_def basic_infra_chat_def basic_infra_embeddings_def
      basic_infra_rerank_def openai_provider_chat_def openai_provider_embeddings_def anthropic_chat_def
      then_parse_snd capability_error_bind split: provider_impl.split sum.split prod.split)

lemma embed_cached_no_capability_error:
  assumes "\<forall>p. lc_impl c \<noteq> AnthropicImpl p"
  shows "\<not> capability_error (snd (snd (embed_cached sv c db model texts w)))"
proof -
  have "\<not> capability_error r" if "impl_embeddings sv (lc_impl c) model inputs w = (w', r)" for inputs w' r
    using impl_no_capability_error(2) [OF assms, of sv model inputs w] that by simp
  moreover have "r = py_result x \<Longrightarrow> \<not> capability_error r" for r :: "vams_error + (string, vector) pydict" and x
    by simp
  ultimately show ?thesis
    unfolding capability_error_iff embed_cached_def py_result_def
    by (auto split: sum.splits prod.splits if_splits; fastforce)
qed

lemma client_embed_capability_error:
  assumes "impl_matches c"
  shows "capability_error (snd (snd (client_embed sv c model input w))) \<longleftrightarrow> \<not> has_capability c ''embed''"
proof (cases "has_capability c ''embed''")
  case True
  then have impl: "\<forall>p. lc_impl c \<noteq> AnthropicImpl p" using matching_capabilities(2) [OF assms] by simp
  let ?model = "resolve_model (lc_provider c) model" and ?texts = "input_list input"
  have "snd (snd (client_embed sv c model input w)) =
    (case (if lc_cache_enabled c then lc_cache c else None) of
       None \<Rightarrow> snd (impl_embeddings sv (lc_impl c) ?model ?texts w)
     | Some db \<Rightarrow> snd (snd (embed_cached sv c db ?model ?texts w)))"
    using require_embed(1) [OF True] by (simp add: client_embed_def Let_def split: option.split prod.split)
  then show ?thesis
    using True impl_no_capability_error(2) [OF impl, of sv] embed_cached_no_capability_error [OF impl, of sv]
    by (simp split: option.split)
next
  case False
  from require_embed(2) [OF this] obtain m where "require c ''embed'' = Inl (CapabilityNotAvailable m)" by blast
  with False show ?thesis by (simp add: client_embed_def)
qed

text \<open>
  C34. The capability table and the providers agree, for every client a program can hold: a chat call never
  reports a missing capability; an embedding or rerank call reports one exactly when \<open>capabilities()\<close> says
  the provider lacks it, and then nothing has been sent and the client is unchanged.
\<close>

theorem capability_gate:
  assumes "client_in_use sv c"
  shows "\<not> capability_error (snd (client_chat sv c a w)) \<and>
    (capability_error (snd (client_rerank sv c ra w)) \<longleftrightarrow> map_of (client_capabilities c) ''rerank'' = Some False) \<and>
    (capability_error (snd (snd (client_embed sv c model input w))) \<longleftrightarrow> map_of (client_capabilities c) ''embed'' = Some False) \<and>
    (map_of (client_capabilities c) ''rerank'' = Some False \<longrightarrow> fst (client_rerank sv c ra w) = w) \<and>
    (map_of (client_capabilities c) ''embed'' = Some False \<longrightarrow>
       (\<exists>e. client_embed sv c model input w = (c, w, Inl e)))"
proof -
  note m = in_use_matches [OF assms]
  have chat: "\<not> capability_error (snd (client_chat sv c a w))"
    using require_chat(1) [OF matching_capabilities(1) [OF m]] impl_no_capability_error(1)
    by (simp add: client_chat_def)
  have rerank: "capability_error (snd (client_rerank sv c ra w)) \<longleftrightarrow> \<not> has_capability c ''rerank''"
  proof (cases "has_capability c ''rerank''")
    case True
    then obtain p where "lc_impl c = PlatformImpl p" using matching_capabilities(3) [OF m] by blast
    with True require_rerank(1) [OF True] impl_no_capability_error(3) show ?thesis
      by (simp add: client_rerank_def)
  next
    case False
    from require_rerank(2) [OF this] show ?thesis using False by (auto simp: client_rerank_def)
  qed
  have idle: "fst (client_rerank sv c ra w) = w" if "\<not> has_capability c ''rerank''"
    using require_rerank(2) [OF that] by (auto simp: client_rerank_def)
  have idle_embed: "\<exists>e. client_embed sv c model input w = (c, w, Inl e)" if "\<not> has_capability c ''embed''"
    using require_embed(2) [OF that] by (auto simp only: client_embed_def sum.case)
  show ?thesis
    using chat rerank client_embed_capability_error [OF m] idle idle_embed by (simp add: listed)
qed

subsection \<open>The cache is transparent\<close>

definition items_for :: "(string \<Rightarrow> vector) \<Rightarrow> nat \<Rightarrow> string list \<Rightarrow> EmbeddingItem list" where
  "items_for vec n texts = map (\<lambda>(i, t). \<lparr>ei_index = int i, ei_embedding = vec t\<rparr>) (enumerate n texts)"

text \<open>
  What the cache relies on. Of the provider: the same text always embeds the same way, and each vector carries
  the position of its text. Of the codec and of SHA-256: a vector is read back as written, and no two texts
  share a key.
\<close>

definition pointwise :: "'w services \<Rightarrow> provider_impl \<Rightarrow> string \<Rightarrow> (string \<Rightarrow> vector) \<Rightarrow> bool" where
  "pointwise sv impl model vec \<longleftrightarrow>
     (\<forall>inputs w. \<exists>w' resp. impl_embeddings sv impl model inputs w = (w', Inr resp) \<and>
        mset (se_data resp) = mset (items_for vec 0 inputs))"

definition sound_codec :: "vector_codec \<Rightarrow> (string \<Rightarrow> vector) \<Rightarrow> bool" where
  "sound_codec vc vec \<longleftrightarrow> (\<forall>t. vc_loads vc (vc_dumps vc (vec t)) = Inr (vec t)) \<and> inj (vc_digest vc)"

definition faithful :: "vector_codec \<Rightarrow> cache_db \<Rightarrow> string \<Rightarrow> string \<Rightarrow> (string \<Rightarrow> vector) \<Rightarrow> bool" where
  "faithful vc db provider model vec \<longleftrightarrow>
     (\<forall>t. cache_get vc db provider model t = Inr None \<or> cache_get vc db provider model t = Inr (Some (vec t)))"

definition missing :: "vector_codec \<Rightarrow> cache_db \<Rightarrow> string \<Rightarrow> string \<Rightarrow> string \<Rightarrow> bool" where
  "missing vc db provider model t \<longleftrightarrow> cache_get vc db provider model t = Inr None"

lemma cache_get_put:
  assumes "sound_codec vc vec"
  shows "cache_get vc (cache_put vc db provider model t (vec t)) provider model t' =
    (if t' = t then Inr (Some (vec t)) else cache_get vc db provider model t')"
proof -
  have "cache_key vc provider model t' = cache_key vc provider model t \<longleftrightarrow> t' = t"
    using assms by (auto simp: cache_key_def sound_codec_def inj_eq)
  with assms show ?thesis
    by (simp add: cache_get_def cache_put_def dict_simps sound_codec_def)
qed

lemma scan_cache_faithful:
  assumes "faithful vc db provider model vec"
  shows "scan_cache vc db provider model n texts =
    Inr (map (\<lambda>(i, t). (i, vec t)) (filter (\<lambda>(i, t). \<not> missing vc db provider model t) (enumerate n texts)),
         filter (missing vc db provider model) texts)"
proof (induction texts arbitrary: n)
  case (Cons t texts)
  have "cache_get vc db provider model t = Inr None \<or> cache_get vc db provider model t = Inr (Some (vec t))"
    using assms by (simp add: faithful_def)
  with Cons.IH [of "Suc n"] show ?case by (auto simp: missing_def)
qed simp

lemma store_fresh_pointwise:
  assumes "sound_codec vc vec"
    and "\<forall>item \<in> set items. 0 \<le> ei_index item \<and> ei_index item < int (length misses) \<and>
      ei_embedding item = vec (misses ! nat (ei_index item))"
  shows "\<exists>db' fetched'. store_fresh vc provider model misses items db fetched = (db', Inr fetched') \<and>
    (\<forall>t. map_of fetched' t = (if t \<in> (\<lambda>item. misses ! nat (ei_index item)) ` set items then Some (vec t) else map_of fetched t)) \<and>
    (\<forall>t. cache_get vc db' provider model t = (if t \<in> (\<lambda>item. misses ! nat (ei_index item)) ` set items
       then Inr (Some (vec t)) else cache_get vc db provider model t))"
  using assms(2)
proof (induction items arbitrary: db fetched)
  case (Cons item items)
  let ?t = "misses ! nat (ei_index item)"
  have here: "py_index misses (ei_index item) = Inr ?t" "ei_embedding item = vec ?t"
    using Cons.prems by (auto simp: py_index_def)
  from Cons.IH [of "cache_put vc db provider model ?t (vec ?t)" "AList.update ?t (vec ?t) fetched"] Cons.prems
  obtain db' fetched' where ih: "store_fresh vc provider model misses items
        (cache_put vc db provider model ?t (vec ?t)) (AList.update ?t (vec ?t) fetched) = (db', Inr fetched')"
    "\<forall>t. map_of fetched' t = (if t \<in> (\<lambda>item. misses ! nat (ei_index item)) ` set items then Some (vec t)
       else map_of (AList.update ?t (vec ?t) fetched) t)"
    "\<forall>t. cache_get vc db' provider model t = (if t \<in> (\<lambda>item. misses ! nat (ei_index item)) ` set items
       then Inr (Some (vec t)) else cache_get vc (cache_put vc db provider model ?t (vec ?t)) provider model t)"
    by auto
  then show ?case
    by (auto simp: here dict_simps cache_get_put [OF assms(1)])
qed simp

lemma cached_positions:
  "map_of (map (\<lambda>(i, t). (i, vec t)) (filter (\<lambda>(i, t). \<not> P t) (enumerate n texts))) (n + k) =
     (if k < length texts \<and> \<not> P (texts ! k) then Some (vec (texts ! k)) else None)"
proof (induction texts arbitrary: n k)
  case (Cons t texts)
  show ?case
  proof (cases k)
    case 0
    have "n \<notin> dom (map_of (map (\<lambda>(i, t). (i, vec t)) (filter (\<lambda>(i, t). \<not> P t) (enumerate (Suc n) texts))))"
      by (auto simp: dom_map_of_conv_image_fst in_set_enumerate_eq)
    with 0 show ?thesis by (auto simp: domIff)
  next
    case (Suc j)
    with Cons.IH [of "Suc n" j] show ?thesis by simp
  qed
qed simp

lemma assemble_items:
  assumes "\<forall>t \<in> set texts. P t \<longrightarrow> map_of fetched t = Some (vec t)"
  shows "assemble (map (\<lambda>(i, t). (i, vec t)) (filter (\<lambda>(i, t). \<not> P t) (enumerate 0 texts))) fetched texts =
    Inr (items_for vec 0 texts)"
proof -
  have "rmap_list f (map (\<lambda>x. x) xs) = Inr (map h xs)" if "\<And>x. x \<in> set xs \<Longrightarrow> f x = Inr (h x)"
    for f :: "nat \<times> string \<Rightarrow> exn + EmbeddingItem" and h xs
    using that by (rule rmap_list_map)
  moreover have "map_of (map (\<lambda>(i, t). (i, vec t)) (filter (\<lambda>(i, t). \<not> P t) (enumerate 0 texts))) i =
      (if P t then None else Some (vec t)) \<and> (P t \<longrightarrow> map_of fetched t = Some (vec t))"
    if "(i, t) \<in> set (enumerate 0 texts)" for i t
    using that assms cached_positions [of vec P 0 texts i] by (auto simp: in_set_enumerate_eq)
  ultimately show ?thesis
    unfolding assemble_def items_for_def by (fastforce split: if_splits)
qed

lemma items_for_nth:
  "length (items_for vec n texts) = length texts"
  "k < length texts \<Longrightarrow> items_for vec n texts ! k = \<lparr>ei_index = int (n + k), ei_embedding = vec (texts ! k)\<rparr>"
  by (simp_all add: items_for_def nth_enumerate_eq)

lemma in_items_for:
  "item \<in> set (items_for vec 0 texts) \<longleftrightarrow>
     (\<exists>k < length texts. item = \<lparr>ei_index = int k, ei_embedding = vec (texts ! k)\<rparr>)"
  by (metis (no_types, lifting) add_0 in_set_conv_nth items_for_nth)

lemma items_for_index: "map ei_index (items_for vec n texts) = map int [n..<n + length texts]"
  by (rule nth_equalityI) (simp_all add: items_for_nth)

lemma items_for_embeddings: "map ei_embedding (items_for vec n texts) = map vec texts"
  by (rule nth_equalityI) (simp_all add: items_for_nth)

lemma vectors_items:
  assumes "mset (se_data r) = mset (items_for vec 0 texts)"
  shows "vectors r = map vec texts"
proof -
  let ?items = "items_for vec 0 texts"
  have d: "distinct (map ei_index ?items)" and s: "sorted (map ei_index ?items)"
    by (simp_all only: items_for_index) (simp_all add: distinct_map sorted_iff_nth_mono)
  have same: "set (sort_key ei_index (se_data r)) = set ?items"
    using assms by (metis set_mset_mset set_sort)
  have "mset (map ei_index (sort_key ei_index (se_data r))) = mset (map ei_index ?items)"
    using assms by simp
  then have d': "distinct (map ei_index (sort_key ei_index (se_data r)))"
    using d mset_eq_imp_distinct_iff by blast
  have "sort_key ei_index (se_data r) = ?items"
  proof (rule map_sorted_distinct_set_unique [of ei_index])
    show "inj_on ei_index (set (sort_key ei_index (se_data r)) \<union> set ?items)"
      unfolding same using d by (simp add: distinct_map)
  qed (use s d d' same in \<open>simp_all only: sorted_sort_key\<close>)
  then show ?thesis by (simp add: vectors_def items_for_embeddings)
qed

lemma embed_cached_pointwise:
  assumes "faithful (sv_vectors sv) db (lc_provider c) model vec" and "sound_codec (sv_vectors sv) vec"
    and "pointwise sv (lc_impl c) model vec"
  shows "\<exists>db'. embed_cached sv c db model texts w =
      (db', if filter (missing (sv_vectors sv) db (lc_provider c) model) texts = [] then w
            else fst (impl_embeddings sv (lc_impl c) model (filter (missing (sv_vectors sv) db (lc_provider c) model) texts) w),
       Inr \<lparr>se_model = model, se_data = items_for vec 0 texts\<rparr>) \<and>
    (filter (missing (sv_vectors sv) db (lc_provider c) model) texts = [] \<longrightarrow> db' = db) \<and>
    (\<forall>t. cache_get (sv_vectors sv) db' (lc_provider c) model t =
       (if t \<in> set texts then Inr (Some (vec t)) else cache_get (sv_vectors sv) db (lc_provider c) model t))"
proof -
  let ?vc = "sv_vectors sv" and ?p = "lc_provider c"
  let ?P = "missing ?vc db ?p model"
  let ?misses = "filter ?P texts"
  have known: "cache_get ?vc db ?p model t = Inr (Some (vec t))" if "\<not> ?P t" for t
    using assms(1) that by (auto simp: faithful_def missing_def)
  note scan = scan_cache_faithful [OF assms(1), of 0 texts]
  show ?thesis
  proof (cases "?misses = []")
    case True
    then have "\<forall>t \<in> set texts. ?P t \<longrightarrow> map_of [] t = Some (vec t)" by (simp add: filter_empty_conv)
    from assemble_items [OF this] True show ?thesis
      by (auto simp: embed_cached_def scan py_result_def filter_empty_conv known)
  next
    case False
    obtain w' resp where run: "impl_embeddings sv (lc_impl c) model ?misses w = (w', Inr resp)"
      "mset (se_data resp) = mset (items_for vec 0 ?misses)"
      using assms(3) unfolding pointwise_def by blast
    then have items: "set (se_data resp) = set (items_for vec 0 ?misses)" by (metis set_mset_mset)
    then have "\<forall>item \<in> set (se_data resp). 0 \<le> ei_index item \<and> ei_index item < int (length ?misses) \<and>
        ei_embedding item = vec (?misses ! nat (ei_index item))"
      by (auto simp: in_items_for)
    from store_fresh_pointwise [OF assms(2) this, of ?p model db "[]"]
    obtain db' fetched where store: "store_fresh ?vc ?p model ?misses (se_data resp) db [] = (db', Inr fetched)"
      "\<forall>t. map_of fetched t = (if t \<in> (\<lambda>item. ?misses ! nat (ei_index item)) ` set (se_data resp) then Some (vec t)
         else map_of [] t)"
      "\<forall>t. cache_get ?vc db' ?p model t = (if t \<in> (\<lambda>item. ?misses ! nat (ei_index item)) ` set (se_data resp)
         then Inr (Some (vec t)) else cache_get ?vc db ?p model t)"
      by blast
    have texts: "(\<lambda>item. ?misses ! nat (ei_index item)) ` set (se_data resp) = set ?misses"
      unfolding items set_conv_nth [of ?misses] by (force simp: in_items_for image_iff)
    have "\<forall>t \<in> set texts. ?P t \<longrightarrow> map_of fetched t = Some (vec t)"
      using store(2) unfolding texts by simp
    from assemble_items [OF this] False show ?thesis
      using store(3) known unfolding texts
      by (intro exI [of _ db']) (auto simp: embed_cached_def scan run store(1) py_result_def)
  qed
qed

lemma client_embed_with_cache:
  assumes "has_capability c ''embed''" "lc_cache_enabled c" "lc_cache c = Some db"
  shows "client_embed sv c model input w =
    (case embed_cached sv c db (resolve_model (lc_provider c) model) (input_list input) w of
       (db', w', r) \<Rightarrow> (c\<lparr>lc_cache := Some db'\<rparr>, w', r))"
  using assms by (simp add: client_embed_def require_embed(1) Let_def)

lemma faithful_update:
  assumes "faithful vc db provider model vec"
    and "\<forall>t. cache_get vc db' provider model t = (if t \<in> T then Inr (Some (vec t)) else cache_get vc db provider model t)"
  shows "faithful vc db' provider model vec"
  using assms unfolding faithful_def by auto

lemma client_embed_uncached:
  assumes "has_capability c ''embed''" and "pointwise sv (lc_impl c) (resolve_model (lc_provider c) model) vec"
  shows "rmap vectors (snd (snd (client_embed sv (c\<lparr>lc_cache_enabled := False\<rparr>) model input w))) = Inr (map vec (input_list input))"
proof -
  have cap: "require (c\<lparr>lc_cache_enabled := False\<rparr>) ''embed'' = Inr ()"
    using assms(1) by (intro require_embed(1)) (simp add: has_capability_def)
  obtain w' resp where "impl_embeddings sv (lc_impl c) (resolve_model (lc_provider c) model) (input_list input) w = (w', Inr resp)"
    "mset (se_data resp) = mset (items_for vec 0 (input_list input))"
    using assms(2) unfolding pointwise_def by blast
  then show ?thesis using vectors_items by (simp add: client_embed_def cap Let_def)
qed

text \<open>
  C9. The embedding cache is transparent, and fetches each text once: over a faithful cache a call returns the
  vectors the provider gives without the cache, in the order of the input; the provider is asked for exactly
  the texts that are missing, and not at all when none is; the cache stays faithful and now holds every text
  of the input, so that the same call made again asks the provider nothing and returns the same answer.
\<close>

theorem embedding_cache_transparent:
  assumes "has_capability c ''embed''" and "lc_cache_enabled c" and "lc_cache c = Some db"
    and "faithful (sv_vectors sv) db (lc_provider c) (resolve_model (lc_provider c) model) vec"
    and "sound_codec (sv_vectors sv) vec" and "pointwise sv (lc_impl c) (resolve_model (lc_provider c) model) vec"
  shows "\<exists>db' r.
    (let m = resolve_model (lc_provider c) model;
         misses = filter (missing (sv_vectors sv) db (lc_provider c) m) (input_list input);
         c' = c\<lparr>lc_cache := Some db'\<rparr>
     in client_embed sv c model input w =
          (c', if misses = [] then w else fst (impl_embeddings sv (lc_impl c) m misses w), Inr r) \<and>
        vectors r = map vec (input_list input) \<and>
        rmap vectors (snd (snd (client_embed sv (c\<lparr>lc_cache_enabled := False\<rparr>) model input w))) = Inr (vectors r) \<and>
        faithful (sv_vectors sv) db' (lc_provider c) m vec \<and>
        (\<forall>w2. client_embed sv c' model input w2 = (c', w2, Inr r)))"
proof -
  let ?m = "resolve_model (lc_provider c) model" and ?texts = "input_list input"
  let ?vc = "sv_vectors sv" and ?r = "\<lparr>se_model = resolve_model (lc_provider c) model,
      se_data = items_for vec 0 (input_list input)\<rparr>"
  from embed_cached_pointwise [OF assms(4-6), of ?texts w] obtain db' where db':
    "embed_cached sv c db ?m ?texts w =
      (db', if filter (missing ?vc db (lc_provider c) ?m) ?texts = [] then w
            else fst (impl_embeddings sv (lc_impl c) ?m (filter (missing ?vc db (lc_provider c) ?m) ?texts) w), Inr ?r)"
    "\<forall>t. cache_get ?vc db' (lc_provider c) ?m t =
       (if t \<in> set ?texts then Inr (Some (vec t)) else cache_get ?vc db (lc_provider c) ?m t)"
    by blast
  let ?c' = "c\<lparr>lc_cache := Some db'\<rparr>"
  have faithful': "faithful ?vc db' (lc_provider c) ?m vec"
    by (rule faithful_update [OF assms(4) db'(2)])
  have first: "client_embed sv c model input w =
      (?c', if filter (missing ?vc db (lc_provider c) ?m) ?texts = [] then w
            else fst (impl_embeddings sv (lc_impl c) ?m (filter (missing ?vc db (lc_provider c) ?m) ?texts) w), Inr ?r)"
    unfolding client_embed_with_cache [OF assms(1-3)] db'(1) prod.case by (rule refl)
  have vectors: "vectors ?r = map vec ?texts" by (rule vectors_items) simp
  have none: "filter (missing ?vc db' (lc_provider c) ?m) ?texts = []"
    using db'(2) by (auto simp: missing_def filter_empty_conv)
  have again: "client_embed sv ?c' model input w2 = (?c', w2, Inr ?r)" for w2
  proof -
    have c': "has_capability ?c' ''embed''" "lc_cache_enabled ?c'" "lc_cache ?c' = Some db'"
      using assms(1,2) by (simp_all add: has_capability_def)
    have same: "faithful ?vc db' (lc_provider ?c') ?m vec" "pointwise sv (lc_impl ?c') ?m vec"
      using faithful' assms(6) by simp_all
    from embed_cached_pointwise [OF same(1) assms(5) same(2), of ?texts w2] none
    have "embed_cached sv ?c' db' ?m ?texts w2 = (db', w2, Inr ?r)" by auto
    with client_embed_with_cache [OF c', of sv model input w2] show ?thesis by simp
  qed
  note plain = client_embed_uncached [OF assms(1,6), of input w]
  show ?thesis
    by (intro exI [of _ db'] exI [of _ ?r], unfold Let_def vectors plain, intro conjI allI)
       (rule first refl faithful' again)+
qed

subsection \<open>Witnesses\<close>

definition text_length :: "string \<Rightarrow> vector" where
  "text_length t = [Fin (of_nat (length t))]"

definition sample_services :: "nat services" where
  "sample_services = \<lparr>sv_platform = (\<lambda>q w. (w, HttpError ''down'')),
     sv_openai_chat = (\<lambda>p kw w. (w, Inl (ExternalError ''APIError''))),
     sv_openai_embeddings = (\<lambda>p model inputs w. (w + length inputs,
        Inr \<lparr>oe_model = model, oe_data = map (\<lambda>(i, t). (int i, text_length t)) (enumerate 0 inputs)\<rparr>)),
     sv_anthropic = (\<lambda>p kw w. (w, Inl (ExternalError ''APIError''))),
     sv_installed = (\<lambda>package. True), sv_codecs = sample_codecs,
     sv_vectors = \<lparr>vc_digest = (\<lambda>s. s),
       vc_dumps = (\<lambda>v. case v of [Fin q] \<Rightarrow> show_nat (nat (floor q)) | _ \<Rightarrow> []),
       vc_loads = (\<lambda>s. Inr [Fin (of_nat (nat_of_digits s))])\<rparr>\<rparr>"

definition sample_client :: LlmClient where
  "sample_client = \<lparr>lc_provider = ''openai'', lc_base_url = None, lc_api_key = Some ''k'', lc_cache_dir = Some ''/tmp/c'',
     lc_impl = OpenAIImpl \<lparr>op_api_key = ''k'', op_base_url = None\<rparr>, lc_cache = Some [], lc_cache_enabled = False\<rparr>"

lemma sample_client_new:
  "new_llm_client sample_services [] ''openai'' None (Some ''k'') (Some ''/tmp/c'') = Inr sample_client"
  by (simp add: new_llm_client_def known_providers_def provider_capabilities_def build_provider_def truthy_def
      sample_services_def sample_client_def)

lemma capability_gate_witness:
  "capability_error (snd (client_rerank sample_services sample_client
     \<lparr>ra_model = ''default-rerank'', ra_query = ''q'', ra_documents = [''d''], ra_top_n = None, ra_return_documents = True\<rparr> 0))"
proof -
  have "map_of (client_capabilities sample_client) ''rerank'' = Some False"
    by (simp add: client_capabilities_def has_capability_def provider_capabilities_def sample_client_def)
  with capability_gate [OF client_in_use.new [OF sample_client_new]] show ?thesis by blast
qed

lemma sample_pointwise: "pointwise sample_services (lc_impl sample_client) model text_length"
  by (auto simp: pointwise_def impl_embeddings_def sample_client_def openai_provider_embeddings_def
      sample_services_def then_parse_def py_result_def items_for_def comp_def split_def)

lemma embedding_cache_transparent_witness:
  "\<exists>c' r. client_embed sample_services (sample_client\<lparr>lc_cache_enabled := True\<rparr>) ''default-embed''
       (Many [''a'', ''bb'', ''a'']) 0 = (c', 3, Inr r) \<and> vectors r = [[Fin 1], [Fin 2], [Fin 1]]"
proof -
  let ?c = "sample_client\<lparr>lc_cache_enabled := True\<rparr>"
  have c: "has_capability ?c ''embed''" "lc_cache_enabled ?c" "lc_cache ?c = Some []"
    by (simp_all add: has_capability_def provider_capabilities_def sample_client_def)
  have f: "faithful (sv_vectors sample_services) [] (lc_provider ?c) (resolve_model (lc_provider ?c) ''default-embed'') text_length"
    by (simp add: faithful_def cache_get_def)
  have s: "sound_codec (sv_vectors sample_services) text_length"
    by (simp add: sound_codec_def sample_services_def text_length_def inj_def)
  have p: "pointwise sample_services (lc_impl ?c) (resolve_model (lc_provider ?c) ''default-embed'') text_length"
    using sample_pointwise by simp
  have miss: "filter (missing (sv_vectors sample_services) [] (lc_provider ?c) m) (input_list (Many [''a'', ''bb'', ''a''])) =
      [''a'', ''bb'', ''a'']" for m
    by (simp add: missing_def cache_get_def input_list_def)
  have sent: "fst (impl_embeddings sample_services (lc_impl ?c) m [''a'', ''bb'', ''a''] 0) = 3" for m
    by (simp add: impl_embeddings_def sample_client_def openai_provider_embeddings_def sample_services_def then_parse_def)
  have v: "map text_length (input_list (Many [''a'', ''bb'', ''a''])) = [[Fin 1], [Fin 2], [Fin 1]]"
    by (simp add: input_list_def text_length_def)
  from embedding_cache_transparent [OF c f s p, of "Many [''a'', ''bb'', ''a'']" 0, unfolded Let_def miss sent v]
  show ?thesis by auto
qed

end
