(* ===== verification/Postgres_Client.thy ===== *)
theory Postgres_Client
  imports Tenant_Names Admin_Session
begin

text \<open>
  The data plane SDK for PostgreSQL (\<open>basic_infra_postgres_client\<close>): settings and their validators, the URL, the
  engine caches, the session scopes and the health check. SQLAlchemy is a parameter: rendering a URL, making an
  engine, and what a session or a connection answers.
\<close>

subsection \<open>Settings\<close>

datatype pg_provider = LocalProvider | ManagedProvider
datatype pg_environment = PgDev | PgStaging | PgProd

record PostgresSettings =
  ps_tenant :: string
  ps_env :: pg_environment
  ps_provider :: pg_provider
  ps_host :: string
  ps_port :: int
  ps_user :: string
  ps_password :: string
  ps_database :: "string option"
  ps_sslmode :: "string option"
  ps_pool_size :: int
  ps_max_overflow :: int
  ps_pool_timeout :: rat
  ps_pool_recycle :: int
  ps_echo :: bool

definition postgres_defaults :: "string \<Rightarrow> string \<Rightarrow> string \<Rightarrow> PostgresSettings" where
  "postgres_defaults tenant user password =
     \<lparr>ps_tenant = tenant, ps_env = PgDev, ps_provider = LocalProvider, ps_host = ''localhost'', ps_port = 5434,
      ps_user = user, ps_password = password, ps_database = None, ps_sslmode = None, ps_pool_size = 5,
      ps_max_overflow = 10, ps_pool_timeout = 30, ps_pool_recycle = 1800, ps_echo = False\<rparr>"

definition valid_postgres_fields :: "PostgresSettings \<Rightarrow> bool" where
  "valid_postgres_fields s \<longleftrightarrow>
     ps_tenant s \<noteq> [] \<and> 1 \<le> ps_port s \<and> ps_port s \<le> 65535 \<and> 1 \<le> ps_pool_size s \<and> ps_pool_size s \<le> 100 \<and>
     0 \<le> ps_max_overflow s \<and> ps_max_overflow s \<le> 100 \<and> 0 < ps_pool_timeout s \<and> -1 \<le> ps_pool_recycle s"

definition with_database :: "PostgresSettings \<Rightarrow> PostgresSettings" where
  "with_database s = s\<lparr>ps_database := resolve_database (ps_database s) (ps_tenant s)\<rparr>"

definition managed_requires_ssl :: "PostgresSettings \<Rightarrow> PostgresSettings" where
  "managed_requires_ssl s =
     (if ps_provider s = ManagedProvider \<and> ps_sslmode s = None then s\<lparr>ps_sslmode := Some ''require''\<rparr> else s)"

definition load_postgres_settings :: "PostgresSettings \<Rightarrow> exn + PostgresSettings" where
  "load_postgres_settings s =
     (if valid_postgres_fields s then Inr (managed_requires_ssl (with_database s))
      else Inl (ValueError ''validation error''))"

subsection \<open>URLs and engines\<close>

record url =
  ur_drivername :: string
  ur_username :: string
  ur_password :: string
  ur_host :: string
  ur_port :: int
  ur_database :: string
  ur_query :: "(string, string) pydict"

definition build_url :: "PostgresSettings \<Rightarrow> string \<Rightarrow> exn + url" where
  "build_url s driver =
     (if driver \<noteq> ''asyncpg'' \<and> driver \<noteq> ''psycopg'' then Inl (ValueError (''driver '' @ driver))
      else case ps_database s of
        None \<Rightarrow> Inl (AssertionError [])
      | Some database \<Rightarrow>
          Inr \<lparr>ur_drivername = ''postgresql+'' @ driver, ur_username = ps_user s, ur_password = ps_password s,
             ur_host = ps_host s, ur_port = ps_port s, ur_database = database,
             ur_query = (if truthy (ps_sslmode s) then [(''sslmode'', the (ps_sslmode s))] else [])\<rparr>)"

record pool_kwargs =
  pk_pool_size :: int
  pk_max_overflow :: int
  pk_pool_timeout :: rat
  pk_pool_recycle :: int
  pk_pool_pre_ping :: bool
  pk_echo :: bool

definition pool_kwargs_of :: "PostgresSettings \<Rightarrow> pool_kwargs" where
  "pool_kwargs_of s =
     \<lparr>pk_pool_size = ps_pool_size s, pk_max_overflow = ps_max_overflow s, pk_pool_timeout = ps_pool_timeout s,
      pk_pool_recycle = ps_pool_recycle s, pk_pool_pre_ping = True, pk_echo = ps_echo s\<rparr>"

text \<open>An engine is an object: its number is its identity.\<close>

record engine =
  en_id :: nat
  en_url :: url
  en_pool :: pool_kwargs

record sqlalchemy =
  sq_render :: "url \<Rightarrow> string"
  sq_create :: "url \<Rightarrow> pool_kwargs \<Rightarrow> exn + unit"

record engines =
  eg_async :: "(string, engine) pydict"
  eg_sync :: "(string, engine) pydict"
  eg_made :: nat

definition no_engines :: engines where
  "no_engines = \<lparr>eg_async = [], eg_sync = [], eg_made = 0\<rparr>"

definition get_async_engine :: "sqlalchemy \<Rightarrow> PostgresSettings \<Rightarrow> engines \<Rightarrow> engines \<times> (exn + engine)" where
  "get_async_engine sq s st =
     (case build_url s ''asyncpg'' of
        Inl e \<Rightarrow> (st, Inl e)
      | Inr u \<Rightarrow>
          let key = sq_render sq u
          in case map_of (eg_async st) key of
               Some engine \<Rightarrow> (st, Inr engine)
             | None \<Rightarrow>
                 (case sq_create sq u (pool_kwargs_of s) of
                    Inl e \<Rightarrow> (st, Inl e)
                  | Inr _ \<Rightarrow>
                      let engine = \<lparr>en_id = eg_made st, en_url = u, en_pool = pool_kwargs_of s\<rparr>
                      in (st\<lparr>eg_async := AList.update key engine (eg_async st), eg_made := Suc (eg_made st)\<rparr>, Inr engine)))"

definition get_sync_engine :: "sqlalchemy \<Rightarrow> PostgresSettings \<Rightarrow> engines \<Rightarrow> engines \<times> (exn + engine)" where
  "get_sync_engine sq s st =
     (case build_url s ''psycopg'' of
        Inl e \<Rightarrow> (st, Inl e)
      | Inr u \<Rightarrow>
          let key = sq_render sq u
          in case map_of (eg_sync st) key of
               Some engine \<Rightarrow> (st, Inr engine)
             | None \<Rightarrow>
                 (case sq_create sq u (pool_kwargs_of s) of
                    Inl e \<Rightarrow> (st, Inl e)
                  | Inr _ \<Rightarrow>
                      let engine = \<lparr>en_id = eg_made st, en_url = u, en_pool = pool_kwargs_of s\<rparr>
                      in (st\<lparr>eg_sync := AList.update key engine (eg_sync st), eg_made := Suc (eg_made st)\<rparr>, Inr engine)))"

subsection \<open>Session factories\<close>

text \<open>A \<open>sessionmaker\<close>: the engine it is bound to, and whether objects expire when their session commits.\<close>

record session_factory =
  sf_bind :: engine
  sf_expire_on_commit :: bool

definition async_session_factory :: "sqlalchemy \<Rightarrow> PostgresSettings \<Rightarrow> engines \<Rightarrow> engines \<times> (exn + session_factory)" where
  "async_session_factory sq settings st =
     (case get_async_engine sq settings st of
        (st', r) \<Rightarrow> (st', rmap (\<lambda>e. \<lparr>sf_bind = e, sf_expire_on_commit = False\<rparr>) r))"

definition sync_session_factory :: "sqlalchemy \<Rightarrow> PostgresSettings \<Rightarrow> engines \<Rightarrow> engines \<times> (exn + session_factory)" where
  "sync_session_factory sq settings st =
     (case get_sync_engine sq settings st of
        (st', r) \<Rightarrow> (st', rmap (\<lambda>e. \<lparr>sf_bind = e, sf_expire_on_commit = False\<rparr>) r))"

subsection \<open>Sessions\<close>

text \<open>
  \<open>except Exception\<close> lets cancellation and interrupts pass, so an exception is one of the language or
  one outside of \<open>Exception\<close>.
\<close>

datatype any_exn = Ordinary exn | NotException string

datatype db_request = DbWork string | DbCommit | DbRollback | DbClose | DbConnect | DbRows string

datatype db_reply = DbDone | DbValues "string option list"

type_synonym 'r db = "'r \<Rightarrow> db_request \<Rightarrow> 'r \<times> (any_exn + db_reply)"
type_synonym ('r, 'a) db_cmd = "('r, db_request, any_exn, 'a) cmd"

definition except_exception :: "('r, 'a) db_cmd \<Rightarrow> (exn \<Rightarrow> ('r, 'a) db_cmd) \<Rightarrow> ('r, 'a) db_cmd" where
  "except_exception m h = ccatch m (\<lambda>e. case e of Ordinary x \<Rightarrow> h x | NotException t \<Rightarrow> cfail (NotException t))"

text \<open>\<open>body\<close> is what the client does with the session.\<close>

definition session_scope :: "'r db \<Rightarrow> ('r, 'a) db_cmd \<Rightarrow> ('r, 'a) db_cmd" where
  "session_scope server body =
     cfinally
       (except_exception (cbind body (\<lambda>a. cseq (ccall server DbCommit) (cret a)))
          (\<lambda>x. cseq (ccall server DbRollback) (cfail (Ordinary x))))
       (ccall server DbClose)"

definition sync_session_scope :: "'r db \<Rightarrow> ('r, 'a) db_cmd \<Rightarrow> ('r, 'a) db_cmd" where
  "sync_session_scope server body =
     cfinally
       (except_exception (cbind body (\<lambda>a. cseq (ccall server DbCommit) (cret a)))
          (\<lambda>x. cseq (ccall server DbRollback) (cfail (Ordinary x))))
       (ccall server DbClose)"

subsection \<open>Health\<close>

record HealthResult =
  hr_ok :: bool
  hr_reachable :: bool
  hr_postgis :: "string option"
  hr_detail :: "string option"

text \<open>\<open>row.scalar_one_or_none()\<close>, with the version already as text.\<close>

definition scalar_one_or_none :: "db_reply \<Rightarrow> ('r, string option) db_cmd" where
  "scalar_one_or_none reply =
     (case reply of
        DbValues [] \<Rightarrow> cret None
      | DbValues [v] \<Rightarrow> cret v
      | _ \<Rightarrow> cfail (Ordinary (ExternalError ''MultipleResultsFound'')))"

definition check_pg_health :: "'r db \<Rightarrow> (exn \<Rightarrow> string) \<Rightarrow> bool \<Rightarrow> ('r, HealthResult) db_cmd" where
  "check_pg_health server str_of require_postgis =
     except_exception
       (cbind
         (cseq (ccall server DbConnect)
           (cfinally
             (cseq (ccall server (DbRows ''SELECT 1''))
               (if require_postgis
                then cbind (ccall server (DbRows (''SELECT extversion FROM pg_extension WHERE extname = '' @ CHR 0x27 # ''postgis'' @ [CHR 0x27])))
                       scalar_one_or_none
                else cret None))
             (ccall server DbClose)))
         (\<lambda>postgis.
            let ok = (if \<not> require_postgis then True else postgis \<noteq> None)
            in cret \<lparr>hr_ok = ok, hr_reachable = True, hr_postgis = postgis,
                  hr_detail = (if ok then None else Some ''PostGIS is not installed in the tenant database'')\<rparr>))
       (\<lambda>x. cret \<lparr>hr_ok = False, hr_reachable = False, hr_postgis = None, hr_detail = Some (str_of x)\<rparr>)"

text \<open>\<open>check_health\<close>: the engine is fetched outside of the \<open>try\<close>.\<close>

definition check_health :: "sqlalchemy \<Rightarrow> (engine \<Rightarrow> 'r db) \<Rightarrow> (exn \<Rightarrow> string) \<Rightarrow> PostgresSettings \<Rightarrow> bool
    \<Rightarrow> engines \<Rightarrow> ('r, db_request) session \<Rightarrow> engines \<times> ('r, db_request) session \<times> (any_exn + HealthResult)" where
  "check_health sq connect str_of s require_postgis st w =
     (case get_async_engine sq s st of
        (st', Inl e) \<Rightarrow> (st', w, Inl (Ordinary e))
      | (st', Inr engine) \<Rightarrow> (case check_pg_health (connect engine) str_of require_postgis w of (w', r) \<Rightarrow> (st', w', r)))"

subsection \<open>Properties of the session scope\<close>

lemma sync_session_scope_same: "sync_session_scope server body = session_scope server body"
  by (simp add: sync_session_scope_def session_scope_def)

text \<open>What the scope asks of the session after the client's block, with the outcome of each request.\<close>

definition settled_by :: "any_exn + 'a \<Rightarrow> (db_request \<times> bool) list \<Rightarrow> any_exn + 'a \<Rightarrow> bool" where
  "settled_by block tail outcome \<longleftrightarrow>
     (case block of
        Inr a \<Rightarrow>
          (\<exists>c. tail = [(DbCommit, True), (DbClose, c)] \<and> (c \<longrightarrow> outcome = Inr a)) \<or>
          (\<exists>b c. tail = [(DbCommit, False), (DbRollback, b), (DbClose, c)] \<and> \<not> is_ok outcome) \<or>
          (\<exists>c. tail = [(DbCommit, False), (DbClose, c)] \<and> \<not> is_ok outcome)
      | Inl (Ordinary x) \<Rightarrow>
          (\<exists>b c. tail = [(DbRollback, b), (DbClose, c)] \<and> (b \<and> c \<longrightarrow> outcome = Inl (Ordinary x)))
      | Inl (NotException t) \<Rightarrow>
          (\<exists>c. tail = [(DbClose, c)] \<and> (c \<longrightarrow> outcome = Inl (NotException t)))) \<and>
     (is_ok outcome \<longleftrightarrow> tail = [(DbCommit, True), (DbClose, True)])"

lemma session_scope_run:
  assumes "body s = (s1, r)" and "session_scope server body s = (s', outcome)"
  shows "\<exists>tail. ss_log s' = ss_log s1 @ tail \<and> settled_by r tail outcome"
proof -
  note defs = session_scope_def except_exception_def cfinally_def ccatch_def cbind_def cseq_def cret_def cfail_def
    ccall_def settled_by_def ex_bool_eq
  show ?thesis
  proof (cases r)
    case (Inr a)
    obtain r2 k where commit: "server (ss_server s1) DbCommit = (r2, k)" by (cases "server (ss_server s1) DbCommit")
    show ?thesis
    proof (cases k)
      case (Inr v)
      with \<open>r = Inr a\<close> assms commit show ?thesis
        by (auto simp: defs split: prod.splits sum.splits)
    next
      case (Inl e)
      with \<open>r = Inr a\<close> assms commit show ?thesis
        by (cases e) (auto simp: defs split: prod.splits sum.splits)
    qed
  next
    case (Inl e)
    with assms show ?thesis
      by (cases e) (auto simp: defs split: prod.splits sum.splits)
  qed
qed

text \<open>
  C22. A session scope, asynchronous or not, settles its transaction: after the client's block it commits when the
  block returned, rolls back when the block or the commit raised an \<open>Exception\<close>, does neither when something
  else, such as a cancellation, passed, and closes the session exactly once and last, in every case; it returns
  exactly when both the commit and the close succeeded, and otherwise the block's exception comes out unless a
  rollback or close raises one of its own.
\<close>

theorem session_scope_settles:
  "(let (s1, r) = body s; (s', outcome) = session_scope server body s
    in \<exists>tail. ss_log s' = ss_log s1 @ tail \<and> settled_by r tail outcome) \<and>
   sync_session_scope server body s = session_scope server body s"
  using session_scope_run [of body s _ _ server] sync_session_scope_same [of server body]
  by (auto simp: Let_def split: prod.split)

subsection \<open>Properties of the health check\<close>

definition db_opened :: "db_request \<times> bool \<Rightarrow> bool" where
  "db_opened q \<longleftrightarrow> q = (DbConnect, True)"

definition db_closed :: "db_request \<times> bool \<Rightarrow> bool" where
  "db_closed q \<longleftrightarrow> fst q = DbClose"

definition consistent_health :: "bool \<Rightarrow> any_exn + HealthResult \<Rightarrow> bool" where
  "consistent_health require_postgis res \<longleftrightarrow>
     (case res of
        Inl (Ordinary x) \<Rightarrow> False
      | Inl (NotException t) \<Rightarrow> True
      | Inr h \<Rightarrow> (hr_ok h \<longleftrightarrow> hr_reachable h \<and> (require_postgis \<longrightarrow> hr_postgis h \<noteq> None)) \<and>
          (hr_detail h = None \<longleftrightarrow> hr_ok h) \<and> (hr_postgis h \<noteq> None \<longrightarrow> require_postgis \<and> hr_reachable h))"

definition probe_done :: "bool \<Rightarrow> nat \<Rightarrow> (db_request \<times> bool) list \<Rightarrow> any_exn + string option \<Rightarrow> bool" where
  "probe_done require_postgis n qs res \<longleftrightarrow>
     tally db_opened qs = 0 \<and> tally db_closed qs = n \<and> (is_ok res \<longrightarrow> set (map snd qs) = {True}) \<and>
     (\<forall>v. res = Inr (Some v) \<longrightarrow> require_postgis)"

lemma scalar_emits: "emits (scalar_one_or_none reply) (\<lambda>qs res. qs = [])"
  unfolding scalar_one_or_none_def
  by (cases reply) (auto intro!: emits_ret emits_fail split: list.split)

lemma db_rows_neutral [simp]: "\<not> db_opened (DbRows q, b)" "\<not> db_closed (DbRows q, b)"
  by (simp_all add: db_opened_def db_closed_def)

lemma probe_emits:
  "emits (cseq (ccall server (DbRows q)) (if rp then cbind (ccall server (DbRows q')) scalar_one_or_none else cret None))
     (probe_done rp 0)"
proof (rule emits_seq, rule emits_call)
  fix reply :: "any_exn + db_reply"
  show "case reply of
      Inl e \<Rightarrow> probe_done rp 0 [(DbRows q, is_ok reply)] (Inl e)
    | Inr a \<Rightarrow> emits (if rp then cbind (ccall server (DbRows q')) scalar_one_or_none else cret None)
        (\<lambda>qs' r. probe_done rp 0 ([(DbRows q, is_ok reply)] @ qs') r)"
  proof (cases reply)
    case (Inr a)
    have "emits (cbind (ccall server (DbRows q')) scalar_one_or_none) (\<lambda>qs' r. probe_done True 0 ((DbRows q, True) # qs') r)"
    proof (rule emits_bind, rule emits_call)
      fix r :: "any_exn + db_reply"
      show "case r of
          Inl e \<Rightarrow> probe_done True 0 ((DbRows q, True) # [(DbRows q', is_ok r)]) (Inl e)
        | Inr a \<Rightarrow> emits (scalar_one_or_none a)
            (\<lambda>qs' res. probe_done True 0 ((DbRows q, True) # [(DbRows q', is_ok r)] @ qs') res)"
        by (cases r) (auto simp: probe_done_def intro!: emits_mono [OF scalar_emits])
    qed
    then have two: "rp \<Longrightarrow> emits (if rp then cbind (ccall server (DbRows q')) scalar_one_or_none else cret None)
        (\<lambda>qs' r. probe_done rp 0 ((DbRows q, True) # qs') r)" by simp
    have "\<not> rp \<Longrightarrow> emits (if rp then cbind (ccall server (DbRows q')) scalar_one_or_none else cret None)
        (\<lambda>qs' r. probe_done rp 0 ((DbRows q, True) # qs') r)" by (simp add: emits_ret probe_done_def)
    with two have "emits (if rp then cbind (ccall server (DbRows q')) scalar_one_or_none else cret None)
        (\<lambda>qs' r. probe_done rp 0 ((DbRows q, True) # qs') r)" by blast
    with Inr show ?thesis by (simp only: sum.case is_ok.simps append.simps)
  qed (simp add: probe_done_def)
qed

lemma probe_closed_emits:
  fixes server :: "'r db"
  assumes "emits m (probe_done rp 0)"
  shows "emits (cfinally m (ccall server DbClose)) (probe_done rp 1)"
proof (rule emits_finally, rule emits_mono [OF assms], rule emits_call)
  fix qs res and r :: "any_exn + db_reply"
  assume "probe_done rp 0 qs res"
  then show "case r of
      Inl e \<Rightarrow> probe_done rp 1 (qs @ [(DbClose, is_ok r)]) (Inl e)
    | Inr _ \<Rightarrow> probe_done rp 1 (qs @ [(DbClose, is_ok r)]) res"
    by (cases r) (auto simp: probe_done_def db_opened_def db_closed_def)
qed

definition health_done :: "bool \<Rightarrow> (db_request \<times> bool) list \<Rightarrow> any_exn + HealthResult \<Rightarrow> bool" where
  "health_done require_postgis qs res \<longleftrightarrow>
     consistent_health require_postgis res \<and> tally db_opened qs = tally db_closed qs \<and>
     (\<forall>h. res = Inr h \<longrightarrow> hr_reachable h \<longrightarrow> set (map snd qs) = {True})"

lemma check_pg_health_emits: "emits (check_pg_health server str_of rp) (health_done rp)"
proof -
  let ?probe = "cfinally (cseq (ccall server (DbRows ''SELECT 1''))
      (if rp then cbind (ccall server (DbRows (''SELECT extversion FROM pg_extension WHERE extname = '' @ CHR 0x27 # ''postgis'' @ [CHR 0x27])))
         scalar_one_or_none else cret None)) (ccall server DbClose)"
  have probe: "emits ?probe (probe_done rp 1)"
    by (rule probe_closed_emits, rule probe_emits)
  have opened: "emits (cseq (ccall server DbConnect) ?probe)
      (\<lambda>qs res. tally db_opened qs = tally db_closed qs \<and> (is_ok res \<longrightarrow> set (map snd qs) = {True}) \<and>
         (\<forall>v. res = Inr (Some v) \<longrightarrow> rp))" (is "emits _ ?Q")
  proof (rule emits_seq, rule emits_call)
    fix reply :: "any_exn + db_reply"
    show "case reply of
        Inl e \<Rightarrow> ?Q [(DbConnect, is_ok reply)] (Inl e)
      | Inr a \<Rightarrow> emits ?probe (\<lambda>qs' r. ?Q ([(DbConnect, is_ok reply)] @ qs') r)"
    proof (cases reply)
      case (Inr a)
      show ?thesis
        unfolding Inr sum.case
        by (rule emits_mono [OF probe]) (auto simp: db_opened_def db_closed_def probe_done_def)
    qed (simp add: db_opened_def db_closed_def)
  qed
  have body: "emits (cbind (cseq (ccall server DbConnect) ?probe) (\<lambda>postgis. let ok = (if \<not> rp then True else postgis \<noteq> None)
        in cret \<lparr>hr_ok = ok, hr_reachable = True, hr_postgis = postgis,
             hr_detail = (if ok then None else Some ''PostGIS is not installed in the tenant database'')\<rparr>))
      (\<lambda>qs res. case res of Inl e \<Rightarrow> tally db_opened qs = tally db_closed qs | Inr h \<Rightarrow> health_done rp qs (Inr h))"
    apply (rule emits_bind, rule emits_mono [OF opened])
    subgoal for qs res
      by (cases res; simp only: sum.case Let_def) (rule emits_ret, simp add: health_done_def consistent_health_def)
    done
  show ?thesis
    unfolding check_pg_health_def except_exception_def
    apply (rule emits_catch, rule emits_mono [OF body])
    subgoal for qs res
    proof (cases res)
      case (Inl e)
      then show "?thesis" if "case res of Inl e \<Rightarrow> tally db_opened qs = tally db_closed qs | Inr h \<Rightarrow> health_done rp qs (Inr h)"
        using that
        by (cases e; simp only: sum.case any_exn.case; intro emits_ret emits_fail;
            simp add: health_done_def consistent_health_def)
    qed simp
    done
qed

lemma check_pg_health_run:
  assumes "check_pg_health server str_of require_postgis s = (s', res)"
  shows "consistent_health require_postgis res \<and>
    (\<exists>qs. ss_log s' = ss_log s @ qs \<and> tally db_opened qs = tally db_closed qs \<and>
      (\<forall>h. res = Inr h \<longrightarrow> hr_reachable h \<longrightarrow> set (map snd qs) = {True}))"
  using emitsD [OF check_pg_health_emits assms] by (auto simp: health_done_def)

lemma build_url_inject:
  assumes "build_url s ''asyncpg'' = Inr u"
  shows "ps_database s = Some (ur_database u)" "ur_username u = ps_user s" "ur_host u = ps_host s" "ur_port u = ps_port s"
  using assms by (auto simp: build_url_def split: option.splits)

text \<open>
  The health check never raises for a server that fails: it reports \<open>ok\<close> exactly when the database answered
  and, if asked for, PostGIS is installed, gives a detail exactly when it is not ok, and a version only when it
  looked; every connection it opened is closed, and a database is called reachable only if nothing failed. It
  raises only what is not an \<open>Exception\<close>, or what making the engine raises.
\<close>

theorem health_check_contract:
  "(case check_health sq connect str_of settings require_postgis st s of
      (st', s', res) \<Rightarrow>
        (\<exists>qs. ss_log s' = ss_log s @ qs \<and> tally db_opened qs = tally db_closed qs \<and>
           (case snd (get_async_engine sq settings st) of
              Inl e \<Rightarrow> res = Inl (Ordinary e) \<and> qs = []
            | Inr engine \<Rightarrow>
                (case res of
                   Inl (Ordinary x) \<Rightarrow> False
                 | Inl (NotException t) \<Rightarrow> True
                 | Inr h \<Rightarrow> hr_ok h = (hr_reachable h \<and> (if require_postgis then hr_postgis h \<noteq> None else True)) \<and>
                     (hr_detail h = None) = hr_ok h \<and>
                     (if hr_reachable h then set (map snd qs) = {True} else hr_postgis h = None)))))"
proof (cases "get_async_engine sq settings st")
  case (Pair st' r)
  show ?thesis
  proof (cases r)
    case (Inl e)
    with Pair show ?thesis by (simp add: check_health_def)
  next
    case (Inr engine)
    obtain s' res where run: "check_pg_health (connect engine) str_of require_postgis s = (s', res)"
      by (cases "check_pg_health (connect engine) str_of require_postgis s")
    from check_pg_health_run [OF this] obtain qs where qs: "consistent_health require_postgis res"
      "ss_log s' = ss_log s @ qs" "tally db_opened qs = tally db_closed qs"
      "\<forall>h. res = Inr h \<longrightarrow> hr_reachable h \<longrightarrow> set (map snd qs) = {True}" by blast
    show ?thesis
      using Pair Inr run qs
      by (auto simp: check_health_def consistent_health_def split: sum.splits any_exn.splits)
  qed
qed

subsection \<open>Properties of the engine cache\<close>

definition engines_inv :: "sqlalchemy \<Rightarrow> engines \<Rightarrow> bool" where
  "engines_inv sq st \<longleftrightarrow>
     (\<forall>key e. map_of (eg_async st) key = Some e \<longrightarrow>
        sq_render sq (en_url e) = key \<and> ur_drivername (en_url e) = ''postgresql+asyncpg'' \<and> en_id e < eg_made st) \<and>
     (\<forall>key e. map_of (eg_sync st) key = Some e \<longrightarrow>
        sq_render sq (en_url e) = key \<and> ur_drivername (en_url e) = ''postgresql+psycopg'' \<and> en_id e < eg_made st)"

text \<open>The engines a process has handed out: any sequence of calls, for any settings.\<close>

inductive engines_reachable :: "sqlalchemy \<Rightarrow> engines \<Rightarrow> bool" for sq where
  start: "engines_reachable sq no_engines"
| async: "engines_reachable sq st \<Longrightarrow> engines_reachable sq (fst (get_async_engine sq s st))"
| sync: "engines_reachable sq st \<Longrightarrow> engines_reachable sq (fst (get_sync_engine sq s st))"

lemma build_url_driver: "build_url s driver = Inr u \<Longrightarrow> ur_drivername u = ''postgresql+'' @ driver"
  by (auto simp: build_url_def split: if_splits option.splits)

lemma engines_reachable_inv: "engines_reachable sq st \<Longrightarrow> engines_inv sq st"
proof (induction rule: engines_reachable.induct)
  case start
  show ?case by (simp add: engines_inv_def no_engines_def)
next
  case (async st s)
  then show ?case
    using build_url_driver [of s "''asyncpg''"]
    by (fastforce simp: engines_inv_def get_async_engine_def Let_def dict_simps split: sum.split option.split)
next
  case (sync st s)
  then show ?case
    using build_url_driver [of s "''psycopg''"]
    by (fastforce simp: engines_inv_def get_sync_engine_def Let_def dict_simps split: sum.split option.split)
qed

datatype engine_call = AsyncEngine PostgresSettings | SyncEngine PostgresSettings

definition call_engine :: "sqlalchemy \<Rightarrow> engine_call \<Rightarrow> engines \<Rightarrow> engines" where
  "call_engine sq c st = (case c of AsyncEngine s \<Rightarrow> fst (get_async_engine sq s st) | SyncEngine s \<Rightarrow> fst (get_sync_engine sq s st))"

lemma async_result:
  "get_async_engine sq s st = (st', Inr e) \<longleftrightarrow>
     (\<exists>u. build_url s ''asyncpg'' = Inr u \<and>
        (map_of (eg_async st) (sq_render sq u) = Some e \<and> st' = st \<or>
         map_of (eg_async st) (sq_render sq u) = None \<and> sq_create sq u (pool_kwargs_of s) = Inr () \<and>
           e = \<lparr>en_id = eg_made st, en_url = u, en_pool = pool_kwargs_of s\<rparr> \<and>
           st' = st\<lparr>eg_async := AList.update (sq_render sq u) e (eg_async st), eg_made := Suc (eg_made st)\<rparr>))"
  by (auto simp: get_async_engine_def Let_def split: sum.splits option.splits)

lemma call_keeps:
  "map_of (eg_async st) k = Some e \<Longrightarrow> map_of (eg_async (call_engine sq c st)) k = Some e"
  by (cases c)
     (auto simp: call_engine_def get_async_engine_def get_sync_engine_def Let_def dict_simps split: sum.split option.split)

lemma calls_keep:
  "map_of (eg_async st) k = Some e \<Longrightarrow> map_of (eg_async (fold (call_engine sq) cs st)) k = Some e"
  by (induction cs arbitrary: st) (simp_all add: call_keeps)

lemma calls_reachable: "engines_reachable sq st \<Longrightarrow> engines_reachable sq (fold (call_engine sq) cs st)"
  by (induction cs arbitrary: st)
     (auto simp: call_engine_def intro: engines_reachable.intros split: engine_call.split)

lemma async_entry:
  assumes "engines_reachable sq st" "inj (sq_render sq)" "get_async_engine sq s st = (st', Inr e)"
  shows "build_url s ''asyncpg'' = Inr (en_url e)" "map_of (eg_async st') (sq_render sq (en_url e)) = Some e"
    "engines_reachable sq st'"
proof -
  obtain u where u: "build_url s ''asyncpg'' = Inr u" "map_of (eg_async st') (sq_render sq u) = Some e"
    "en_url e = u \<or> map_of (eg_async st) (sq_render sq u) = Some e"
    using assms(3) unfolding async_result by (auto simp: dict_simps)
  have "en_url e = u"
    using u(3) engines_reachable_inv [OF assms(1)] injD [OF assms(2)] unfolding engines_inv_def by blast
  with u show "build_url s ''asyncpg'' = Inr (en_url e)" "map_of (eg_async st') (sq_render sq (en_url e)) = Some e"
    by simp_all
  show "engines_reachable sq st'" using engines_reachable.async [OF assms(1), of s] assms(3) by simp
qed


text \<open>
  Settings that load name their database and protect managed connections: the database is the given one or the
  tenant's, a managed provider always has a TLS mode in the URL, and both drivers build a URL to that database;
  any other driver is refused.
\<close>

theorem loaded_settings_build_urls:
  assumes "load_postgres_settings s = Inr s'"
  shows "if driver \<in> {''asyncpg'', ''psycopg''}
    then \<exists>u. build_url s' driver = Inr u \<and> Some (ur_database u) = resolve_database (ps_database s) (ps_tenant s) \<and>
      (if ps_provider s = ManagedProvider \<and> ps_sslmode s \<noteq> Some [] then map_of (ur_query u) ''sslmode'' \<noteq> None else True) \<and>
      (case ps_sslmode s of Some (c # m) \<Rightarrow> map_of (ur_query u) ''sslmode'' = Some (c # m) | _ \<Rightarrow> True)
    else \<exists>m. build_url s' driver = Inl (ValueError m)"
proof -
  have s': "s' = managed_requires_ssl (with_database s)" using assms by (simp add: load_postgres_settings_def split: if_splits)
  show ?thesis
    by (auto simp: s' build_url_def managed_requires_ssl_def with_database_def resolve_database_def truthy_def
        split: option.split list.split)
qed

text \<open>
  A managed provider with an empty TLS mode loads and connects without TLS: only an absent mode is replaced by
  \<open>require\<close>, and an empty one is left out of the URL.
\<close>

theorem managed_without_tls:
  assumes "valid_postgres_fields s" and "ps_provider s = ManagedProvider" and "ps_sslmode s = Some []"
  shows "\<exists>s' u. load_postgres_settings s = Inr s' \<and> build_url s' ''asyncpg'' = Inr u \<and> ur_query u = []"
  using assms
  by (auto simp: load_postgres_settings_def managed_requires_ssl_def with_database_def build_url_def resolve_database_def
      truthy_def split: option.split)

subsection \<open>Witnesses\<close>

definition sample_pg_settings :: PostgresSettings where
  "sample_pg_settings = (postgres_defaults ''telcoss'' ''app'' ''pw'')\<lparr>ps_provider := ManagedProvider, ps_sslmode := Some []\<rparr>"

lemma managed_without_tls_witness:
  "\<exists>s' u. load_postgres_settings sample_pg_settings = Inr s' \<and> build_url s' ''asyncpg'' = Inr u \<and> ur_query u = []"
  by (rule managed_without_tls)
     (simp_all add: sample_pg_settings_def postgres_defaults_def valid_postgres_fields_def)

lemma loaded_settings_build_urls_witness:
  "\<exists>u. build_url (managed_requires_ssl (with_database
       ((postgres_defaults ''my-app'' ''app'' ''pw'')\<lparr>ps_provider := ManagedProvider\<rparr>))) ''psycopg'' = Inr u \<and>
     map_of (ur_query u) ''sslmode'' \<noteq> None"
proof -
  let ?s = "(postgres_defaults ''my-app'' ''app'' ''pw'')\<lparr>ps_provider := ManagedProvider\<rparr>"
  have "load_postgres_settings ?s = Inr (managed_requires_ssl (with_database ?s))"
    by (simp add: load_postgres_settings_def valid_postgres_fields_def postgres_defaults_def)
  from loaded_settings_build_urls [OF this, of "''psycopg''"] show ?thesis
    by (auto simp: postgres_defaults_def)
qed

text \<open>An injective rendering: every field as a word of a prefix code.\<close>

fun prefix_code :: "string \<Rightarrow> string" where
  "prefix_code [] = [CHR ''0'']"
| "prefix_code (c # s) = CHR ''1'' # c # prefix_code s"

lemma prefix_code_inject: "prefix_code s @ x = prefix_code t @ y \<longleftrightarrow> s = t \<and> x = y"
proof (induction s arbitrary: t)
  case Nil
  then show ?case by (cases t) auto
next
  case (Cons c s)
  then show ?case by (cases t) auto
qed

fun query_code :: "(string, string) pydict \<Rightarrow> string" where
  "query_code [] = [CHR ''0'']"
| "query_code ((k, v) # q) = CHR ''1'' # prefix_code k @ prefix_code v @ query_code q"

lemma query_code_inject: "query_code p = query_code q \<longleftrightarrow> p = q"
proof (induction p arbitrary: q rule: query_code.induct)
  case 1
  then show ?case by (cases q rule: query_code.cases) auto
next
  case (2 k v p)
  then show ?case by (cases q rule: query_code.cases) (auto simp: prefix_code_inject)
qed

definition sample_render :: "url \<Rightarrow> string" where
  "sample_render u = prefix_code (ur_drivername u) @ prefix_code (ur_username u) @ prefix_code (ur_password u) @
     prefix_code (ur_host u) @ prefix_code (if ur_port u < 0 then ''-'' else []) @
     prefix_code (show_nat (nat \<bar>ur_port u\<bar>)) @ prefix_code (ur_database u) @ query_code (ur_query u)"

lemma sample_render_inj: "inj sample_render"
proof (rule injI)
  fix u v :: url
  assume "sample_render u = sample_render v"
  then have "ur_drivername u = ur_drivername v" "ur_username u = ur_username v" "ur_password u = ur_password v"
    "ur_host u = ur_host v" "ur_port u = ur_port v" "ur_database u = ur_database v" "ur_query u = ur_query v"
    by (auto simp: sample_render_def prefix_code_inject query_code_inject split: if_splits)
  then show "u = v" by simp
qed

definition sample_sqlalchemy :: sqlalchemy where
  "sample_sqlalchemy = \<lparr>sq_render = sample_render, sq_create = (\<lambda>u k. Inr ())\<rparr>"


end
