(* ===== verification/Observability.thy ===== *)
theory Observability
  imports Prelude "HOL-Library.Word"
begin

text \<open>
  The observability SDK (\<open>basic_infra_observability_client\<close>): the context variables, the structlog processors
  and the logging set-up, and the metrics with their standard labels; and the gateway's own logging set-up.
  The processors and formatters of structlog and the Prometheus registry are parameters.
\<close>

subsection \<open>Context variables\<close>

record obs_context =
  oc_request_id :: "string option"
  oc_tenant_override :: "string option"

definition empty_context :: obs_context where
  "empty_context = \<lparr>oc_request_id = None, oc_tenant_override = None\<rparr>"

text \<open>Code that runs in a context, which may carry more than the two variables: it may change it, return or raise.\<close>

type_synonym ('m, 'a) in_context = "'m obs_context_scheme \<Rightarrow> 'm obs_context_scheme \<times> (exn + 'a)"

definition get_request_id :: "'m obs_context_scheme \<Rightarrow> string option" where
  [simp]: "get_request_id c = oc_request_id c"

definition get_tenant_override :: "'m obs_context_scheme \<Rightarrow> string option" where
  [simp]: "get_tenant_override c = oc_tenant_override c"

definition set_request_id :: "string \<Rightarrow> ('m, unit) in_context" where
  "set_request_id value c = (c\<lparr>oc_request_id := Some value\<rparr>, Inr ())"

text \<open>
  The two context managers around a block; \<open>reset(token)\<close> puts the value from before the \<open>set\<close> back.
  \<open>uuid\<close> is the identifier \<open>uuid4\<close> would give.
\<close>

definition request_scope :: "string \<Rightarrow> string option \<Rightarrow> (string \<Rightarrow> ('m, 'a) in_context) \<Rightarrow> ('m, 'a) in_context" where
  "request_scope uuid request_id block c =
     (let rid = (case request_id of None \<Rightarrow> uuid | Some r \<Rightarrow> r);
          token = oc_request_id c
      in case block rid (c\<lparr>oc_request_id := Some rid\<rparr>) of
           (c', r) \<Rightarrow> (c'\<lparr>oc_request_id := token\<rparr>, r))"

definition tenant_scope :: "string \<Rightarrow> ('m, 'a) in_context \<Rightarrow> ('m, 'a) in_context" where
  "tenant_scope tenant_id block c =
     (let token = oc_tenant_override c
      in case block (c\<lparr>oc_tenant_override := Some tenant_id\<rparr>) of
           (c', r) \<Rightarrow> (c'\<lparr>oc_tenant_override := token\<rparr>, r))"

subsection \<open>Settings\<close>

datatype log_format = JsonFormat | ConsoleFormat
datatype environment = Dev | Staging | Prod

fun env_str :: "environment \<Rightarrow> string" where
  "env_str Dev = ''dev''"
| "env_str Staging = ''staging''"
| "env_str Prod = ''prod''"

record ObservabilitySettings =
  os_service_name :: string
  os_env :: environment
  os_tenant :: "string option"
  os_metrics_port :: int
  os_metrics_enabled :: bool
  os_log_level :: string
  os_log_format :: log_format

definition obs_defaults :: "string \<Rightarrow> ObservabilitySettings" where
  "obs_defaults service_name =
     \<lparr>os_service_name = service_name, os_env = Dev, os_tenant = None, os_metrics_port = 9090,
      os_metrics_enabled = True, os_log_level = ''INFO'', os_log_format = JsonFormat\<rparr>"

definition valid_obs_settings :: "ObservabilitySettings \<Rightarrow> bool" where
  "valid_obs_settings s \<longleftrightarrow> os_service_name s \<noteq> [] \<and> 1 \<le> os_metrics_port s \<and> os_metrics_port s \<le> 65535"

subsection \<open>Processors\<close>

type_synonym event = "(string, json) pydict"

definition setdefault :: "string \<Rightarrow> json \<Rightarrow> event \<Rightarrow> event" where
  "setdefault k v e = (case map_of e k of None \<Rightarrow> AList.update k v e | Some _ \<Rightarrow> e)"

text \<open>\<open>get_tenant_override() or default\<close>; the empty text is no tenant.\<close>

definition effective_tenant :: "string option \<Rightarrow> string option \<Rightarrow> string option" where
  "effective_tenant override dflt = (if truthy override then override else if truthy dflt then dflt else None)"

definition add_service_metadata :: "ObservabilitySettings \<Rightarrow> 'm obs_context_scheme \<Rightarrow> event \<Rightarrow> event" where
  "add_service_metadata settings c e =
     (let e1 = setdefault ''service'' (JStr (os_service_name settings)) e;
          e2 = setdefault ''env'' (JStr (env_str (os_env settings))) e1
      in case effective_tenant (get_tenant_override c) (os_tenant settings) of
           None \<Rightarrow> e2
         | Some tenant \<Rightarrow> setdefault ''tenant'' (JStr tenant) e2)"

definition add_request_id :: "'m obs_context_scheme \<Rightarrow> event \<Rightarrow> event" where
  "add_request_id c e =
     (let rid = get_request_id c in if truthy rid then setdefault ''request_id'' (JStr (the rid)) e else e)"

text \<open>\<open>format(n, "032x")\<close>: lowercase hexadecimal, padded with zeros to the width.\<close>

definition hex_char :: "nat \<Rightarrow> char" where
  "hex_char d = (if d < 10 then char_of (48 + d) else char_of (87 + d))"

fun show_hex :: "nat \<Rightarrow> string" where
  "show_hex n = (if n < 16 then [hex_char n] else show_hex (n div 16) @ [hex_char (n mod 16)])"

declare show_hex.simps [simp del]

definition format_hex :: "nat \<Rightarrow> nat \<Rightarrow> string" where
  "format_hex width n = replicate (width - length (show_hex n)) CHR ''0'' @ show_hex n"

record span_context =
  sp_trace_id :: "128 word"
  sp_span_id :: "64 word"
  sp_is_valid :: bool

text \<open>
  OpenTelemetry as the code sees it, with trace identifiers of 128 and span identifiers of 64 bits: not installed, or installed with the context of the current
  span, which may be \<open>None\<close>.
\<close>

datatype otel = NotInstalled | CurrentSpan "span_context option"

definition valid_span :: "otel \<Rightarrow> span_context option" where
  "valid_span ot = (case ot of CurrentSpan (Some ctx) \<Rightarrow> if sp_is_valid ctx then Some ctx else None | _ \<Rightarrow> None)"

definition add_trace_context :: "otel \<Rightarrow> event \<Rightarrow> event" where
  "add_trace_context ot e =
     (case valid_span ot of
        None \<Rightarrow> e
      | Some ctx \<Rightarrow>
          setdefault ''span_id'' (JStr (format_hex 16 (unat (sp_span_id ctx))))
            (setdefault ''trace_id'' (JStr (format_hex 32 (unat (sp_trace_id ctx)))) e))"

subsection \<open>Logging set-up\<close>

datatype processor =
    Library string
  | AddServiceMetadata ObservabilitySettings
  | AddRequestId
  | AddTraceContext

definition shared_processors :: "ObservabilitySettings \<Rightarrow> processor list" where
  "shared_processors settings =
     [Library ''merge_contextvars'', Library ''add_log_level'', Library ''TimeStamper'',
      AddServiceMetadata settings, AddRequestId, AddTraceContext,
      Library ''StackInfoRenderer'', Library ''format_exc_info'', Library ''UnicodeDecoder'']"

record log_handler =
  lh_foreign_pre_chain :: "processor list"
  lh_processors :: "processor list"

record logging_state =
  lg_processors :: "processor list"
  lg_handlers :: "log_handler list"
  lg_level :: string

definition setup_logging :: "(string \<Rightarrow> string) \<Rightarrow> ObservabilitySettings \<Rightarrow> logging_state \<Rightarrow> logging_state" where
  "setup_logging upper settings st =
     (let shared = shared_processors settings;
          renderer = (if os_log_format settings = JsonFormat then Library ''JSONRenderer'' else Library ''ConsoleRenderer'');
          handler = \<lparr>lh_foreign_pre_chain = shared, lh_processors = [Library ''remove_processors_meta'', renderer]\<rparr>
      in st\<lparr>lg_processors := shared @ [Library ''wrap_for_formatter''], lg_handlers := [handler],
            lg_level := upper (os_log_level settings)\<rparr>)"

definition run_processor ::
  "(string \<Rightarrow> event \<Rightarrow> event) \<Rightarrow> 'm obs_context_scheme \<Rightarrow> otel \<Rightarrow> processor \<Rightarrow> event \<Rightarrow> event"
where
  "run_processor library c ot p e =
     (case p of
        Library name \<Rightarrow> library name e
      | AddServiceMetadata settings \<Rightarrow> add_service_metadata settings c e
      | AddRequestId \<Rightarrow> add_request_id c e
      | AddTraceContext \<Rightarrow> add_trace_context ot e)"

definition run_processors ::
  "(string \<Rightarrow> event \<Rightarrow> event) \<Rightarrow> 'm obs_context_scheme \<Rightarrow> otel \<Rightarrow> processor list \<Rightarrow> event \<Rightarrow> event"
where
  "run_processors library c ot ps e = fold (run_processor library c ot) ps e"

text \<open>The gateway's own configuration (\<open>app/observability/logging.py\<close>).\<close>

record gateway_logging =
  gl_configured :: bool
  gl_processors :: "processor list"
  gl_level :: string

definition configure_logging :: "(string \<Rightarrow> string option) \<Rightarrow> string \<Rightarrow> string \<Rightarrow> gateway_logging \<Rightarrow> gateway_logging" where
  "configure_logging level_of level fmt st =
     (let log_level = (case level_of level of None \<Rightarrow> ''INFO'' | Some l \<Rightarrow> l);
          shared = [Library ''merge_contextvars'', Library ''add_log_level'', Library ''TimeStamper'']
      in \<lparr>gl_configured = True,
          gl_processors = (if fmt = ''console'' then shared @ [Library ''ConsoleRenderer'']
             else shared @ [Library ''format_exc_info'', Library ''JSONRenderer'']),
          gl_level = log_level\<rparr>)"

definition gateway_get_logger :: "(string \<Rightarrow> string option) \<Rightarrow> gateway_logging \<Rightarrow> gateway_logging" where
  "gateway_get_logger level_of st = (if gl_configured st then st else configure_logging level_of ''INFO'' ''json'' st)"

subsection \<open>Metrics\<close>

definition standard_labels :: "string list" where
  "standard_labels = [''service'', ''env'', ''tenant'']"

datatype metric_kind = Counter | Gauge | Histogram "rat list option"

text \<open>
  The Prometheus client: making a collector with its label names in a registry, its child for a list of label
  values, and starting the HTTP server of the endpoint. Each may raise.
\<close>

record ('reg, 'i, 'child) prometheus =
  pr_new :: "metric_kind \<Rightarrow> string \<Rightarrow> string \<Rightarrow> string list \<Rightarrow> 'reg \<Rightarrow> 'reg \<times> (exn + 'i)"
  pr_child :: "'i \<Rightarrow> string list \<Rightarrow> exn + 'child"
  pr_start_server :: "int \<Rightarrow> 'reg \<Rightarrow> 'reg \<times> (exn + unit)"

record 'reg metrics_state =
  ms_settings :: "ObservabilitySettings option"
  ms_server_started :: bool
  ms_registry :: 'reg

definition setup_metrics ::
  "('reg, 'i, 'child) prometheus \<Rightarrow> ObservabilitySettings \<Rightarrow> bool \<Rightarrow> 'reg metrics_state \<Rightarrow> 'reg metrics_state \<times> (exn + unit)"
where
  "setup_metrics pr settings start_server st =
     (let st1 = st\<lparr>ms_settings := Some settings\<rparr>
      in if \<not> os_metrics_enabled settings \<or> \<not> start_server then (st1, Inr ())
         else if ms_server_started st1 then (st1, Inr ())
         else case pr_start_server pr (os_metrics_port settings) (ms_registry st1) of
           (reg, Inl e) \<Rightarrow> (st1\<lparr>ms_registry := reg\<rparr>, Inl e)
         | (reg, Inr _) \<Rightarrow> (st1\<lparr>ms_registry := reg, ms_server_started := True\<rparr>, Inr ()))"

definition label_values ::
  "'reg metrics_state \<Rightarrow> 'm obs_context_scheme \<Rightarrow> (string, string) pydict \<Rightarrow> exn + (string, string) pydict"
where
  "label_values st c extra =
     (case ms_settings st of
        None \<Rightarrow> Inl (RuntimeError ''setup_metrics() must be called before creating instruments'')
      | Some settings \<Rightarrow>
          let tenant = (case effective_tenant (get_tenant_override c) (os_tenant settings) of None \<Rightarrow> [] | Some t \<Rightarrow> t);
              base = [(''service'', os_service_name settings), (''env'', env_str (os_env settings)), (''tenant'', tenant)]
          in Inr (AList.updates (map fst extra) (map snd extra) base))"

record 'i labelled_instrument =
  li_instrument :: 'i
  li_extra_labels :: "string list"

definition dict_item :: "(string, 'v) pydict \<Rightarrow> string \<Rightarrow> exn + 'v" where
  "dict_item d k = (case map_of d k of None \<Rightarrow> Inl (KeyError k) | Some v \<Rightarrow> Inr v)"

definition instrument_labels ::
  "('reg, 'i, 'child) prometheus \<Rightarrow> 'reg metrics_state \<Rightarrow> 'm obs_context_scheme \<Rightarrow> 'i labelled_instrument
    \<Rightarrow> (string, string) pydict \<Rightarrow> exn + 'child"
where
  "instrument_labels pr st c li kwargs =
     rbind (label_values st c kwargs) (\<lambda>values.
     rbind (rmap_list (dict_item values) standard_labels) (\<lambda>ordered.
     rbind (rmap_list (dict_item kwargs) (li_extra_labels li)) (\<lambda>extra.
       pr_child pr (li_instrument li) (ordered @ extra))))"

definition forbidden_labels :: "string list" where
  "forbidden_labels = [''request_id'', ''user_id'', ''document_id'', ''trace_id'', ''span_id'', ''session_id'', ''email'']"

definition check_no_high_cardinality_labels :: "string list \<Rightarrow> exn + unit" where
  "check_no_high_cardinality_labels labels =
     (if filter (\<lambda>l. l \<in> set forbidden_labels) labels \<noteq> []
      then Inl (ValueError ''High-cardinality labels rejected'') else Inr ())"

definition new_instrument ::
  "('reg, 'i, 'child) prometheus \<Rightarrow> metric_kind \<Rightarrow> string \<Rightarrow> string \<Rightarrow> string list \<Rightarrow> 'reg
    \<Rightarrow> 'reg \<times> (exn + 'i labelled_instrument)"
where
  "new_instrument pr kind name documentation labels reg =
     (case check_no_high_cardinality_labels labels of
        Inl e \<Rightarrow> (reg, Inl e)
      | Inr _ \<Rightarrow>
          (case pr_new pr kind name documentation (standard_labels @ labels) reg of
             (reg', r) \<Rightarrow> (reg', rmap (\<lambda>i. \<lparr>li_instrument = i, li_extra_labels = labels\<rparr>) r)))"

definition counter ::
  "('reg, 'i, 'child) prometheus \<Rightarrow> string \<Rightarrow> string \<Rightarrow> string list \<Rightarrow> 'reg \<Rightarrow> 'reg \<times> (exn + 'i labelled_instrument)" where
  "counter pr = new_instrument pr Counter"

definition gauge ::
  "('reg, 'i, 'child) prometheus \<Rightarrow> string \<Rightarrow> string \<Rightarrow> string list \<Rightarrow> 'reg \<Rightarrow> 'reg \<times> (exn + 'i labelled_instrument)" where
  "gauge pr = new_instrument pr Gauge"

text \<open>An empty list of buckets is left to the library's default.\<close>

definition histogram ::
  "('reg, 'i, 'child) prometheus \<Rightarrow> string \<Rightarrow> string \<Rightarrow> string list \<Rightarrow> rat list option \<Rightarrow> 'reg
    \<Rightarrow> 'reg \<times> (exn + 'i labelled_instrument)" where
  "histogram pr name documentation labels buckets =
     new_instrument pr (Histogram (case buckets of Some (b # bs) \<Rightarrow> Some (b # bs) | _ \<Rightarrow> None)) name documentation labels"

text \<open>\<open>generate\<close> and the content type are those of the Prometheus client; no registry means the global one.\<close>

definition render_latest :: "('reg \<Rightarrow> string) \<Rightarrow> string \<Rightarrow> 'reg \<Rightarrow> 'reg option \<Rightarrow> string \<times> string" where
  "render_latest generate content_type global registry =
     (generate (case registry of None \<Rightarrow> global | Some reg \<Rightarrow> reg), content_type)"

subsection \<open>Identifiers of traces\<close>

definition hex_digit :: "char \<Rightarrow> bool" where
  "hex_digit c \<longleftrightarrow> is_digit c \<or> (97 \<le> char_code c \<and> char_code c \<le> 102)"

definition hex_val :: "char \<Rightarrow> nat" where
  "hex_val c = (if char_code c < 58 then char_code c - 48 else char_code c - 87)"

definition hex_value :: "string \<Rightarrow> nat" where
  "hex_value s = foldl (\<lambda>acc c. 16 * acc + hex_val c) 0 s"

lemma hex_char_facts: "d < 16 \<Longrightarrow> hex_val (hex_char d) = d" "d < 16 \<Longrightarrow> hex_digit (hex_char d)"
  by (simp_all add: hex_val_def hex_char_def hex_digit_def is_digit_def)

lemma hex_value_snoc: "hex_value (s @ [c]) = 16 * hex_value s + hex_val c"
  by (simp add: hex_value_def)

lemma show_hex_facts: "hex_value (show_hex n) = n \<and> list_all hex_digit (show_hex n) \<and> show_hex n \<noteq> []"
proof (induction n rule: show_hex.induct)
  case (1 n)
  show ?case
  proof (cases "n < 16")
    case True
    then show ?thesis by (subst (1 2 3) show_hex.simps) (simp add: hex_char_facts hex_value_def)
  next
    case False
    with 1 show ?thesis by (subst (1 2 3) show_hex.simps) (simp add: hex_char_facts hex_value_snoc)
  qed
qed

lemma show_hex_length: "0 < k \<Longrightarrow> n < 16 ^ k \<Longrightarrow> length (show_hex n) \<le> k"
proof (induction n arbitrary: k rule: show_hex.induct)
  case (1 n)
  show ?case
  proof (cases "n < 16")
    case True
    with 1 show ?thesis by (subst show_hex.simps) simp
  next
    case False
    then have "k \<noteq> 1" using 1(3) by auto
    then obtain j where j: "k = Suc j" "0 < j" using 1(2) by (cases k) auto
    then have "n div 16 < 16 ^ j" using 1(3) by (simp add: less_mult_imp_div_less mult.commute)
    from 1(1) [OF False j(2) this] False j(1) show ?thesis by (subst show_hex.simps) simp
  qed
qed

lemma hex_value_zeros: "hex_value (replicate k CHR ''0'' @ s) = hex_value s"
proof -
  have "foldl (\<lambda>acc c. 16 * acc + hex_val c) 0 (replicate k CHR ''0'') = 0"
    by (induction k) (simp_all add: hex_val_def char_code_def)
  then show ?thesis by (simp add: hex_value_def)
qed

lemma format_hex_facts:
  "hex_value (format_hex k n) = n"
  "list_all hex_digit (format_hex k n)"
  "0 < k \<Longrightarrow> n < 16 ^ k \<Longrightarrow> length (format_hex k n) = k"
  using show_hex_facts [of n] show_hex_length [of k n]
  by (auto simp: format_hex_def hex_value_zeros list_all_iff hex_digit_def is_digit_def char_code_def)

lemma format_hex_lengths:
  "length (format_hex 32 (unat (w :: 128 word))) = 32" "length (format_hex 16 (unat (v :: 64 word))) = 16"
  using unsigned_less [of w, where 'a = nat] unsigned_less [of v, where 'a = nat]
  by (auto intro!: format_hex_facts(3))

text \<open>
  Within a valid span an event that has no identifiers yet gets a trace identifier of exactly 32 and a span
  identifier of exactly 16 lowercase hexadecimal digits, which read back as the identifiers of the span, so that
  two spans of different traces are never linked; outside of one, and for an event that has both, nothing
  changes.
\<close>

theorem trace_context_roundtrip:
  "(case valid_span ot of
      None \<Rightarrow> add_trace_context ot e = e
    | Some ctx \<Rightarrow>
        (let t = map_of (add_trace_context ot e) ''trace_id''; s = map_of (add_trace_context ot e) ''span_id''
         in case (map_of e ''trace_id'', map_of e ''span_id'') of
              (None, None) \<Rightarrow> \<exists>tt ss. t = Some (JStr tt) \<and> s = Some (JStr ss) \<and>
                 length tt = 32 \<and> length ss = 16 \<and> list_all hex_digit (tt @ ss) \<and>
                 of_nat (hex_value tt) = sp_trace_id ctx \<and> of_nat (hex_value ss) = sp_span_id ctx
            | (Some v, Some v') \<Rightarrow> add_trace_context ot e = e
            | _ \<Rightarrow> (map_of e ''trace_id'' = None \<or> t = map_of e ''trace_id'') \<and>
                   (map_of e ''span_id'' = None \<or> s = map_of e ''span_id'')))"
  by (auto simp: add_trace_context_def setdefault_def dict_simps format_hex_facts(1,2) format_hex_lengths Let_def
      split: option.split)

subsection \<open>Scopes\<close>

text \<open>
  A program as the scopes see it: it logs, sets the request id, raises, opens scopes and catches
  exceptions. \<open>lx_records\<close> is what was logged, with the context the processors saw.
\<close>

record log_context = obs_context +
  lx_records :: "(string option \<times> string option \<times> event) list"

datatype action =
    Emit event
  | SetId string
  | Raise exn
  | InRequest string "string option" "action list"
  | InTenant string "action list"
  | Try "action list"

fun run_action :: "action \<Rightarrow> log_context \<Rightarrow> log_context \<times> (exn + unit)"
  and run_actions :: "action list \<Rightarrow> log_context \<Rightarrow> log_context \<times> (exn + unit)"
where
  "run_action (Emit e) c = (c\<lparr>lx_records := lx_records c @ [(oc_tenant_override c, oc_request_id c, e)]\<rparr>, Inr ())"
| "run_action (SetId v) c = set_request_id v c"
| "run_action (Raise x) c = (c, Inl x)"
| "run_action (InRequest uuid rid body) c = request_scope uuid rid (\<lambda>_. run_actions body) c"
| "run_action (InTenant t body) c = tenant_scope t (run_actions body) c"
| "run_action (Try body) c = (fst (run_actions body c), Inr ())"
| "run_actions [] c = (c, Inr ())"
| "run_actions (a # as) c = (case run_action a c of (c', Inl x) \<Rightarrow> (c', Inl x) | (c', Inr _) \<Rightarrow> run_actions as c')"

text \<open>
  The tenant read off the text of the program: that of the innermost enclosing scope. The second component
  says whether the program raises.
\<close>

fun lexical :: "string option \<Rightarrow> action \<Rightarrow> (string option \<times> event) list \<times> bool"
  and lexicals :: "string option \<Rightarrow> action list \<Rightarrow> (string option \<times> event) list \<times> bool"
where
  "lexical t (Emit e) = ([(t, e)], False)"
| "lexical t (SetId v) = ([], False)"
| "lexical t (Raise x) = ([], True)"
| "lexical t (InRequest uuid rid body) = lexicals t body"
| "lexical t (InTenant t' body) = lexicals (Some t') body"
| "lexical t (Try body) = (fst (lexicals t body), False)"
| "lexicals t [] = ([], False)"
| "lexicals t (a # as) =
     (case lexical t a of (es, True) \<Rightarrow> (es, True)
      | (es, False) \<Rightarrow> (case lexicals t as of (es', b) \<Rightarrow> (es @ es', b)))"

definition scoped :: "string option \<Rightarrow> (string option \<times> event) list \<times> bool \<Rightarrow> log_context \<Rightarrow> log_context \<times> (exn + unit) \<Rightarrow> bool" where
  "scoped t spec c res \<longleftrightarrow>
     oc_tenant_override (fst res) = t \<and> is_ok (snd res) = (\<not> snd spec) \<and>
     (\<exists>rs. lx_records (fst res) = lx_records c @ rs \<and> map (\<lambda>(t, rid, e). (t, e)) rs = fst spec)"

lemma run_scoped:
  "oc_tenant_override c = t \<Longrightarrow> scoped t (lexical t a) c (run_action a c)"
  "oc_tenant_override c = t \<Longrightarrow> scoped t (lexicals t as) c (run_actions as c)"
proof (induction t a and t as arbitrary: c and c rule: lexical_lexicals.induct)
  case (4 t uuid rid body)
  let ?c = "c\<lparr>oc_request_id := Some (case rid of None \<Rightarrow> uuid | Some r \<Rightarrow> r)\<rparr>"
  have "scoped t (lexicals t body) ?c (run_actions body ?c)" using 4 by simp
  then show ?case by (auto simp: scoped_def request_scope_def Let_def split: prod.split)
next
  case (5 t t' body)
  let ?c = "c\<lparr>oc_tenant_override := Some t'\<rparr>"
  have "scoped (Some t') (lexicals (Some t') body) ?c (run_actions body ?c)" using 5 by simp
  then show ?case using 5(2) by (auto simp: scoped_def tenant_scope_def Let_def split: prod.split)
next
  case (6 t body)
  then have "scoped t (lexicals t body) c (run_actions body c)" by simp
  then show ?case by (auto simp: scoped_def)
next
  case (8 t a as)
  obtain es b where spec: "lexical t a = (es, b)" by (cases "lexical t a")
  obtain c' r where run: "run_action a c = (c', r)" by (cases "run_action a c")
  have here: "scoped t (es, b) c (c', r)" using 8(1) [OF 8(3)] spec run by simp
  show ?case
  proof (cases b)
    case True
    with here spec run show ?thesis by (cases r) (auto simp: scoped_def)
  next
    case False
    with here obtain u where r: "r = Inr u" by (cases r) (auto simp: scoped_def)
    from here have "oc_tenant_override c' = t" by (simp add: scoped_def)
    with 8(2) spec False have "scoped t (lexicals t as) c' (run_actions as c')" by simp
    with here False spec run r show ?thesis
      by (auto simp: scoped_def split: prod.split)
  qed
qed (auto simp: scoped_def set_request_id_def)

lemma run_request_restored:
  "oc_request_id (fst (run_action (InRequest uuid rid body) c)) = oc_request_id c"
  by (simp add: request_scope_def Let_def split: prod.split)

text \<open>
  C37. The tenant of a log record is that of the innermost \<open>tenant_scope\<close> around it in the text of the program,
  whatever the program sets, raises or catches on the way; after the program the override is what it was
  before, and a \<open>request_scope\<close> leaves the request id as it found it, also when its block sets another one or
  raises.
\<close>

theorem scopes_are_lexical:
  "oc_tenant_override (fst (run_actions prog c)) = oc_tenant_override c \<and>
   is_ok (snd (run_actions prog c)) = (\<not> snd (lexicals (oc_tenant_override c) prog)) \<and>
   (\<exists>rs. lx_records (fst (run_actions prog c)) = lx_records c @ rs \<and>
      map (\<lambda>(t, rid, e). (t, e)) rs = fst (lexicals (oc_tenant_override c) prog)) \<and>
   oc_request_id (fst (run_action (InRequest uuid rid prog) c)) = oc_request_id c"
  using run_scoped(2) [OF refl, of c prog] run_request_restored [of uuid rid prog c] by (simp add: scoped_def)

subsection \<open>What a log line carries\<close>

definition first_of :: "json option \<Rightarrow> json option \<Rightarrow> json option" where
  "first_of a b = (case a of None \<Rightarrow> b | Some v \<Rightarrow> Some v)"

text \<open>What the later library processors are relied on for: they keep the fields of the contract.\<close>

definition keeps_fields :: "(event \<Rightarrow> event) \<Rightarrow> bool" where
  "keeps_fields f \<longleftrightarrow> (\<forall>e. \<forall>k \<in> {''service'', ''env'', ''tenant'', ''request_id'', ''trace_id'', ''span_id''}.
     map_of (f e) k = map_of e k)"

lemma lookup_setdefault:
  "map_of (setdefault k v e) k' = (if k' = k then first_of (map_of e k) (Some v) else map_of e k')"
  by (auto simp: setdefault_def first_of_def dict_simps split: option.split)

lemma keeps_fields_lookup:
  assumes "keeps_fields f"
  shows "map_of (f e) ''service'' = map_of e ''service''" "map_of (f e) ''env'' = map_of e ''env''"
    "map_of (f e) ''tenant'' = map_of e ''tenant''" "map_of (f e) ''request_id'' = map_of e ''request_id''"
    "map_of (f e) ''trace_id'' = map_of e ''trace_id''" "map_of (f e) ''span_id'' = map_of e ''span_id''"
  using assms by (auto simp: keeps_fields_def)

lemma effective_tenant_truthy: "effective_tenant o' d = Some t \<Longrightarrow> t \<noteq> []"
  by (auto simp: effective_tenant_def truthy_def split: if_splits option.splits)

definition trace_field :: "nat \<Rightarrow> (span_context \<Rightarrow> nat) \<Rightarrow> otel \<Rightarrow> json option" where
  "trace_field width f ot = map_option (\<lambda>ctx. JStr (format_hex width (f ctx))) (valid_span ot)"

lemma context_processors:
  assumes "e' = add_trace_context ot (add_request_id c (add_service_metadata settings c e))"
  shows "map_of e' ''service'' = first_of (map_of e ''service'') (Some (JStr (os_service_name settings)))"
    "map_of e' ''env'' = first_of (map_of e ''env'') (Some (JStr (env_str (os_env settings))))"
    "map_of e' ''tenant'' = first_of (map_of e ''tenant'')
       (map_option JStr (effective_tenant (oc_tenant_override c) (os_tenant settings)))"
    "map_of e' ''request_id'' = first_of (map_of e ''request_id'')
       (if truthy (oc_request_id c) then map_option JStr (oc_request_id c) else None)"
    "map_of e' ''trace_id'' = first_of (map_of e ''trace_id'') (trace_field 32 (\<lambda>ctx. unat (sp_trace_id ctx)) ot)"
    "map_of e' ''span_id'' = first_of (map_of e ''span_id'') (trace_field 16 (\<lambda>ctx. unat (sp_span_id ctx)) ot)"
  unfolding assms add_trace_context_def add_request_id_def add_service_metadata_def Let_def trace_field_def
  by (cases "valid_span ot"; cases "oc_request_id c";
      cases "effective_tenant (oc_tenant_override c) (os_tenant settings)";
      simp add: lookup_setdefault first_of_def truthy_def split: option.split)+

text \<open>
  C36. Every log line, of structlog or of a library that logs through the standard handler, carries the service
  and the environment, the tenant of the scope or else of the settings, the request id and the identifiers of
  the current valid span, except where the caller or a bound context variable has already given the field; and
  nothing is written for an absent one.
\<close>

theorem log_line_contract:
  assumes "keeps_fields (library ''StackInfoRenderer'')" and "keeps_fields (library ''format_exc_info'')"
    and "keeps_fields (library ''UnicodeDecoder'')"
  shows "\<exists>h. lg_handlers (setup_logging upper settings st) = [h] \<and>
    lg_processors (setup_logging upper settings st) = lh_foreign_pre_chain h @ [Library ''wrap_for_formatter''] \<and>
    (let given = library ''TimeStamper'' (library ''add_log_level'' (library ''merge_contextvars'' e));
         line = run_processors library c ot (lh_foreign_pre_chain h) e
     in map_of line ''service'' = first_of (map_of given ''service'') (Some (JStr (os_service_name settings))) \<and>
        map_of line ''env'' = first_of (map_of given ''env'') (Some (JStr (env_str (os_env settings)))) \<and>
        map_of line ''tenant'' = first_of (map_of given ''tenant'')
          (map_option JStr (effective_tenant (oc_tenant_override c) (os_tenant settings))) \<and>
        map_of line ''request_id'' = first_of (map_of given ''request_id'')
          (if truthy (oc_request_id c) then map_option JStr (oc_request_id c) else None) \<and>
        map_of line ''trace_id'' = first_of (map_of given ''trace_id'') (trace_field 32 (\<lambda>ctx. unat (sp_trace_id ctx)) ot) \<and>
        map_of line ''span_id'' = first_of (map_of given ''span_id'') (trace_field 16 (\<lambda>ctx. unat (sp_span_id ctx)) ot))"
proof -
  let ?given = "library ''TimeStamper'' (library ''add_log_level'' (library ''merge_contextvars'' e))"
  let ?mid = "add_trace_context ot (add_request_id c (add_service_metadata settings c ?given))"
  have run: "run_processors library c ot (shared_processors settings) e =
      library ''UnicodeDecoder'' (library ''format_exc_info'' (library ''StackInfoRenderer'' ?mid))"
    by (simp add: run_processors_def shared_processors_def run_processor_def)
  note keep = keeps_fields_lookup [OF assms(1)] keeps_fields_lookup [OF assms(2)] keeps_fields_lookup [OF assms(3)]
  show ?thesis
    by (rule exI [of _ "\<lparr>lh_foreign_pre_chain = shared_processors settings, lh_processors = [Library ''remove_processors_meta'',
          if os_log_format settings = JsonFormat then Library ''JSONRenderer'' else Library ''ConsoleRenderer'']\<rparr>"])
       (simp add: setup_logging_def Let_def run keep context_processors [OF refl])
qed

subsection \<open>Labels\<close>

lemma lookup_updates:
  "wf_dict d \<Longrightarrow> map_of (AList.updates (map fst d) (map snd d) base) k =
     (case map_of d k of None \<Rightarrow> map_of base k | Some v \<Rightarrow> Some v)"
proof (induction d arbitrary: base)
  case (Cons x d)
  then have "map_of d (fst x) = None" by (simp add: wf_dict_def map_of_eq_None_iff)
  with Cons show ?case by (cases x) (auto simp: wf_dict_def dict_simps split: option.split)
qed simp

lemma dict_items:
  "rmap_list (dict_item d) ks =
     (case find (\<lambda>k. map_of d k = None) ks of Some k \<Rightarrow> Inl (KeyError k) | None \<Rightarrow> Inr (map (\<lambda>k. the (map_of d k)) ks))"
  by (induction ks) (auto simp: dict_item_def split: option.split)

text \<open>The value of a standard label: what the caller passes under its name, else that of the settings and scope.\<close>

definition standard_value :: "ObservabilitySettings \<Rightarrow> 'm obs_context_scheme \<Rightarrow> (string, string) pydict \<Rightarrow> string \<Rightarrow> string" where
  "standard_value s c kwargs l =
     (case map_of kwargs l of
        Some v \<Rightarrow> v
      | None \<Rightarrow> if l = ''service'' then os_service_name s else if l = ''env'' then env_str (os_env s)
          else (case effective_tenant (oc_tenant_override c) (os_tenant s) of None \<Rightarrow> [] | Some t \<Rightarrow> t))"

text \<open>
  No instrument has a label of high cardinality, and its child is looked up with one value for each of its
  label names, in their order: the standard ones from the settings and the tenant scope unless the caller
  passes one by name, then the caller's; before \<open>setup_metrics\<close> it raises, and a missing label is a
  \<open>KeyError\<close> that names the first one missing.
\<close>

theorem instrument_label_contract:
  assumes "new_instrument pr kind name documentation labels reg = (reg', Inr li)" and "wf_dict kwargs"
  shows "set labels \<inter> set forbidden_labels = {} \<and>
    pr_new pr kind name documentation (standard_labels @ labels) reg = (reg', Inr (li_instrument li)) \<and>
    instrument_labels pr st c li kwargs =
      (case ms_settings st of
         None \<Rightarrow> Inl (RuntimeError ''setup_metrics() must be called before creating instruments'')
       | Some s \<Rightarrow>
           (case find (\<lambda>l. map_of kwargs l = None) labels of
              Some l \<Rightarrow> Inl (KeyError l)
            | None \<Rightarrow> pr_child pr (li_instrument li)
                (map (standard_value s c kwargs) standard_labels @ map (\<lambda>l. the (map_of kwargs l)) labels)))"
proof -
  have check: "filter (\<lambda>l. l \<in> set forbidden_labels) labels = []"
    using assms(1) by (auto simp: new_instrument_def check_no_high_cardinality_labels_def split: if_splits)
  then have new: "pr_new pr kind name documentation (standard_labels @ labels) reg = (reg', Inr (li_instrument li))"
    and extra: "li_extra_labels li = labels"
    using assms(1)
    by (auto simp: new_instrument_def check_no_high_cardinality_labels_def rmap_Inr_iff split: prod.splits)
  have labels: "instrument_labels pr st c li kwargs =
      (case find (\<lambda>l. map_of kwargs l = None) labels of
              Some l \<Rightarrow> Inl (KeyError l)
            | None \<Rightarrow> pr_child pr (li_instrument li)
                (map (standard_value s c kwargs) standard_labels @ map (\<lambda>l. the (map_of kwargs l)) labels))"
    if "ms_settings st = Some s" for s
    using that
    by (simp add: instrument_labels_def label_values_def Let_def dict_items extra standard_labels_def
        lookup_updates [OF assms(2)] standard_value_def dict_item_def split: option.split)
  have "instrument_labels pr st c li kwargs = Inl (RuntimeError ''setup_metrics() must be called before creating instruments'')"
    if "ms_settings st = None" using that by (simp add: instrument_labels_def label_values_def)
  with labels check new show ?thesis
    by (auto simp: filter_empty_conv split: option.split)
qed

subsection \<open>Witnesses\<close>

definition sample_obs_settings :: ObservabilitySettings where
  "sample_obs_settings = (obs_defaults ''intake'')\<lparr>os_tenant := Some ''telcoss''\<rparr>"

lemma log_line_contract_witness:
  "map_of (run_processors (\<lambda>name e. e) \<lparr>oc_request_id = Some ''r1'', oc_tenant_override = None\<rparr> NotInstalled
     (shared_processors sample_obs_settings) [(''event'', JStr ''x'')]) ''tenant'' = Some (JStr ''telcoss'')"
proof -
  have "keeps_fields ((\<lambda>name e. e) p)" for p :: string by (simp add: keeps_fields_def)
  from log_line_contract [OF this this this, of "\<lambda>s. s" sample_obs_settings "undefined"
      "[(''event'', JStr ''x'')]" "\<lparr>oc_request_id = Some ''r1'', oc_tenant_override = None\<rparr>" NotInstalled]
  show ?thesis
    by (auto simp: setup_logging_def Let_def first_of_def sample_obs_settings_def obs_defaults_def effective_tenant_def truthy_def)
qed

definition sample_prometheus :: "(string list, string list, string list \<times> string list) prometheus" where
  "sample_prometheus = \<lparr>pr_new = (\<lambda>kind name doc names reg. if name \<in> set reg then (reg, Inl (ValueError ''Duplicated timeseries''))
       else (name # reg, Inr names)),
     pr_child = (\<lambda>names vals. if length vals = length names then Inr (names, vals) else Inl (ValueError ''Incorrect label count'')),
     pr_start_server = (\<lambda>port reg. (reg, Inr ()))\<rparr>"

lemma instrument_label_contract_witness:
  "instrument_labels sample_prometheus \<lparr>ms_settings = Some sample_obs_settings, ms_server_started = True, ms_registry = [''docs'']\<rparr>
     \<lparr>oc_request_id = None, oc_tenant_override = Some ''acme''\<rparr>
     \<lparr>li_instrument = [''service'', ''env'', ''tenant'', ''source''], li_extra_labels = [''source'']\<rparr> [(''source'', ''portal'')]
   = Inr ([''service'', ''env'', ''tenant'', ''source''], [''intake'', ''dev'', ''acme'', ''portal''])"
proof -
  have new: "new_instrument sample_prometheus Counter ''docs'' ''Documents'' [''source''] [] =
      ([''docs''], Inr \<lparr>li_instrument = [''service'', ''env'', ''tenant'', ''source''], li_extra_labels = [''source'']\<rparr>)"
    by (simp add: new_instrument_def check_no_high_cardinality_labels_def forbidden_labels_def sample_prometheus_def
        standard_labels_def)
  have "wf_dict [(''source'', ''portal'')]" by (simp add: wf_dict_def)
  from instrument_label_contract [OF new this, of "\<lparr>ms_settings = Some sample_obs_settings, ms_server_started = True,
      ms_registry = [''docs'']\<rparr>" "\<lparr>oc_request_id = None, oc_tenant_override = Some ''acme''\<rparr>"]
  show ?thesis
    by (simp add: standard_labels_def standard_value_def sample_obs_settings_def obs_defaults_def
        effective_tenant_def truthy_def sample_prometheus_def)
qed

end
