(* ===== verification/Tracing.thy ===== *)
theory Tracing
  imports Observability
begin

text \<open>
  Distributed tracing of the observability SDK (\<open>tracing.py\<close>): settings, resource and sampler, the process-wide
  configuration with its guard, instrumentation and the correlation filter. OpenTelemetry is a parameter: how
  the process-wide provider reacts to being set, whether making the OTLP exporter succeeds, and which
  extras are installed.
\<close>

subsection \<open>Settings and providers\<close>

record TracingSettings =
  ts_enabled :: bool
  ts_service_name :: string
  ts_service_version :: "string option"
  ts_env :: string
  ts_otlp_endpoint :: string
  ts_otlp_insecure :: bool
  ts_sample_ratio :: rat

definition tracing_defaults :: TracingSettings where
  "tracing_defaults = \<lparr>ts_enabled = False, ts_service_name = ''unknown-service'', ts_service_version = None,
     ts_env = ''local'', ts_otlp_endpoint = ''http://tempo:4317'', ts_otlp_insecure = True, ts_sample_ratio = 1\<rparr>"

definition valid_tracing_settings :: "TracingSettings \<Rightarrow> bool" where
  "valid_tracing_settings s \<longleftrightarrow> 0 \<le> ts_sample_ratio s \<and> ts_sample_ratio s \<le> 1"

definition build_resource :: "TracingSettings \<Rightarrow> (string, string) pydict" where
  "build_resource s =
     [(''service.name'', ts_service_name s), (''deployment.environment'', ts_env s)]
     @ (if truthy (ts_service_version s) then [(''service.version'', the (ts_service_version s))] else [])"

datatype sampler = ParentBasedAlwaysOn | ParentBasedRatio rat

definition build_sampler :: "TracingSettings \<Rightarrow> sampler" where
  "build_sampler s = (if ts_sample_ratio s \<ge> 1 then ParentBasedAlwaysOn else ParentBasedRatio (ts_sample_ratio s))"

datatype 'x span_processor = SimpleSpanProcessor 'x | BatchOtlp string bool

text \<open>A provider is an object: its number is its identity.\<close>

record 'x provider =
  tp_id :: nat
  tp_resource :: "(string, string) pydict"
  tp_sampler :: sampler
  tp_processor :: "'x span_processor"

record 'x opentelemetry =
  ot_set_global :: "'x provider option \<Rightarrow> 'x provider \<Rightarrow> 'x provider option"
  ot_exporter :: "TracingSettings \<Rightarrow> exn + unit"
  ot_fastapi :: bool
  ot_sqlalchemy :: bool
  ot_environment :: "exn + TracingSettings"

text \<open>
  The module's variables, OpenTelemetry's process-wide provider (\<open>None\<close> is the no-op proxy), the cache of
  \<open>get_settings\<close>, the applications instrumented so far, and how many providers were made.
\<close>

record ('x, 'app) tracing =
  tg_configured :: bool
  tg_provider :: "'x provider option"
  tg_global :: "'x provider option"
  tg_settings :: "TracingSettings option"
  tg_instrumented :: "'app list"
  tg_made :: nat

definition fresh_tracing :: "('x, 'app) tracing" where
  "fresh_tracing = \<lparr>tg_configured = False, tg_provider = None, tg_global = None, tg_settings = None,
     tg_instrumented = [], tg_made = 0\<rparr>"

subsection \<open>Operations\<close>

definition get_tracing_settings ::
  "'x opentelemetry \<Rightarrow> ('x, 'app) tracing \<Rightarrow> ('x, 'app) tracing \<times> (exn + TracingSettings)"
where
  "get_tracing_settings ot st =
     (case tg_settings st of
        Some s \<Rightarrow> (st, Inr s)
      | None \<Rightarrow> (case ot_environment ot of
            Inl e \<Rightarrow> (st, Inl e)
          | Inr s \<Rightarrow> (st\<lparr>tg_settings := Some s\<rparr>, Inr s)))"

definition instrument_fastapi :: "'x opentelemetry \<Rightarrow> 'app \<Rightarrow> ('x, 'app) tracing \<Rightarrow> ('x, 'app) tracing" where
  "instrument_fastapi ot app st =
     (if ot_fastapi ot then st\<lparr>tg_instrumented := tg_instrumented st @ [app]\<rparr> else st)"

text \<open>The result \<open>None\<close> is the proxy provider.\<close>

definition configure_tracing ::
  "'x opentelemetry \<Rightarrow> 'app option \<Rightarrow> TracingSettings \<Rightarrow> 'x option \<Rightarrow> ('x, 'app) tracing
    \<Rightarrow> ('x, 'app) tracing \<times> (exn + 'x provider option)"
where
  "configure_tracing ot app settings span_exporter st =
     (let st0 = st\<lparr>tg_made := Suc (tg_made st)\<rparr>
      in case (case span_exporter of
            Some x \<Rightarrow> Inr (SimpleSpanProcessor x)
          | None \<Rightarrow> rmap (\<lambda>_. BatchOtlp (ts_otlp_endpoint settings) (ts_otlp_insecure settings)) (ot_exporter ot settings)) of
        Inl e \<Rightarrow> (st0, Inl e)
      | Inr processor \<Rightarrow>
          let provider = \<lparr>tp_id = tg_made st, tp_resource = build_resource settings, tp_sampler = build_sampler settings,
                tp_processor = processor\<rparr>;
              st1 = st0\<lparr>tg_global := ot_set_global ot (tg_global st) provider, tg_configured := True,
                tg_provider := Some provider\<rparr>
          in (case app of None \<Rightarrow> st1 | Some a \<Rightarrow> instrument_fastapi ot a st1, Inr (Some provider)))"

definition setup_tracing ::
  "'x opentelemetry \<Rightarrow> 'app option \<Rightarrow> TracingSettings option \<Rightarrow> 'x option \<Rightarrow> bool \<Rightarrow> ('x, 'app) tracing
    \<Rightarrow> ('x, 'app) tracing \<times> (exn + 'x provider option)"
where
  "setup_tracing ot app given span_exporter force st =
     (case (case given of Some s \<Rightarrow> (st, Inr s) | None \<Rightarrow> get_tracing_settings ot st) of
        (st1, Inl e) \<Rightarrow> (st1, Inl e)
      | (st1, Inr settings) \<Rightarrow>
          if \<not> ts_enabled settings then (st1, Inr (tg_global st1))
          else if tg_configured st1 \<and> \<not> force then (st1, Inr (tg_provider st1))
          else configure_tracing ot app settings span_exporter st1)"

text \<open>A tracer: the provider it comes from, and its name.\<close>

definition get_tracer :: "string option \<Rightarrow> ('x, 'app) tracing \<Rightarrow> 'x provider option \<times> string" where
  "get_tracer name st = (tg_global st, case name of None \<Rightarrow> ''basic_infra'' | Some n \<Rightarrow> n)"

text \<open>The instrumentor of SQLAlchemy is a parameter: which engines it instruments after it is asked for one more.\<close>

definition instrument_sqlalchemy :: "'x opentelemetry \<Rightarrow> ('eng \<Rightarrow> 'eng list \<Rightarrow> 'eng list) \<Rightarrow> 'eng \<Rightarrow> 'eng list \<Rightarrow> 'eng list" where
  "instrument_sqlalchemy ot instrument engine engines =
     (if ot_sqlalchemy ot then instrument engine engines else engines)"

definition reset_for_tests :: "('x, 'app) tracing \<Rightarrow> ('x, 'app) tracing" where
  "reset_for_tests st = st\<lparr>tg_configured := False, tg_provider := None, tg_settings := None\<rparr>"

subsection \<open>The correlation filter\<close>

datatype log_filter = TraceContextFilter | OtherFilter string

definition install_trace_log_correlation :: "log_filter list \<Rightarrow> log_filter list" where
  "install_trace_log_correlation filters =
     (if list_ex (\<lambda>f. f = TraceContextFilter) filters then filters else filters @ [TraceContextFilter])"

text \<open>The two attributes the filter sets on a record, with OpenTelemetry installed.\<close>

definition trace_filter :: "span_context option \<Rightarrow> string option \<times> string option" where
  "trace_filter ctx =
     (case ctx of
        None \<Rightarrow> (None, None)
      | Some c \<Rightarrow> if sp_is_valid c
          then (Some (format_hex 32 (unat (sp_trace_id c))), Some (format_hex 16 (unat (sp_span_id c))))
          else (None, None))"

subsection \<open>Idempotence\<close>

record ('x, 'app) setup_call =
  sc_app :: "'app option"
  sc_given :: "TracingSettings option"
  sc_exporter :: "'x option"
  sc_force :: bool

definition perform :: "'x opentelemetry \<Rightarrow> ('x, 'app) setup_call \<Rightarrow> ('x, 'app) tracing \<Rightarrow> ('x, 'app) tracing \<times> (exn + 'x provider option)" where
  "perform ot call st = setup_tracing ot (sc_app call) (sc_given call) (sc_exporter call) (sc_force call) st"

inductive tracing_reachable :: "'x opentelemetry \<Rightarrow> ('x, 'app) tracing \<Rightarrow> bool" for ot where
  start: "tracing_reachable ot fresh_tracing"
| call: "tracing_reachable ot st \<Longrightarrow> tracing_reachable ot (fst (perform ot call st))"
| reset: "tracing_reachable ot st \<Longrightarrow> tracing_reachable ot (reset_for_tests st)"

definition tracing_inv :: "('x, 'app) tracing \<Rightarrow> bool" where
  "tracing_inv st \<longleftrightarrow>
     (tg_configured st \<longleftrightarrow> tg_provider st \<noteq> None) \<and>
     (tg_configured st \<longrightarrow> tg_global st \<noteq> None) \<and>
     (\<forall>p \<in> set_option (tg_provider st) \<union> set_option (tg_global st). tp_id p < tg_made st)"

text \<open>OpenTelemetry honours the first process-wide provider and ignores every later one (its documentation).\<close>

definition first_provider_wins :: "'x opentelemetry \<Rightarrow> bool" where
  "first_provider_wins ot \<longleftrightarrow> (\<forall>p q. ot_set_global ot None p = Some p \<and> ot_set_global ot (Some q) p = Some q)"

lemma set_global_cases:
  "first_provider_wins ot \<Longrightarrow> ot_set_global ot g p = Some (case g of None \<Rightarrow> p | Some q \<Rightarrow> q)"
  by (cases g) (auto simp: first_provider_wins_def)

lemma configure_facts:
  assumes "configure_tracing ot app settings x st = (st', r)" "first_provider_wins ot"
  shows "tg_made st' = Suc (tg_made st)" "tg_settings st' = tg_settings st"
    "case r of
       Inl e \<Rightarrow> tg_provider st' = tg_provider st \<and> tg_configured st' = tg_configured st \<and> tg_global st' = tg_global st
     | Inr None \<Rightarrow> False
     | Inr (Some p) \<Rightarrow> tp_id p = tg_made st \<and> tg_provider st' = Some p \<and> tg_configured st' \<and>
         tg_global st' = Some (case tg_global st of None \<Rightarrow> p | Some q \<Rightarrow> q)"
  using assms
  by (auto simp: configure_tracing_def Let_def instrument_fastapi_def set_global_cases
      split: sum.splits option.splits if_splits)

lemma setup_cases:
  obtains (failed) e where "ot_environment ot = Inl e" "setup_tracing ot app given x force st = (st, Inl e)"
  | (ran) st1 settings where "given = Some settings \<and> st1 = st \<or> given = None \<and> st1 = st\<lparr>tg_settings := Some settings\<rparr>"
      "setup_tracing ot app given x force st =
        (if \<not> ts_enabled settings then (st1, Inr (tg_global st1))
         else if tg_configured st1 \<and> \<not> force then (st1, Inr (tg_provider st1))
         else configure_tracing ot app settings x st1)"
proof (cases given)
  case (Some s)
  then show ?thesis by (intro ran [of s st]) (simp_all add: setup_tracing_def)
next
  case None
  show ?thesis
  proof (cases "tg_settings st")
    case (Some s)
    then have "st\<lparr>tg_settings := Some s\<rparr> = st" by simp
    with None Some show ?thesis
      by (intro ran [of s st]) (simp_all add: setup_tracing_def get_tracing_settings_def)
  next
    case none: None
    show ?thesis
    proof (cases "ot_environment ot")
      case (Inl e)
      with None none show ?thesis by (intro failed) (simp_all add: setup_tracing_def get_tracing_settings_def)
    next
      case (Inr s)
      with None none show ?thesis
        by (intro ran [of s "st\<lparr>tg_settings := Some s\<rparr>"]) (simp_all add: setup_tracing_def get_tracing_settings_def)
    qed
  qed
qed

lemma inv_settings [simp]: "tracing_inv (st\<lparr>tg_settings := x\<rparr>) = tracing_inv st"
  by (simp add: tracing_inv_def)

lemma configure_preserves:
  assumes "tracing_inv st" "first_provider_wins ot" "configure_tracing ot app settings x st = (st', r)"
  shows "tracing_inv st' \<and> (tg_global st \<noteq> None \<longrightarrow> tg_global st' = tg_global st)"
  using configure_facts [OF assms(3,2)] assms(1)
  by (auto simp: tracing_inv_def less_Suc_eq split: sum.splits option.splits)

lemma setup_preserves:
  assumes "tracing_inv st" "first_provider_wins ot"
  shows "tracing_inv (fst (setup_tracing ot app given x force st)) \<and>
    (tg_global st \<noteq> None \<longrightarrow> tg_global (fst (setup_tracing ot app given x force st)) = tg_global st)"
proof (cases ot app given x force st rule: setup_cases)
  case (failed e)
  with assms(1) show ?thesis by simp
next
  case (ran st1 settings)
  then have st1: "tracing_inv st1" "tg_global st1 = tg_global st" using assms(1) by auto
  obtain st' r where conf: "configure_tracing ot app settings x st1 = (st', r)"
    by (cases "configure_tracing ot app settings x st1")
  from configure_preserves [OF st1(1) assms(2) conf] ran(2) st1 conf show ?thesis by simp
qed

lemma reachable_inv: "tracing_reachable ot st \<Longrightarrow> first_provider_wins ot \<Longrightarrow> tracing_inv st"
proof (induction rule: tracing_reachable.induct)
  case start
  show ?case by (simp add: tracing_inv_def fresh_tracing_def)
next
  case (call st call)
  then show ?case using setup_preserves [of st ot] by (simp add: perform_def)
next
  case (reset st)
  then show ?case by (simp add: tracing_inv_def reset_for_tests_def)
qed

lemma unforced_call:
  assumes "tg_configured st" "\<not> sc_force call"
  shows "\<exists>cache r. perform ot call st = (st\<lparr>tg_settings := cache\<rparr>, r) \<and>
    (\<forall>s. sc_given call = Some s \<longrightarrow> cache = tg_settings st \<and> r = Inr (if ts_enabled s then tg_provider st else tg_global st))"
proof (cases ot "sc_app call" "sc_given call" "sc_exporter call" "sc_force call" st rule: setup_cases)
  case (failed e)
  show ?thesis
  proof (cases "sc_given call")
    case None
    with failed(2) show ?thesis by (intro exI [of _ "tg_settings st"]) (simp add: perform_def)
  next
    case (Some s)
    with failed(2) show ?thesis by (simp add: setup_tracing_def split: if_splits) (metis Inl_Inr_False assms snd_conv)
  qed
next
  case (ran st1 settings)
  then have "perform ot call st = (st1, Inr (if ts_enabled settings then tg_provider st1 else tg_global st1))"
    using assms by (auto simp: perform_def)
  with ran(1) show ?thesis
    by (intro exI [of _ "tg_settings st1"]) auto
qed

text \<open>
  Configuration is idempotent: once tracing is configured, no sequence of calls without \<open>force\<close> makes another
  provider, replaces the one in use or the process-wide one, or instruments anything more; each call with enabled
  settings returns the provider of the first, and each with disabled settings the process-wide one. In every
  reachable state the process-wide provider, once set, is never replaced, forced calls included.
\<close>

theorem setup_tracing_idempotent:
  assumes "tracing_reachable ot st" and "first_provider_wins ot" and "tg_configured st" and "\<forall>c \<in> set later. \<not> sc_force c"
  shows "\<exists>cache p. tg_provider st = Some p \<and>
    fold (\<lambda>c s. fst (perform ot c s)) later st = st\<lparr>tg_settings := cache\<rparr> \<and>
    (\<forall>c s. \<not> sc_force c \<longrightarrow> sc_given c = Some s \<longrightarrow>
       perform ot c (st\<lparr>tg_settings := cache\<rparr>) =
         (st\<lparr>tg_settings := cache\<rparr>, Inr (if ts_enabled s then Some p else tg_global st))) \<and>
    (\<forall>c. tg_global (fst (perform ot c st)) = tg_global st)"
proof -
  from reachable_inv [OF assms(1,2)] assms(3) obtain p where p: "tg_provider st = Some p" and g: "tg_global st \<noteq> None"
    by (auto simp: tracing_inv_def)
  have run: "\<exists>cache. fold (\<lambda>c s. fst (perform ot c s)) cs (st\<lparr>tg_settings := start\<rparr>) = st\<lparr>tg_settings := cache\<rparr>"
    if "\<forall>c \<in> set cs. \<not> sc_force c" for cs start
    using that
  proof (induction cs arbitrary: start)
    case Nil
    show ?case by (intro exI [of _ start]) simp
  next
    case (Cons c cs)
    have "tg_configured (st\<lparr>tg_settings := start\<rparr>)" "\<not> sc_force c" using assms(3) Cons.prems by simp_all
    from unforced_call [OF this, of ot] obtain cache where "fst (perform ot c (st\<lparr>tg_settings := start\<rparr>)) = st\<lparr>tg_settings := cache\<rparr>"
      by auto
    with Cons.IH [of cache] Cons.prems show ?case by simp
  qed
  from run [OF assms(4), of "tg_settings st"] obtain cache where cache:
    "fold (\<lambda>c s. fst (perform ot c s)) later st = st\<lparr>tg_settings := cache\<rparr>" by auto
  have again: "perform ot c (st\<lparr>tg_settings := cache\<rparr>) =
      (st\<lparr>tg_settings := cache\<rparr>, Inr (if ts_enabled s then Some p else tg_global st))"
    if "\<not> sc_force c" "sc_given c = Some s" for c s
    using unforced_call [of "st\<lparr>tg_settings := cache\<rparr>" c ot] that assms(3) p by auto
  have "tg_global (fst (perform ot c st)) = tg_global st" for c
    using setup_preserves [OF reachable_inv [OF assms(1,2)] assms(2)] g by (simp add: perform_def)
  with p cache again show ?thesis by blast
qed

text \<open>
  The two ways to correlate logs with traces agree: what the filter puts on a record of the standard library is
  what the structlog processor puts into an event without identifiers, and the filter leaves null where the
  processor writes nothing. Installing the filter any number of times attaches it exactly once, keeping the
  other filters.
\<close>

theorem correlation_paths_agree:
  "map_of (add_trace_context (CurrentSpan ctx) []) ''trace_id'' = map_option JStr (fst (trace_filter ctx)) \<and>
   map_of (add_trace_context (CurrentSpan ctx) []) ''span_id'' = map_option JStr (snd (trace_filter ctx)) \<and>
   (install_trace_log_correlation ^^ Suc n) filters =
     (if TraceContextFilter \<in> set filters then filters else filters @ [TraceContextFilter])"
proof -
  have "(install_trace_log_correlation ^^ Suc n) filters =
     (if TraceContextFilter \<in> set filters then filters else filters @ [TraceContextFilter])"
    by (induction n) (auto simp: install_trace_log_correlation_def list_ex_iff)
  then show ?thesis
    by (simp add: add_trace_context_def trace_filter_def valid_span_def setdefault_def split: option.split del: funpow.simps)
qed

subsection \<open>Witnesses\<close>

definition sample_otel :: "unit opentelemetry" where
  "sample_otel = \<lparr>ot_set_global = (\<lambda>g p. Some (case g of None \<Rightarrow> p | Some q \<Rightarrow> q)), ot_exporter = (\<lambda>s. Inr ()),
     ot_fastapi = True, ot_sqlalchemy = True, ot_environment = Inr tracing_defaults\<rparr>"

definition sample_call :: "bool \<Rightarrow> (unit, string) setup_call" where
  "sample_call enabled = \<lparr>sc_app = Some ''app'', sc_given = Some (tracing_defaults\<lparr>ts_enabled := enabled\<rparr>),
     sc_exporter = None, sc_force = False\<rparr>"

lemma setup_tracing_idempotent_witness:
  "tg_instrumented (fst (perform sample_otel (sample_call True) (fst (perform sample_otel (sample_call True) fresh_tracing))))
     = [''app'']"
proof -
  let ?st = "fst (perform sample_otel (sample_call True) fresh_tracing)"
  have st: "tg_configured ?st" "tg_instrumented ?st = [''app'']"
    by (simp_all add: perform_def setup_tracing_def sample_call_def sample_otel_def configure_tracing_def fresh_tracing_def
        instrument_fastapi_def Let_def)
  have reach: "tracing_reachable sample_otel ?st" by (intro tracing_reachable.intros)
  have first: "first_provider_wins sample_otel" by (simp add: first_provider_wins_def sample_otel_def)
  have later: "\<forall>c \<in> set [sample_call True]. \<not> sc_force c" by (simp add: sample_call_def)
  from setup_tracing_idempotent [OF reach first st(1) later] st(2) show ?thesis by auto
qed

end
