(* ===== verification/Processes.thy ===== *)
theory Processes
  imports Gateway Admin_Session Outbox Observability Llm_Client
begin

text \<open>
  The processes around the components: how the gateway comes up and goes down (\<open>app/main.py\<close>, \<open>app/config.py\<close>), the entry
  point of the outbox dispatcher (\<open>basic_infra_outbox/__main__.py\<close>), and closing a client of the LLM SDK
  (\<open>vams_llm_client/client.py\<close>). Acquiring and releasing a resource are calls that may raise, made one
  after the other over an explicit session, whose log says what was opened, used and closed.
\<close>

subsection \<open>The application\<close>

definition get_gateway_settings :: "exn + Settings \<Rightarrow> Settings option \<Rightarrow> Settings option \<times> (exn + Settings)" where
  "get_gateway_settings environment cache = cached_call environment cache"

text \<open>The application is the settings it keeps; the cache of the settings and the logging configuration are global.\<close>

definition create_app ::
  "exn + Settings \<Rightarrow> (string \<Rightarrow> string option) \<Rightarrow> Settings option \<Rightarrow> Settings option \<Rightarrow> gateway_logging
    \<Rightarrow> Settings option \<times> gateway_logging \<times> (exn + Settings)"
where
  "create_app environment level_of given cache lg =
     (case (case given of Some s \<Rightarrow> (cache, Inr s) | None \<Rightarrow> get_gateway_settings environment cache) of
        (cache', Inl e) \<Rightarrow> (cache', lg, Inl e)
      | (cache', Inr s) \<Rightarrow> (cache', configure_logging level_of (se_log_level s) (se_log_format s) lg, Inr s))"

definition health_endpoint :: "(string, json) pydict" where
  "health_endpoint = [(''status'', JStr ''ok'')]"

subsection \<open>The lifespan\<close>

datatype lifespan_call =
    OpenStore string
  | OpenLimiter string bool
  | StartChecker
  | Serve
  | StopChecker
  | CloseAdapter string
  | CloseLimiter
  | CloseStore

definition opening_calls :: "Settings \<Rightarrow> lifespan_call list" where
  "opening_calls s = [OpenStore (se_tenant_db_path s), OpenLimiter (se_redis_url s) (se_rate_limit_fail_open s)]"

text \<open>\<open>stop\<close> of the checker, \<open>aclose\<close> of the registry with its adapters in turn, the limiter, the store.\<close>

definition closing_calls :: "('h, 'r) gateway \<Rightarrow> lifespan_call list" where
  "closing_calls gw =
     StopChecker # map (\<lambda>a. CloseAdapter (ad_name a)) (rg_adapters (gw_registry gw)) @ [CloseLimiter, CloseStore]"

text \<open>
  \<open>start\<close> is the construction of the components after the store and the limiter are open: the registry is loaded, which
  may raise. \<open>Serve\<close> is the \<open>yield\<close>; it raises when an exception is thrown into the generator.
\<close>

definition lifespan ::
  "('env \<Rightarrow> lifespan_call \<Rightarrow> 'env \<times> (registry_exn + unit)) \<Rightarrow> Settings \<Rightarrow> registry_exn + ('h, 'r) gateway
    \<Rightarrow> ('env, lifespan_call, registry_exn, unit) cmd"
where
  "lifespan env s start =
     cseq (cfor (ccall env) (opening_calls s))
       (cbind (clift start) (\<lambda>gw.
          cseq (ccall env StartChecker)
            (cfinally (ccall env Serve) (cfor (ccall env) (closing_calls gw)))))"

definition gateway_process ::
  "('env \<Rightarrow> lifespan_call \<Rightarrow> 'env \<times> (registry_exn + unit)) \<Rightarrow> (string \<Rightarrow> string + json) \<Rightarrow> (json \<Rightarrow> string + BackendsConfig)
    \<Rightarrow> (string \<Rightarrow> string option) \<Rightarrow> (exn + string) option \<Rightarrow> 'h tenant_store \<Rightarrow> 'r \<Rightarrow> Settings
    \<Rightarrow> ('env, lifespan_call, registry_exn, unit) cmd"
where
  "gateway_process env yaml validate getenv file store redis s =
     lifespan env s (gateway_startup yaml validate getenv file store redis s)"

text \<open>A run that serves: everything was opened before, and the calls that close follow, up to the first that raises.\<close>

definition served :: "Settings \<Rightarrow> string list \<Rightarrow> (lifespan_call \<times> bool) list \<Rightarrow> bool \<Rightarrow> bool" where
  "served s adapters qs ok \<longleftrightarrow>
     (\<exists>b closes closed.
        qs = [(OpenStore (se_tenant_db_path s), True), (OpenLimiter (se_redis_url s) (se_rate_limit_fail_open s), True),
              (StartChecker, True), (Serve, b)] @ closes \<and>
        stops_in (StopChecker # map CloseAdapter adapters @ [CloseLimiter, CloseStore]) closes closed \<and> ok = (b \<and> closed))"

definition adapter_names :: "('h, 'r) gateway \<Rightarrow> string list" where
  "adapter_names gw = map ad_name (rg_adapters (gw_registry gw))"

lemma emits_serving:
  "emits (cfinally (ccall env Serve) (cfor (ccall env) ops))
     (\<lambda>qs res. \<exists>b closes closed. qs = (Serve, b) # closes \<and> stops_in ops closes closed \<and> is_ok res = (b \<and> closed))"
proof (rule emits_finally, rule emits_call)
  fix reply :: "'b + unit"
  show "emits (cfor (ccall env) ops)
      (\<lambda>qs' r. case r of
         Inl e \<Rightarrow> \<exists>b closes closed. [(Serve, is_ok reply)] @ qs' = (Serve, b) # closes \<and> stops_in ops closes closed \<and>
           is_ok (Inl e) = (b \<and> closed)
       | Inr _ \<Rightarrow> \<exists>b closes closed. [(Serve, is_ok reply)] @ qs' = (Serve, b) # closes \<and> stops_in ops closes closed \<and>
           is_ok reply = (b \<and> closed))"
    by (rule emits_mono [OF emits_calls]) (auto split: sum.splits)
qed

lemma emits_started:
  "emits (cseq (ccall env StartChecker) (cfinally (ccall env Serve) (cfor (ccall env) (closing_calls gw))))
     (\<lambda>qs res. stops_in [StartChecker] qs False \<and> \<not> is_ok res \<or>
        (\<exists>b closes closed. qs = (StartChecker, True) # (Serve, b) # closes \<and> stops_in (closing_calls gw) closes closed \<and>
           is_ok res = (b \<and> closed)))"
proof (rule emits_seq, rule emits_call)
  fix reply :: "'b + unit"
  show "case reply of
      Inl e \<Rightarrow> stops_in [StartChecker] [(StartChecker, is_ok reply)] False \<and> \<not> is_ok (Inl e) \<or>
        (\<exists>b closes closed. [(StartChecker, is_ok reply)] = (StartChecker, True) # (Serve, b) # closes \<and>
           stops_in (closing_calls gw) closes closed \<and> is_ok (Inl e) = (b \<and> closed))
    | Inr a \<Rightarrow> emits (cfinally (ccall env Serve) (cfor (ccall env) (closing_calls gw)))
        (\<lambda>qs' r. stops_in [StartChecker] ([(StartChecker, is_ok reply)] @ qs') False \<and> \<not> is_ok r \<or>
          (\<exists>b closes closed. [(StartChecker, is_ok reply)] @ qs' = (StartChecker, True) # (Serve, b) # closes \<and>
             stops_in (closing_calls gw) closes closed \<and> is_ok r = (b \<and> closed)))"
    by (cases reply) (auto intro!: emits_mono [OF emits_serving])
qed

lemma emits_lifespan:
  "emits (lifespan env s start)
     (\<lambda>qs res. case start of
        Inl e \<Rightarrow> \<exists>ok. stops_in (opening_calls s) qs ok \<and> \<not> is_ok res \<and> (ok \<longrightarrow> res = Inl e)
      | Inr gw \<Rightarrow> stops_in (opening_calls s @ [StartChecker]) qs False \<and> \<not> is_ok res \<or> served s (adapter_names gw) qs (is_ok res))"
  (is "emits _ ?Q")
  unfolding lifespan_def
proof (rule emits_seq, rule emits_mono [OF emits_calls])
  fix qs and res :: "registry_exn + unit"
  assume opened: "stops_in (opening_calls s) qs (is_ok res)"
  show "case res of Inl e \<Rightarrow> ?Q qs (Inl e)
    | Inr a \<Rightarrow> emits (cbind (clift start) (\<lambda>gw. cseq (ccall env StartChecker)
        (cfinally (ccall env Serve) (cfor (ccall env) (closing_calls gw))))) (\<lambda>qs' r. ?Q (qs @ qs') r)"
  proof (cases res)
    case (Inl e)
    with opened show ?thesis by (auto split: sum.split intro: stops_in_early)
  next
    case (Inr u)
    with opened have qs: "qs = map (\<lambda>q. (q, True)) (opening_calls s)" by (simp add: stops_in_def)
    show ?thesis
    proof (cases start)
      case (Inl e)
      with Inr opened show ?thesis by (auto intro!: emits_fail)
    next
      case start: (Inr gw)
      have "?Q (qs @ qs') r" if "stops_in [StartChecker] qs' False \<and> \<not> is_ok r \<or>
          (\<exists>b closes closed. qs' = (StartChecker, True) # (Serve, b) # closes \<and> stops_in (closing_calls gw) closes closed \<and>
             is_ok r = (b \<and> closed))" for qs' and r :: "registry_exn + unit"
      proof -
        from that consider "stops_in [StartChecker] qs' False" "\<not> is_ok r"
          | b closes closed where "qs' = (StartChecker, True) # (Serve, b) # closes" "stops_in (closing_calls gw) closes closed"
            "is_ok r = (b \<and> closed)"
          by blast
        then show ?thesis
        proof cases
          case 1
          with start show ?thesis unfolding qs by (auto intro: stops_in_append)
        next
          case 2
          then have "served s (adapter_names gw) (qs @ qs') (is_ok r)"
            unfolding served_def qs opening_calls_def closing_calls_def adapter_names_def by (auto simp: comp_def)
          with start show ?thesis by simp
        qed
      qed
      then show ?thesis
        unfolding Inr start sum.case cbind_lift by (intro emits_mono [OF emits_started]) simp
    qed
  qed
qed


text \<open>The environment is read once: later applications of the process get the settings that the first one read.\<close>

theorem settings_read_once:
  assumes "create_app environment level_of None cache lg = (cache', lg', Inr st)"
  shows "create_app environment' level_of None cache' lg'' =
    (cache', configure_logging level_of (se_log_level st) (se_log_format st) lg'', Inr st)"
proof -
  obtain c r where one: "get_gateway_settings environment cache = (c, r)" by fastforce
  with assms have "r = Inr st" "c = cache'"
    by (auto simp: create_app_def split: sum.splits)
  with one have "cached_call environment cache = (cache', Inr st)" by (simp add: get_gateway_settings_def)
  note kept = cached_call_kept [OF this, of environment']
  from conjunct2 [OF kept] show ?thesis by (simp add: create_app_def get_gateway_settings_def)
qed

subsection \<open>The entry point of the outbox dispatcher\<close>

record OutboxDispatcher =
  od_dsn :: string
  od_table :: string
  od_channel :: string
  od_poll :: pyfloat

text \<open>\<open>os.environ[name]\<close>.\<close>

definition environ_item :: "(string \<Rightarrow> string option) \<Rightarrow> string \<Rightarrow> exn + string" where
  "environ_item getenv name = (case getenv name of None \<Rightarrow> Inl (KeyError name) | Some v \<Rightarrow> Inr v)"

definition dispatcher_from_env ::
  "(string \<Rightarrow> string option) \<Rightarrow> (string \<Rightarrow> exn + pyfloat) \<Rightarrow> exn + OutboxDispatcher"
where
  "dispatcher_from_env getenv to_float =
     rbind (environ_item getenv ''OUTBOX_DSN'') (\<lambda>dsn.
     rbind (environ_item getenv ''OUTBOX_TABLE'') (\<lambda>table.
     rbind (environ_item getenv ''OUTBOX_CHANNEL'') (\<lambda>channel.
     rmap (\<lambda>poll. \<lparr>od_dsn = dsn, od_table = table, od_channel = channel, od_poll = poll\<rparr>)
       (to_float (case getenv ''OUTBOX_POLL_SECONDS'' of None \<Rightarrow> ''30'' | Some p \<Rightarrow> p)))))"

text \<open>
  What the process finds: the settings of the logging SDK, connections by data source, the tables of the database by
  name, and what wakes the dispatcher that listens on a channel with a poll interval.
\<close>

record outbox_host =
  oh_settings :: "exn + ObservabilitySettings"
  oh_connect :: "string \<Rightarrow> exn + conn"
  oh_tables :: "string \<Rightarrow> outbox_row list option"
  oh_wakes :: "string \<Rightarrow> pyfloat \<Rightarrow> (outbox_row list option \<Rightarrow> outbox_row list option) list"
  oh_isoformat :: "int \<Rightarrow> string"
  oh_upper :: "string \<Rightarrow> string"

definition outbox_main ::
  "outbox_host \<Rightarrow> (string \<Rightarrow> string option) \<Rightarrow> (string \<Rightarrow> exn + pyfloat) \<Rightarrow> logging_state
    \<Rightarrow> logging_state \<times> log_entry list outbox option \<times> (exn + unit)"
where
  "outbox_main h getenv to_float lg =
     (case oh_settings h of
        Inl e \<Rightarrow> (lg, None, Inl e)
      | Inr settings \<Rightarrow>
          let lg' = setup_logging (oh_upper h) (settings\<lparr>os_service_name := ''outbox-dispatcher''\<rparr>) lg
          in case rbind (dispatcher_from_env getenv to_float) (\<lambda>d. rmap (\<lambda>c. (d, c)) (oh_connect h (od_dsn d))) of
               Inl e \<Rightarrow> (lg', None, Inl e)
             | Inr (d, c) \<Rightarrow>
                 (case dispatcher_run c (log_sink_deliver (oh_isoformat h)) (oh_wakes h (od_channel d) (od_poll d))
                    \<lparr>ox_table = oh_tables h (od_table d), ox_sink = [], ox_calls = 0\<rparr> of
                    (w, r) \<Rightarrow> (lg', Some w, r)))"

text \<open>
  The entry point: without one of its three variables, or with a poll interval that is no number, the process ends with
  that error before it connects; with them, as long as its connection and the decoding of payloads do not fail, it leaves no
  unprocessed row in the table that the environment names, after every wake-up of the channel it names.
\<close>

theorem outbox_main_contract:
  assumes "oh_settings h = Inr settings"
  shows "(\<forall>e. dispatcher_from_env getenv to_float = Inl e \<longrightarrow> snd (outbox_main h getenv to_float lg) = (None, Inl e)) \<and>
    (\<forall>name \<in> {''OUTBOX_DSN'', ''OUTBOX_TABLE'', ''OUTBOX_CHANNEL''}. getenv name = None \<longrightarrow>
       \<not> is_ok (dispatcher_from_env getenv to_float)) \<and>
    (\<forall>d c t. dispatcher_from_env getenv to_float = Inr d \<and> oh_connect h (od_dsn d) = Inr c \<and>
       (\<forall>n. oc_fault c n = None) \<and> (\<forall>text. is_ok (oc_loads c text)) \<and> oh_tables h (od_table d) = Some t \<and>
       (\<forall>f \<in> set (oh_wakes h (od_channel d) (od_poll d)). \<forall>t. f (Some t) \<noteq> None) \<longrightarrow>
       getenv ''OUTBOX_TABLE'' = Some (od_table d) \<and> getenv ''OUTBOX_CHANNEL'' = Some (od_channel d) \<and>
       (\<exists>w t'. snd (outbox_main h getenv to_float lg) = (Some w, Inr ()) \<and> ox_table w = Some t' \<and> pending t' = []))"
proof (intro conjI allI ballI impI)
  fix e assume "dispatcher_from_env getenv to_float = Inl e"
  with assms show "snd (outbox_main h getenv to_float lg) = (None, Inl e)"
    by (simp add: outbox_main_def Let_def)
next
  fix name assume "name \<in> {''OUTBOX_DSN'', ''OUTBOX_TABLE'', ''OUTBOX_CHANNEL''}" "getenv name = None"
  then show "\<not> is_ok (dispatcher_from_env getenv to_float)"
    by (auto simp: dispatcher_from_env_def environ_item_def rbind_Inr_iff split: option.split)
next
  fix d c t
  assume run: "dispatcher_from_env getenv to_float = Inr d \<and> oh_connect h (od_dsn d) = Inr c \<and>
       (\<forall>n. oc_fault c n = None) \<and> (\<forall>text. is_ok (oc_loads c text)) \<and> oh_tables h (od_table d) = Some t \<and>
       (\<forall>f \<in> set (oh_wakes h (od_channel d) (od_poll d)). \<forall>t. f (Some t) \<noteq> None)"
  then show "getenv ''OUTBOX_TABLE'' = Some (od_table d)" "getenv ''OUTBOX_CHANNEL'' = Some (od_channel d)"
    by (auto simp: dispatcher_from_env_def environ_item_def rbind_Inr_iff rmap_Inr_iff split: option.splits)
  have "\<exists>w' t'. dispatcher_run c (log_sink_deliver (oh_isoformat h)) (oh_wakes h (od_channel d) (od_poll d))
      \<lparr>ox_table = oh_tables h (od_table d), ox_sink = [], ox_calls = 0\<rparr> = (w', Inr ()) \<and>
      ox_table w' = Some t' \<and> pending t' = []"
    by (rule dispatcher_run_drains [OF logs.sink_axioms]) (use run in \<open>auto simp: log_sink_deliver_def\<close>)
  with run assms show "\<exists>w t'. snd (outbox_main h getenv to_float lg) = (Some w, Inr ()) \<and> ox_table w = Some t' \<and> pending t' = []"
    by (auto simp: outbox_main_def Let_def)
qed

subsection \<open>Closing a client of the LLM SDK\<close>

datatype client_close = CloseProvider provider_impl | CloseCache

definition llm_client_close ::
  "('env \<Rightarrow> client_close \<Rightarrow> 'env \<times> (exn + unit)) \<Rightarrow> LlmClient \<Rightarrow> ('env, client_close, exn, unit) cmd"
where
  "llm_client_close env c =
     cseq (ccall env (CloseProvider (lc_impl c))) (cwhen (lc_cache c \<noteq> None) (ccall env CloseCache))"

text \<open>
  Closing releases the provider, then the embedding cache if there is one; when the provider's close raises, the
  cache stays open.
\<close>

theorem llm_client_close_releases:
  assumes "llm_client_close env c s = (s', res)"
  shows "\<exists>qs. ss_log s' = ss_log s @ qs \<and>
    stops_in (CloseProvider (lc_impl c) # (case lc_cache c of None \<Rightarrow> [] | Some db \<Rightarrow> [CloseCache])) qs (is_ok res)"
proof -
  have "llm_client_close env c s =
      cfor (ccall env) (CloseProvider (lc_impl c) # (case lc_cache c of None \<Rightarrow> [] | Some db \<Rightarrow> [CloseCache])) s"
    by (cases "lc_cache c")
       (auto simp: llm_client_close_def cwhen_def cseq_def cbind_def cret_def split: prod.split sum.split)
  with assms emitsD [OF emits_calls] show ?thesis by metis
qed

subsection \<open>Witnesses\<close>

text \<open>An environment in which closing the limiter fails.\<close>

fun sample_host :: "unit \<Rightarrow> lifespan_call \<Rightarrow> unit \<times> (registry_exn + unit)" where
  "sample_host u CloseLimiter = (u, Inl (RegistryPy (ExternalError ''ConnectionError'')))"
| "sample_host u q = (u, Inr ())"

definition sample_process :: "(unit, lifespan_call) session \<Rightarrow> (unit, lifespan_call) session \<times> (registry_exn + unit)" where
  "sample_process =
     gateway_process sample_host (\<lambda>s. Inl s) (\<lambda>j. Inl []) (\<lambda>k. None) None (empty_store 0 :: string tenant_store) () default_settings"


lemma settings_read_once_witness:
  "create_app (Inl (ValueError [])) (\<lambda>l. Some l) None (Some default_settings) \<lparr>gl_configured = False, gl_processors = [], gl_level = []\<rparr> =
    (Some default_settings, configure_logging (\<lambda>l. Some l) ''INFO'' ''json'' \<lparr>gl_configured = False, gl_processors = [], gl_level = []\<rparr>,
      Inr default_settings)"
  using settings_read_once [of "Inr default_settings" "\<lambda>l. Some l" None "\<lparr>gl_configured = False, gl_processors = [], gl_level = []\<rparr>"
      "Some default_settings" _ default_settings "Inl (ValueError [])"]
  by (simp add: create_app_def get_gateway_settings_def cached_call_def default_settings_def)

definition sample_outbox_host :: outbox_host where
  "sample_outbox_host = \<lparr>oh_settings = Inr sample_obs_settings, oh_connect = (\<lambda>dsn. Inr healthy_conn),
     oh_tables = (\<lambda>name. if name = ''outbox'' then Some [sample_event_row 1] else None),
     oh_wakes = (\<lambda>channel poll. [\<lambda>t. map_option (\<lambda>rows. rows @ [sample_event_row 2]) t]),
     oh_isoformat = (\<lambda>i. []), oh_upper = (\<lambda>s. s)\<rparr>"

definition sample_outbox_env :: "string \<Rightarrow> string option" where
  "sample_outbox_env =
     map_of [(''OUTBOX_DSN'', ''dsn''), (''OUTBOX_TABLE'', ''outbox''), (''OUTBOX_CHANNEL'', ''bell'')]"

lemma outbox_main_contract_witness:
  "\<exists>w t'. snd (outbox_main sample_outbox_host sample_outbox_env (\<lambda>s. Inr (Fin 30)) \<lparr>lg_processors = [], lg_handlers = [], lg_level = []\<rparr>) =
     (Some w, Inr ()) \<and> ox_table w = Some t' \<and> pending t' = []"
proof -
  have "oh_settings sample_outbox_host = Inr sample_obs_settings" by (simp add: sample_outbox_host_def)
  moreover have "dispatcher_from_env sample_outbox_env (\<lambda>s. Inr (Fin 30)) =
      Inr \<lparr>od_dsn = ''dsn'', od_table = ''outbox'', od_channel = ''bell'', od_poll = Fin 30\<rparr>"
    by (simp add: dispatcher_from_env_def environ_item_def sample_outbox_env_def)
  ultimately show ?thesis
    using outbox_main_contract [of sample_outbox_host sample_obs_settings sample_outbox_env "\<lambda>s. Inr (Fin 30)"]
    by (simp add: sample_outbox_host_def healthy_conn_def)
qed

lemma llm_client_close_releases_witness:
  "\<exists>qs. ss_log (fst (llm_client_close (\<lambda>u q. (u, Inr ())) sample_client \<lparr>ss_server = (), ss_log = []\<rparr>)) = qs \<and>
     stops_in [CloseProvider (lc_impl sample_client), CloseCache] qs True"
proof -
  obtain s' res where run: "llm_client_close (\<lambda>u q. (u, Inr ())) sample_client \<lparr>ss_server = (), ss_log = []\<rparr> = (s', res)" by fastforce
  then have "is_ok res" by (auto simp: llm_client_close_def cseq_def cbind_def cwhen_def ccall_def cret_def sample_client_def)
  with llm_client_close_releases [OF run] run show ?thesis by (simp add: sample_client_def)
qed

end
