(* ===== verification/Spec2Isabelle.thy ===== *)
theory Spec2Isabelle
  imports Service Wire Filesystem_Concurrency Storage_Client Outbox Redis_Admin Postgres_Admin Llm_Client Postgres_Client Tracing Processes
begin

text \<open>
  A verification library of basic-infra: the shared platform services under \<open>src/\<close> on which the client
  projects (the tenants) run. The program has these parts, each of which has the theories named here.

  \<^item> The LLM gateway (\<open>llm/gateway/app\<close>) accepts OpenAI-shaped requests, authenticates the tenant, counts the
    request against its limit, finds the backend that serves the model and forwards the request.
    \<open>Gateway_Errors\<close> has the exceptions and the error envelope (\<open>exceptions.py\<close>, \<open>schemas/errors.py\<close>, the handlers
    of \<open>main.py\<close>); \<open>Schemas\<close> the request and response models, their validity and their dumps (\<open>schemas/\<close>);
    \<open>Tenant_Store\<close> the SQLite store of tenants, keys and rotated keys (\<open>tenancy/store.py\<close>); \<open>Auth_Cache\<close> the
    authenticator's cache (\<open>tenancy/auth.py\<close>); \<open>Rate_Limit\<close> the fixed-window limiter (\<open>tenancy/ratelimit.py\<close>);
    \<open>Backend\<close> the adapters and their health (\<open>backends/\<close>); \<open>Registry\<close> and \<open>Router\<close> the two files of that name under
    \<open>routing/\<close>, and \<open>Health\<close> the background checker (\<open>routing/health.py\<close>); \<open>Gateway\<close> the dependencies, handlers,
    middleware, readiness, startup and shutdown (\<open>api/\<close>, \<open>main.py\<close>, \<open>config.py\<close>); \<open>Tenancy_Cli\<close> the command line of
    the store and the seeding script (\<open>tenancy/cli.py\<close>, \<open>scripts/seed-tenants.py\<close>). \<open>Service\<close> runs all of it together:
    requests as tasks that interleave with each other, with probes, drained clients and the command line.
    \<open>Wire\<close> has the JSON that crosses the network, with the shapes the API documents and the reading of requests.
  \<^item> Blob storage (\<open>storage/\<close>): \<open>Blob_Port\<close> has the data and exceptions of the port and the contract of an
    adapter as a locale; \<open>S3_Store\<close> the S3 and MinIO adapters and their shared client; \<open>Filesystem_Store\<close> the
    filesystem adapter over an explicit tree; \<open>Filesystem_Tasks\<close> its \<open>put\<close> in the steps between two awaits, over names
    and open files, and \<open>Filesystem_Concurrency\<close> what many such puts do to each other; \<open>Storage_Client\<close> the SDK
    clients over both.
  \<^item> The outbox dispatcher (\<open>outbox/\<close>): \<open>Outbox\<close>.
  \<^item> The control planes (\<open>redis_shared/\<close>, \<open>postgres/\<close>), which make and remove what a tenant owns on a shared
    server: \<open>Tenant_Names\<close> derives the names from the tenant, \<open>Admin_Session\<close> is the calculus of commands that
    both use, \<open>Redis_Admin\<close> and \<open>Postgres_Admin\<close> are the adapters with their command lines, and the settings,
    client arguments and health check of the Redis SDK.
  \<^item> The SDKs: \<open>Postgres_Client\<close> (settings, engines, sessions, health), \<open>Llm_Providers\<close> and \<open>Llm_Client\<close> (the
    client of the gateway, of OpenAI and of Anthropic, with its embedding cache), \<open>Observability\<close> and \<open>Tracing\<close>
    (context, logs, metrics, traces).
  \<^item> The processes: \<open>Processes\<close> has the application with its lifespan, from opening the store to closing it (\<open>create_app\<close>,
    \<open>lifespan\<close> of \<open>main.py\<close>), the entry point of the dispatcher (\<open>outbox/basic_infra_outbox/__main__.py\<close>) and the close of
    an LLM client, as programs of \<open>Admin_Session\<close> over calls that may raise.
\<close>

text \<open>
  How the parts interact. The gateway calls the store through the authenticator, the limiter through Redis,
  the registry through the router and the backends through the router's adapters, while the health checker
  changes the same adapters in between: \<open>Gateway\<close> composes the definitions of these theories in the order the code
  calls them, and \<open>Service\<close> cuts them at their awaits and lets any number of them take turns. The seeding script and the command line write the store the gateway reads. A provider of the
  client SDK sends to the gateway what the gateway's schemas accept, and reads what they dump: the theorems of
  \<open>Llm_Providers\<close> run the adapter of \<open>Backend\<close>, the dump of \<open>Schemas\<close> and the parser of the SDK in sequence. The names
  of \<open>Tenant_Names\<close> are shared by the control planes and the SDKs. The health check of the PostgreSQL SDK uses the
  engine cache of the same theory; the logs take the identifiers of the spans that \<open>Tracing\<close> configures.

  How the model corresponds to the code. A class is a record with the fields of its instances, an enumeration
  a datatype, a method a definition of the same name (with the prefix of its class where two collide) that
  takes the state and returns it updated; a raised exception is the left value of a sum, so that every early
  return and every \<open>except\<close> is a branch; a dictionary is an association list, in the order of insertion; a
  generator is the list of what it yields and the exception that ended it. Integers are unbounded as in
  Python; the span identifiers of OpenTelemetry are words of 128 and 64 bits. Floats are rationals with
  infinities and NaN, so rounding is not modelled but comparison is. Text is 8-bit. Messages the code has in
  Russian are given in English. An \<open>AttributeError\<close> of a value of the wrong JSON type is a \<open>TypeError\<close>.

  Interfaces. \<open>Auth_Cache\<close> has the locale \<open>key_source\<close> for what the cache needs of the store, interpreted on the
  store (\<open>tenant_keys\<close>); \<open>Blob_Port\<close> the locale \<open>blob_store\<close> for what an adapter promises about its addresses and
  contents, interpreted on the S3 adapter (\<open>s3\<close>) and on the filesystem (\<open>fsys\<close>), with the isolation of tenants
  proved once inside it; \<open>Outbox\<close> the locale \<open>sink\<close>, interpreted on both sinks of the program (\<open>rec\<close>, \<open>logs\<close>).

  Parameters. What is not under \<open>src/\<close> is an argument of the definitions: the HTTP client, the Redis and
  PostgreSQL servers, the S3 client, Argon2 and the token generator, SHA-256, the JSON and YAML codecs, the
  clock, SQLAlchemy, OpenTelemetry, Prometheus, structlog, and the packages of OpenAI and Anthropic. What the code
  relies on is a named predicate where a theorem needs it (\<open>s3_service\<close>, \<open>codec_ok\<close>, \<open>pg_catalog\<close>, \<open>honours_match\<close>,
  \<open>scan_advances\<close>, \<open>redis_counts\<close>, \<open>floats_kept\<close>, \<open>sound_codec\<close>, \<open>first_provider_wins\<close>, \<open>keeps_fields\<close>), and its witness
  instantiates it. A server is otherwise arbitrary: it may answer or fail at every single request.
\<close>

text \<open>
  What the lemmas show. In \<open>Tenant_Store\<close>: a well-formedness invariant of the tables that every operation keeps, and
  that authentication decides which tenant holds a key; in \<open>Auth_Cache\<close>: the bound of the cache and of its
  staleness; in \<open>Rate_Limit\<close>: that a window admits exactly its limit, that counters never collide, and every
  outcome when Redis fails; in \<open>Backend\<close> and \<open>Health\<close>: that the health of an adapter is a function of the streak of
  failed probes, that no retired client is used, and what is sent and returned by each kind; in \<open>Registry\<close> and
  \<open>Router\<close>: which backend an identifier resolves to and every reason of refusal; in \<open>Gateway\<close>: the whole path of a
  request, its charge, its log line and readiness. In \<open>Service\<close>: that the interleaved service refines the handlers,
  keeps the invariants of its parts together, admits exactly its limits over all interleavings, never serves a
  revoked key again and answers every request after finitely many turns; in \<open>Wire\<close>: that what is sent conforms to
  the documented shapes and that what the SDK writes the gateway reads back. In the storage theories: isolation of tenants, round trips
  through each adapter and through the clients, the shared client under every interleaving, and puts of the
  filesystem in every interleaving: those of different keys are whole for every reader, those of one key are not. In \<open>Outbox\<close>: that
  delivery is at least once over all failures, and that the loop drains the table. In the control planes: that a
  command confines itself to its tenant, closes what it opens and settles what it begins, wherever the server
  fails. In the SDKs: that a session settles its transaction, that engines are shared exactly by databases, that
  the embedding cache is transparent, that errors and vectors arrive as they were sent, that scopes are
  lexical, and what each log line and metric carries; that the credentials a control plane issues are those a client connects with,
  and that the synchronous storage client shares one S3 client across event loops. In \<open>Processes\<close>: what is open while the
  gateway serves and in which order it is closed, whichever call raises, and that the dispatcher's process drains the table its
  environment names.

  Termination. All loops are recursive over the data they iterate, except the purge of \<open>Redis_Admin\<close>, whose end is
  up to the server: it is a partial function, and \<open>deprovision_terminates\<close> proves that it returns for every server
  whose scan iterations end. The loops of the dispatcher and of the health checker, which run until they are
  cancelled, take the finite list of wake-ups that happened; nothing in the development uses fuel.

  Concurrency. A step of asyncio between two awaits is atomic. Where the code shares state over an await (the S3
  client, the replacement of an adapter's HTTP client, the gateway with its store, cache, limiter and registry,
  the puts of the filesystem) the model is a step relation over all interleavings; elsewhere operations run one after another. A scan of the outbox is atomic for other producers, as one
  transaction is.

  Not modelled: the reading of environment variables and the coercions of pydantic (settings start as typed
  values; requests are read from JSON whose values have exactly the declared types; validators are modelled); routing and the OpenAPI document of FastAPI; the argument
  parsers of the command lines; symbolic links, permissions and concurrent processes on the filesystem; rounding
  of floats and text beyond 8 bits; the migration of the SQLite schema; the objects of SQLAlchemy and redis that the factories construct; \<open>backends/translate.py\<close> and
  \<open>observability/metrics.py\<close> of the gateway, which are placeholders; tests, documents and deployment files.
\<close>

end
